(* ===== verification/Prelude.thy ===== *)
theory Prelude
  imports Main "HOL-Library.Word"
begin

text \<open>
  What every component of the development shares: machine types, the outcome of a Rust
  \<^verbatim>\<open>async fn\<close>, the state-passing combinators that stand for \<^verbatim>\<open>?\<close> and \<^verbatim>\<open>match\<close>, slices of byte buffers, the few string operations of the standard library that
  the code uses, and the named collections \<open>run_simps\<close> (evaluation of a computation) and
  \<open>buf_simps\<close> (lengths and contents of buffers).
\<close>

unbundle bit_operations_syntax

named_theorems run_simps
named_theorems buf_simps

section \<open>Machine types\<close>

type_synonym byte = "8 word"
type_synonym bytes = "byte list"
type_synonym u8 = "8 word"
type_synonym u16 = "16 word"
type_synonym u32 = "32 word"
type_synonym u64 = "64 word"
type_synonym u128 = "128 word"

text \<open>Floating-point fields that are only carried over the wire are kept as their bit pattern.\<close>

type_synonym f32_bits = "32 word"

section \<open>Outcomes\<close>

text \<open>
  The outcome of an \<^verbatim>\<open>async fn\<close> returning \<^verbatim>\<open>anyhow::Result<T>\<close>: a value, an error (which the
  code only ever prints or searches for a substring, so it is its message), a panic, or a future
  that does not become ready (a read on a peer that has stalled).
\<close>

datatype 'a res = Ok 'a | Err string | Panic string | Pending

type_synonym ('s, 'a) io = "'s \<Rightarrow> 'a res \<times> 's"

fun map_res :: "('a \<Rightarrow> 'b) \<Rightarrow> 'a res \<Rightarrow> 'b res" where
  "map_res f (Ok a) = Ok (f a)"
| "map_res f (Err e) = Err e"
| "map_res f (Panic p) = Panic p"
| "map_res f Pending = Pending"

fun bind_res :: "'a res \<Rightarrow> ('a \<Rightarrow> 'b res) \<Rightarrow> 'b res" where
  "bind_res (Ok a) f = f a"
| "bind_res (Err e) f = Err e"
| "bind_res (Panic p) f = Panic p"
| "bind_res Pending f = Pending"

text \<open>A fallible call of another crate, with its error turned into a message.\<close>

definition of_sum :: "(string \<Rightarrow> string) \<Rightarrow> string + 'a \<Rightarrow> 'a res" where
  "of_sum f r = (case r of Inl e \<Rightarrow> Err (f e) | Inr a \<Rightarrow> Ok a)"

lemma of_sum_simps [simp]: "of_sum f (Inl e) = Err (f e)" "of_sum f (Inr a) = Ok a"
  by (simp_all add: of_sum_def)

definition ret :: "'a \<Rightarrow> ('s, 'a) io" where
  "ret a s = (Ok a, s)"

definition fail :: "string \<Rightarrow> ('s, 'a) io" where
  "fail e s = (Err e, s)"

definition lift_res :: "'a res \<Rightarrow> ('s, 'a) io" where
  "lift_res r s = (r, s)"

text \<open>\<open>seq m f\<close> is \<^verbatim>\<open>let x = m?; f(x)\<close>: everything but a value ends the function.\<close>

definition seq :: "('s, 'a) io \<Rightarrow> ('a \<Rightarrow> ('s, 'b) io) \<Rightarrow> ('s, 'b) io" where
  "seq m f s = (case m s of (r, s') \<Rightarrow>
     (case r of Ok a \<Rightarrow> f a s' | Err e \<Rightarrow> (Err e, s') | Panic p \<Rightarrow> (Panic p, s')
      | Pending \<Rightarrow> (Pending, s')))"

text \<open>\<open>attempt m\<close> is the scrutinee of \<^verbatim>\<open>match m.await\<close>: the error becomes a value.\<close>

definition attempt :: "('s, 'a) io \<Rightarrow> ('s, string + 'a) io" where
  "attempt m s = (case m s of (r, s') \<Rightarrow>
     (case r of Ok a \<Rightarrow> (Ok (Inr a), s') | Err e \<Rightarrow> (Ok (Inl e), s') | Panic p \<Rightarrow> (Panic p, s')
      | Pending \<Rightarrow> (Pending, s')))"

text \<open>\<open>wrap_err f m\<close> is \<^verbatim>\<open>m.await.map_err(f)\<close> (and \<^verbatim>\<open>.context(..)\<close>).\<close>

definition wrap_err :: "(string \<Rightarrow> string) \<Rightarrow> ('s, 'a) io \<Rightarrow> ('s, 'a) io" where
  "wrap_err f m s = (case m s of (r, s') \<Rightarrow> (case r of Err e \<Rightarrow> (Err (f e), s') | _ \<Rightarrow> (r, s')))"

text \<open>tokio's \<^verbatim>\<open>Elapsed\<close> error, what \<^verbatim>\<open>timeout(..).await??\<close> yields on expiry.\<close>

definition deadline_elapsed :: string where
  "deadline_elapsed = ''deadline has elapsed''"

definition get_state :: "('s \<Rightarrow> 'a) \<Rightarrow> ('s, 'a) io" where
  "get_state f s = (Ok (f s), s)"

definition upd_state :: "('s \<Rightarrow> 's) \<Rightarrow> ('s, unit) io" where
  "upd_state f s = (Ok (), f s)"

lemma ret_run [run_simps]: "ret a s = (Ok a, s)"
  by (simp add: ret_def)

lemma fail_run [run_simps]: "fail e s = (Err e, s)"
  by (simp add: fail_def)

lemma lift_res_run [run_simps]: "lift_res r s = (r, s)"
  by (simp add: lift_res_def)

lemma get_state_run [run_simps]: "get_state f s = (Ok (f s), s)"
  by (simp add: get_state_def)

lemma upd_state_run [run_simps]: "upd_state f s = (Ok (), f s)"
  by (simp add: upd_state_def)

lemma seq_Ok [run_simps]: "m s = (Ok a, s') \<Longrightarrow> seq m f s = f a s'"
  by (simp add: seq_def)

lemma seq_Err [run_simps]: "m s = (Err e, s') \<Longrightarrow> seq m f s = (Err e, s')"
  by (simp add: seq_def)

lemma seq_Panic [run_simps]: "m s = (Panic p, s') \<Longrightarrow> seq m f s = (Panic p, s')"
  by (simp add: seq_def)

lemma seq_Pending [run_simps]: "m s = (Pending, s') \<Longrightarrow> seq m f s = (Pending, s')"
  by (simp add: seq_def)

lemma attempt_Ok [run_simps]: "m s = (Ok a, s') \<Longrightarrow> attempt m s = (Ok (Inr a), s')"
  by (simp add: attempt_def)

lemma attempt_Err [run_simps]: "m s = (Err e, s') \<Longrightarrow> attempt m s = (Ok (Inl e), s')"
  by (simp add: attempt_def)

lemma attempt_Panic [run_simps]: "m s = (Panic p, s') \<Longrightarrow> attempt m s = (Panic p, s')"
  by (simp add: attempt_def)

lemma attempt_Pending [run_simps]: "m s = (Pending, s') \<Longrightarrow> attempt m s = (Pending, s')"
  by (simp add: attempt_def)

lemma wrap_err_Ok [run_simps]: "m s = (Ok a, s') \<Longrightarrow> wrap_err f m s = (Ok a, s')"
  by (simp add: wrap_err_def)

lemma wrap_err_Err [run_simps]: "m s = (Err e, s') \<Longrightarrow> wrap_err f m s = (Err (f e), s')"
  by (simp add: wrap_err_def)

lemma wrap_err_Panic [run_simps]: "m s = (Panic p, s') \<Longrightarrow> wrap_err f m s = (Panic p, s')"
  by (simp add: wrap_err_def)

lemma wrap_err_Pending [run_simps]: "m s = (Pending, s') \<Longrightarrow> wrap_err f m s = (Pending, s')"
  by (simp add: wrap_err_def)

lemma seq_OkE:
  assumes "seq m f s = (Ok b, t)"
  obtains a s' where "m s = (Ok a, s')" "f a s' = (Ok b, t)"
  using assms by (auto simp: seq_def split: prod.splits res.splits)

text \<open>
  \<open>steps R m\<close>: whatever the outcome of \<open>m\<close>, the state before and the state after are related by
  \<open>R\<close>. For a preorder, this composes along the structure of \<open>m\<close>.
\<close>

definition steps :: "('s \<Rightarrow> 's \<Rightarrow> bool) \<Rightarrow> ('s, 'a) io \<Rightarrow> bool" where
  "steps R m \<longleftrightarrow> (\<forall>s. R s (snd (m s)))"

lemma stepsD: "steps R m \<Longrightarrow> m s = (r, s') \<Longrightarrow> R s s'"
  unfolding steps_def by (metis snd_conv)

lemma stepsI: "(\<And>s r s'. m s = (r, s') \<Longrightarrow> R s s') \<Longrightarrow> steps R m"
  unfolding steps_def by (metis prod.collapse)

locale run_rel =
  fixes R :: "'s \<Rightarrow> 's \<Rightarrow> bool"
  assumes R_refl: "R s s" and R_trans: "R s t \<Longrightarrow> R t u \<Longrightarrow> R s u"
begin

lemma steps_pure: "steps R (ret a)" "steps R (fail e)" "steps R (lift_res r)" "steps R (get_state g)"
  by (simp_all add: steps_def run_simps R_refl)

lemma steps_seq:
  assumes "steps R m" "\<And>a. steps R (f a)"
  shows "steps R (seq m f)"
proof (rule stepsI)
  fix s r s' assume q: "seq m f s = (r, s')"
  obtain x t where x: "m s = (x, t)" by force
  with q have "s' = t \<or> (\<exists>a. f a t = (r, s'))" by (auto simp: seq_def split: res.splits)
  with stepsD [OF assms(1) x] stepsD [OF assms(2)] show "R s s'" by (blast intro: R_trans)
qed

lemma steps_attempt: "steps R m \<Longrightarrow> steps R (attempt m)"
  by (rule stepsI) (auto simp: attempt_def split: prod.splits res.splits dest: stepsD)

lemma steps_wrap_err: "steps R m \<Longrightarrow> steps R (wrap_err f m)"
  by (rule stepsI) (auto simp: wrap_err_def split: prod.splits res.splits dest: stepsD)

lemma steps_upd: "(\<And>s. R s (g s)) \<Longrightarrow> steps R (upd_state g)"
  by (simp add: steps_def upd_state_def)

lemma steps_if: "steps R m \<Longrightarrow> steps R n \<Longrightarrow> steps R (if b then m else n)"
  by simp

lemma steps_sum: "(\<And>e. steps R (f e)) \<Longrightarrow> (\<And>a. steps R (g a)) \<Longrightarrow> steps R (case x of Inl e \<Rightarrow> f e | Inr a \<Rightarrow> g a)"
  by (cases x) simp_all

lemma steps_pair: "(\<And>a b. steps R (f a b)) \<Longrightarrow> steps R (case x of (a, b) \<Rightarrow> f a b)"
  by (cases x) simp

lemmas steps_rules = steps_pure steps_seq steps_attempt steps_wrap_err steps_if steps_sum steps_pair

end

section \<open>Byte buffers\<close>

text \<open>\<^verbatim>\<open>buf[a..b]\<close>; every use checks the range first, where Rust would panic.\<close>

definition buf_get :: "nat \<Rightarrow> nat \<Rightarrow> 'a list \<Rightarrow> 'a list" where
  "buf_get a b xs = take (b - a) (drop a xs)"

text \<open>\<^verbatim>\<open>buf[a..a+d.len()].copy_from_slice(d)\<close>.\<close>

definition buf_put :: "nat \<Rightarrow> 'a list \<Rightarrow> 'a list \<Rightarrow> 'a list" where
  "buf_put a d xs = take a xs @ d @ drop (a + length d) xs"

text \<open>\<^verbatim>\<open>BytesMut::resize(n, 0)\<close>.\<close>

definition resize :: "nat \<Rightarrow> bytes \<Rightarrow> bytes" where
  "resize n xs = take n xs @ replicate (n - length xs) 0"

lemma length_buf_get [buf_simps]: "a \<le> b \<Longrightarrow> b \<le> length xs \<Longrightarrow> length (buf_get a b xs) = b - a"
  by (simp add: buf_get_def)

lemma length_buf_put [buf_simps]: "a + length d \<le> length xs \<Longrightarrow> length (buf_put a d xs) = length xs"
  by (simp add: buf_put_def)

lemma buf_get_put_same [buf_simps]:
  "a + length d \<le> length xs \<Longrightarrow> b = a + length d \<Longrightarrow> buf_get a b (buf_put a d xs) = d"
  by (simp add: buf_get_def buf_put_def)

lemma length_resize [buf_simps]: "length (resize n xs) = n"
  by (simp add: resize_def)

lemma take_buf_put_zero [buf_simps]: "length d \<le> length xs \<Longrightarrow> n = length d \<Longrightarrow> take n (buf_put 0 d xs) = d"
  by (simp add: buf_put_def)

lemma buf_get_append_mid: "length xs = a \<Longrightarrow> length ys = b - a \<Longrightarrow> buf_get a b (xs @ ys @ zs) = ys"
  by (simp add: buf_get_def)

section \<open>Big-endian length prefixes\<close>

text \<open>\<^verbatim>\<open>u32::to_be_bytes\<close> and \<^verbatim>\<open>u32::from_be_bytes\<close>.\<close>

definition to_be_bytes :: "u32 \<Rightarrow> bytes" where
  "to_be_bytes w = [ucast (drop_bit 24 w), ucast (drop_bit 16 w), ucast (drop_bit 8 w), ucast w]"

definition from_be_bytes :: "bytes \<Rightarrow> u32" where
  "from_be_bytes bs = foldl (\<lambda>a b. push_bit 8 a OR ucast b) 0 bs"

lemma length_to_be_bytes [simp]: "length (to_be_bytes w) = 4"
  by (simp add: to_be_bytes_def)

lemma from_to_be_bytes [simp]: "from_be_bytes (to_be_bytes w) = w"
proof (rule bit_word_eqI)
  fix n assume "n < LENGTH(32)"
  then consider "n < 8" | "8 \<le> n" "n < 16" | "16 \<le> n" "n < 24" | "24 \<le> n" "n < 32"
    by fastforce
  then show "bit (from_be_bytes (to_be_bytes w)) n = bit w n"
    by cases (simp_all add: to_be_bytes_def from_be_bytes_def bit_simps less_diff_conv2)
qed

section \<open>Strings\<close>

text \<open>
  A Rust \<^verbatim>\<open>String\<close> is its UTF-8 bytes, one \<open>char\<close> each, so \<^verbatim>\<open>len()\<close> is \<open>length\<close>.
\<close>

definition as_bytes :: "string \<Rightarrow> bytes" where
  "as_bytes s = map (\<lambda>c. of_nat (of_char c)) s"

lemma length_as_bytes [simp]: "length (as_bytes s) = length s"
  by (simp add: as_bytes_def)

lemma as_bytes_inj: "as_bytes s = as_bytes t \<Longrightarrow> s = t"
proof (induction s arbitrary: t)
  case Nil
  then show ?case by (simp add: as_bytes_def)
next
  case (Cons c s)
  from Cons.prems obtain d t' where t: "t = d # t'" "(of_nat (of_char c) :: byte) = of_nat (of_char d)" "as_bytes s = as_bytes t'"
    by (cases t) (auto simp: as_bytes_def)
  from t(2) have "(of_char c :: nat) mod 256 = of_char d mod 256"
    by (simp add: word_of_nat_eq_iff take_bit_eq_mod)
  then have "c = d"
    by simp
  with Cons.IH [OF t(3)] t(1) show ?case by simp
qed

text \<open>\<^verbatim>\<open>str::is_char_boundary\<close>: slicing a string anywhere else panics.\<close>

definition is_char_boundary :: "string \<Rightarrow> nat \<Rightarrow> bool" where
  "is_char_boundary s i = (i = length s \<or>
     (i < length s \<and> \<not> (128 \<le> (of_char (s ! i) :: nat) \<and> (of_char (s ! i) :: nat) < 192)))"

text \<open>\<^verbatim>\<open>s[..n]\<close>.\<close>

definition str_prefix :: "nat \<Rightarrow> string \<Rightarrow> string res" where
  "str_prefix n s = (if is_char_boundary s n then Ok (take n s)
     else Panic ''byte index is not a char boundary or out of range'')"

text \<open>\<^verbatim>\<open>s.contains(p)\<close>, \<^verbatim>\<open>s.to_lowercase()\<close> on the ASCII messages of the code, \<^verbatim>\<open>s.trim()\<close>.\<close>

fun str_contains :: "string \<Rightarrow> string \<Rightarrow> bool" where
  "str_contains [] p = (p = [])"
| "str_contains (c # cs) p = (take (length p) (c # cs) = p \<or> str_contains cs p)"

definition lower_char :: "char \<Rightarrow> char" where
  "lower_char c = (let n = (of_char c :: nat) in if 65 \<le> n \<and> n \<le> 90 then char_of (n + 32) else c)"

definition to_lowercase :: "string \<Rightarrow> string" where
  "to_lowercase s = map lower_char s"

definition is_ws :: "char \<Rightarrow> bool" where
  "is_ws c = (let n = (of_char c :: nat) in n = 32 \<or> (9 \<le> n \<and> n \<le> 13))"

definition trim :: "string \<Rightarrow> string" where
  "trim s = rev (dropWhile is_ws (rev (dropWhile is_ws s)))"

text \<open>Decimal rendering, as in \<^verbatim>\<open>format!("{}", n)\<close>.\<close>

fun show_nat :: "nat \<Rightarrow> string" where
  "show_nat n = (if n < 10 then [char_of (48 + n)] else show_nat (n div 10) @ [char_of (48 + n mod 10)])"

declare show_nat.simps [simp del]

lemma str_contains_append: "str_contains (xs @ p @ ys) p"
proof (induction xs)
  case Nil
  have "take (length p) (p @ ys) = p" by simp
  then show ?case by (cases "p @ ys") auto
qed simp

lemma to_lowercase_append [simp]: "to_lowercase (s @ t) = to_lowercase s @ to_lowercase t"
  by (simp add: to_lowercase_def)

section \<open>Splitting a byte string into full chunks and a rest\<close>

text \<open>
  How a reader that fills a buffer of \<open>n\<close> bytes cuts a file: full chunks, then what is left.
\<close>

function chunks :: "nat \<Rightarrow> 'a list \<Rightarrow> 'a list list" where
  "chunks n xs = (if xs = [] \<or> n = 0 then [] else take n xs # chunks n (drop n xs))"
  by pat_completeness auto
termination
  by (relation "measure (\<lambda>(n, xs). length xs)") auto

declare chunks.simps [simp del]

lemma chunks_Nil [simp]: "chunks n [] = []"
  by (simp add: chunks.simps)

lemma chunks_step: "xs \<noteq> [] \<Longrightarrow> 0 < n \<Longrightarrow> chunks n xs = take n xs # chunks n (drop n xs)"
  by (subst chunks.simps) simp

lemma chunks_small: "xs \<noteq> [] \<Longrightarrow> length xs \<le> n \<Longrightarrow> chunks n xs = [xs]"
  by (subst chunks.simps) (cases xs, auto)

lemma concat_chunks [simp]: "0 < n \<Longrightarrow> concat (chunks n xs) = xs"
proof (induction n xs rule: chunks.induct)
  case (1 n xs)
  then show ?case
    by (cases "xs = []") (simp_all add: chunks_step)
qed

lemma chunks_lengths: "c \<in> set (chunks n xs) \<Longrightarrow> 0 < length c \<and> length c \<le> n"
proof (induction n xs rule: chunks.induct)
  case (1 n xs)
  then show ?case
    by (cases "xs = [] \<or> n = 0") (auto simp: chunks.simps [of n xs])
qed

lemma chunks_full: "n dvd length xs \<Longrightarrow> c \<in> set (chunks n xs) \<Longrightarrow> length c = n"
proof (induction n xs rule: chunks.induct)
  case (1 n xs)
  show ?case
  proof (cases "xs = [] \<or> n = 0")
    case True
    with "1.prems" show ?thesis by (simp add: chunks.simps [of n xs])
  next
    case False
    with "1.prems"(1) have "n \<le> length xs" by (auto dest: dvd_imp_le)
    with False "1" show ?thesis
      by (auto simp: chunks_step dvd_diff_nat)
  qed
qed

lemma chunks_not_full:
  assumes "\<not> n dvd length xs" "0 < n"
  shows "\<exists>cs c. chunks n xs = cs @ [c] \<and> (\<forall>d \<in> set cs. length d = n) \<and> length c = length xs mod n"
  using assms
proof (induction n xs rule: chunks.induct)
  case (1 n xs)
  then have ne: "xs \<noteq> []" by auto
  show ?case
  proof (cases "length xs < n")
    case True
    with ne have "chunks n xs = [] @ [xs]" by (simp add: chunks_small)
    with True show ?thesis by fastforce
  next
    case False
    then have "\<not> n dvd length (drop n xs)" using "1.prems" by (simp add: dvd_minus_self)
    with "1.IH" ne "1.prems" obtain cs c where "chunks n (drop n xs) = cs @ [c]"
      "\<forall>d \<in> set cs. length d = n" "length c = length (drop n xs) mod n" by blast
    with False ne "1.prems" show ?thesis
      by (intro exI [of _ "take n xs # cs"] exI [of _ c]) (simp add: chunks_step le_mod_geq)
  qed
qed

lemma length_chunks: "0 < n \<Longrightarrow> length (chunks n xs) = (length xs + n - 1) div n"
proof (induction n xs rule: chunks.induct)
  case (1 n xs)
  show ?case
  proof (cases "xs = []")
    case True
    with "1.prems" show ?thesis by simp
  next
    case False
    with "1" have IH: "length (chunks n (drop n xs)) = (length xs - n + n - 1) div n"
      by simp
    show ?thesis
    proof (cases "length xs \<le> n")
      case True
      with False "1.prems" show ?thesis
        by (cases xs) (auto simp: chunks_small div_eq_dividend_iff intro!: Suc_lessD
            simp: Suc_le_eq le_div_geq div_if)
    next
      case F2: False
      then have "(length xs + n - 1) div n = Suc ((length xs - n + n - 1) div n)"
        using "1.prems" by (subst le_div_geq) auto
      with IH False "1.prems" show ?thesis by (simp add: chunks_step)
    qed
  qed
qed

section \<open>Transition systems\<close>

text \<open>
  The runs of a labelled step relation from an initial state, with the labels in order. An
  invariant may speak of the labels so far; one that does not is the special case below.
\<close>

inductive lrun :: "'s \<Rightarrow> ('l \<Rightarrow> 's \<Rightarrow> 's \<Rightarrow> bool) \<Rightarrow> 'l list \<Rightarrow> 's \<Rightarrow> bool"
  for s0 :: 's and step :: "'l \<Rightarrow> 's \<Rightarrow> 's \<Rightarrow> bool" where
  lrun_start: "lrun s0 step [] s0"
| lrun_step: "lrun s0 step ls s \<Longrightarrow> step l s s' \<Longrightarrow> lrun s0 step (ls @ [l]) s'"

locale history_invariant =
  fixes s0 :: 's and step :: "'l \<Rightarrow> 's \<Rightarrow> 's \<Rightarrow> bool" and hinv :: "'l list \<Rightarrow> 's \<Rightarrow> bool"
  assumes hinv_start: "hinv [] s0"
    and hinv_step: "hinv ls s \<Longrightarrow> step l s s' \<Longrightarrow> hinv (ls @ [l]) s'"
begin

lemma run_hinv: "lrun s0 step ls s \<Longrightarrow> hinv ls s"
  by (induction rule: lrun.induct) (auto intro: hinv_start hinv_step)

end

locale step_invariant =
  fixes s0 :: 's and step :: "'l \<Rightarrow> 's \<Rightarrow> 's \<Rightarrow> bool" and sinv :: "'s \<Rightarrow> bool"
  assumes sinv_start: "sinv s0"
    and sinv_step: "sinv s \<Longrightarrow> step l s s' \<Longrightarrow> sinv s'"

sublocale step_invariant \<subseteq> hist: history_invariant s0 step "\<lambda>_. sinv"
  by unfold_locales (auto intro: sinv_start sinv_step)

end
