(* ===== verification/Header.thy ===== *)
theory Header
  imports Complex_Main Prelude
begin

text \<open>
  The messages of the protocol (\<^verbatim>\<open>src/header.rs\<close>): one record per struct, the datatype
  \<open>Command\<close> with the source's constructors, \<^verbatim>\<open>serialize\<close>/\<^verbatim>\<open>deserialize\<close> of each of
  them and the two \<^verbatim>\<open>validate\<close> methods. The wire format belongs to the crate \<^verbatim>\<open>postcard\<close>, so
  a codec is a parameter; \<open>roundtrips\<close> names what the code relies on.
\<close>

section \<open>Structs\<close>

record ClientHello =
  ch_x22519_key :: bytes
  ch_nonce :: bytes

record ServerHello =
  sh_ed25519_key :: bytes
  sh_x22519_key :: bytes
  sh_signature :: bytes
  sh_nonce :: bytes

record UploadHeader =
  uh_file_id :: string
  uh_file_name :: string
  uh_file_size :: u64
  uh_file_hash :: string
  uh_file_key :: string

record DownloadHeader =
  dh_file_id :: string
  dh_file_key :: string

datatype Command =
    Echo
  | Auth u8
  | Upload UploadHeader
  | Download DownloadHeader
  | Status

record EchoDebugHeader =
  eh_payload_len :: u32
  eh_payload_hash :: bytes
  eh_process_ms :: u128

record UploadResponse =
  ur_file_id :: string
  ur_file_hash :: string
  ur_network_time :: f32_bits

record DownloadResponse =
  dr_file_name :: string
  dr_file_size :: u64
  dr_file_hash :: string
  dr_network_time :: f32_bits

record ErrorHeader =
  err_code :: u16
  err_message :: string

record WarnHeader =
  warn_code :: u16
  warn_message :: string

record StatusHeader =
  st_timestamp :: string
  st_uptime_hrs :: rat \<comment> \<open>the number the \<^verbatim>\<open>f64\<close> denotes\<close>
  st_auth_client :: u64
  st_total_uploaded :: u64
  st_total_downloaded :: u64
  st_total_bandwidth_used :: u64

text \<open>The stored metadata of a file (\<^verbatim>\<open>MetadataFile\<close> of \<^verbatim>\<open>src/lib.rs\<close>) goes through the same crate.\<close>

record MetadataFile =
  md_filename :: string
  md_file_size :: u64
  md_file_hash :: string
  md_file_key_hash :: string

section \<open>Serialisation\<close>

text \<open>\<^verbatim>\<open>postcard::to_allocvec\<close> and \<^verbatim>\<open>postcard::from_bytes\<close> at one type; \<open>Inl\<close> is their error.\<close>

record 'a codec =
  to_allocvec :: "'a \<Rightarrow> string + bytes"
  from_bytes :: "bytes \<Rightarrow> string + 'a"

text \<open>
  The documented round trip of postcard, at one value: it serialises, and what it serialises to
  reads back as that value.
\<close>

definition roundtrips :: "'a codec \<Rightarrow> 'a \<Rightarrow> bool" where
  "roundtrips c x = (case to_allocvec c x of Inl _ \<Rightarrow> False | Inr b \<Rightarrow> from_bytes c b = Inr x)"

text \<open>The bytes \<open>x\<close> serialises to, where it does.\<close>

definition encoding :: "'a codec \<Rightarrow> 'a \<Rightarrow> bytes" where
  "encoding c x = (case to_allocvec c x of Inl _ \<Rightarrow> [] | Inr b \<Rightarrow> b)"

definition serialize :: "'a codec \<Rightarrow> 'a \<Rightarrow> bytes res" where
  "serialize c x = (case to_allocvec c x of
     Inl e \<Rightarrow> Err (''Failed to serialize: '' @ e) | Inr b \<Rightarrow> Ok b)"

definition deserialize :: "'a codec \<Rightarrow> bytes \<Rightarrow> 'a res" where
  "deserialize c b = (case from_bytes c b of
     Inl e \<Rightarrow> Err (''Failed to deserialize: '' @ e) | Inr x \<Rightarrow> Ok x)"

lemma serialize_roundtrips [run_simps]: "roundtrips c x \<Longrightarrow> serialize c x = Ok (encoding c x)"
  by (auto simp: roundtrips_def serialize_def encoding_def split: sum.splits)

lemma deserialize_encoding [run_simps]: "roundtrips c x \<Longrightarrow> deserialize c (encoding c x) = Ok x"
  by (auto simp: roundtrips_def deserialize_def encoding_def split: sum.splits)

section \<open>Validation of requests\<close>

definition id_length_error :: string where
  "id_length_error = ''File ID must be a non-empty string between 32 and 256 characters''"

definition key_length_error :: string where
  "key_length_error = ''File key must be between 1 and 512 characters''"

definition UploadHeader_validate :: "u64 \<Rightarrow> UploadHeader \<Rightarrow> unit res" where
  "UploadHeader_validate max_file_size_gb h =
    (if uh_file_id h = [] \<or> \<not> (32 \<le> length (uh_file_id h) \<and> length (uh_file_id h) \<le> 256)
     then Err id_length_error
     else if uh_file_name h = [] then Err ''File name cannot be empty''
     else if uh_file_size h < 1024 * 1024 \<or> uh_file_size h > max_file_size_gb
     then Err (''File size must be between 1MB and ''
            @ show_nat (unat (max_file_size_gb div (1024 * 1024 * 1024))) @ '' GB'')
     else if uh_file_hash h = [] then Err ''File hash cannot be empty''
     else if uh_file_key h = [] \<or> length (uh_file_key h) > 512 then Err key_length_error
     else Ok ())"

definition DownloadHeader_validate :: "DownloadHeader \<Rightarrow> unit res" where
  "DownloadHeader_validate h =
    (if dh_file_id h = [] \<or> \<not> (32 \<le> length (dh_file_id h) \<and> length (dh_file_id h) \<le> 256)
     then Err id_length_error
     else if dh_file_key h = [] \<or> length (dh_file_key h) > 512 then Err key_length_error
     else Ok ())"

text \<open>What a request that passes validation is known to satisfy.\<close>

definition upload_valid :: "u64 \<Rightarrow> UploadHeader \<Rightarrow> bool" where
  "upload_valid max_file_size_gb h =
    (32 \<le> length (uh_file_id h) \<and> length (uh_file_id h) \<le> 256 \<and> uh_file_name h \<noteq> [] \<and>
     1048576 \<le> unat (uh_file_size h) \<and> unat (uh_file_size h) \<le> unat max_file_size_gb \<and>
     uh_file_hash h \<noteq> [] \<and> 1 \<le> length (uh_file_key h) \<and> length (uh_file_key h) \<le> 512)"

lemma validate_cases: "UploadHeader_validate mx h = Ok () \<or> (\<exists>e. UploadHeader_validate mx h = Err e)"
  by (auto simp: UploadHeader_validate_def)

lemma download_validate_cases: "DownloadHeader_validate h = Ok () \<or> (\<exists>e. DownloadHeader_validate h = Err e)"
  by (auto simp: DownloadHeader_validate_def)

end
