(* ===== verification/Prims.thy ===== *)
theory Prims
  imports Header
begin

text \<open>
  The third-party crates the program calls, as one record of functions that every definition
  using them takes as its argument \<open>P\<close>: \<^verbatim>\<open>aes-gcm\<close>, \<^verbatim>\<open>sha2\<close>, \<^verbatim>\<open>hex\<close>, \<^verbatim>\<open>ed25519-dalek\<close>,
  \<^verbatim>\<open>x25519-dalek\<close>, \<^verbatim>\<open>postcard\<close>. Nothing is assumed of them in the definitions; what a theorem
  relies on is one of the named laws below, each a documented behaviour of the crate. The record
  \<open>demo\<close> is a small concrete instance that satisfies every law, for the witnesses.
\<close>

section \<open>The crates\<close>

record prims =
  aead_seal :: "bytes \<Rightarrow> bytes \<Rightarrow> bytes \<Rightarrow> (bytes \<times> bytes) option" \<comment> \<open>key, nonce, plaintext\<close>
  aead_open :: "bytes \<Rightarrow> bytes \<Rightarrow> bytes \<Rightarrow> bytes \<Rightarrow> bytes option" \<comment> \<open>key, nonce, ciphertext, tag\<close>
  sha256 :: "bytes \<Rightarrow> bytes"
  sha512 :: "bytes \<Rightarrow> bytes"
  hasher_new :: bytes \<comment> \<open>incremental SHA-256, its state as bytes\<close>
  hasher_update :: "bytes \<Rightarrow> bytes \<Rightarrow> bytes"
  hasher_finalize :: "bytes \<Rightarrow> bytes"
  hex_encode :: "bytes \<Rightarrow> string"
  hex_decode :: "string \<Rightarrow> string + bytes"
  ed_verifying_key :: "bytes \<Rightarrow> string + bytes"
  ed_signature :: "bytes \<Rightarrow> string + bytes"
  ed_public :: "bytes \<Rightarrow> bytes"
  ed_sign :: "bytes \<Rightarrow> bytes \<Rightarrow> bytes" \<comment> \<open>signing key, message\<close>
  ed_verify :: "bytes \<Rightarrow> bytes \<Rightarrow> bytes \<Rightarrow> string + unit" \<comment> \<open>verifying key, message, signature\<close>
  ed_verify_strict :: "bytes \<Rightarrow> bytes \<Rightarrow> bytes \<Rightarrow> string + unit"
  x_public :: "bytes \<Rightarrow> bytes"
  x_dh :: "bytes \<Rightarrow> bytes \<Rightarrow> bytes" \<comment> \<open>own secret, peer's public key\<close>
  as_secs_f32 :: "nat \<Rightarrow> f32_bits" \<comment> \<open>nanoseconds to seconds\<close>
  pc_ClientHello :: "ClientHello codec"
  pc_ServerHello :: "ServerHello codec"
  pc_Command :: "Command codec"
  pc_EchoDebugHeader :: "EchoDebugHeader codec"
  pc_UploadResponse :: "UploadResponse codec"
  pc_DownloadResponse :: "DownloadResponse codec"
  pc_ErrorHeader :: "ErrorHeader codec"
  pc_WarnHeader :: "WarnHeader codec"
  pc_StatusHeader :: "StatusHeader codec"
  pc_MetadataFile :: "MetadataFile codec"

section \<open>Named laws\<close>

text \<open>AES-256-GCM: a plaintext within the size limit seals, and opens again under the same key and nonce.\<close>

definition aead_max :: nat where
  "aead_max = 2 ^ 36"

definition aead_ok :: "prims \<Rightarrow> bool" where
  "aead_ok P \<longleftrightarrow> (\<forall>k n m. length k = 32 \<longrightarrow> length n = 12 \<longrightarrow> length m \<le> aead_max \<longrightarrow>
     (\<exists>c t. aead_seal P k n m = Some (c, t) \<and> length c = length m \<and> length t = 16 \<and>
            aead_open P k n c t = Some m))"

text \<open>AES-256-GCM: opening recomputes the tag, so it only succeeds on what sealing produces.\<close>

definition aead_auth :: "prims \<Rightarrow> bool" where
  "aead_auth P \<longleftrightarrow> (\<forall>k n c t m. aead_open P k n c t = Some m \<longrightarrow> aead_seal P k n m = Some (c, t))"

text \<open>SHA-2 digests have fixed lengths, and the incremental hasher hashes the concatenation.\<close>

definition sha_ok :: "prims \<Rightarrow> bool" where
  "sha_ok P \<longleftrightarrow> (\<forall>x. length (sha256 P x) = 32 \<and> length (sha512 P x) = 64) \<and>
     (\<forall>cs. hasher_finalize P (foldl (hasher_update P) (hasher_new P) cs) = sha256 P (concat cs))"

text \<open>Hexadecimal: two lower-case digits per byte, and decoding inverts encoding.\<close>

definition hex_digits :: string where
  "hex_digits = ''0123456789abcdef''"

definition hex_ok :: "prims \<Rightarrow> bool" where
  "hex_ok P \<longleftrightarrow> (\<forall>b. hex_decode P (hex_encode P b) = Inr b \<and>
     length (hex_encode P b) = 2 * length b \<and> set (hex_encode P b) \<subseteq> set hex_digits)"

text \<open>Ed25519: keys and signatures have their lengths, parse as themselves, and verify.\<close>

definition ed_ok :: "prims \<Rightarrow> bool" where
  "ed_ok P \<longleftrightarrow> (\<forall>sk m. length (ed_public P sk) = 32 \<and> length (ed_sign P sk m) = 64 \<and>
     ed_verifying_key P (ed_public P sk) = Inr (ed_public P sk) \<and>
     ed_signature P (ed_sign P sk m) = Inr (ed_sign P sk m) \<and>
     ed_verify P (ed_public P sk) m (ed_sign P sk m) = Inr () \<and>
     ed_verify_strict P (ed_public P sk) m (ed_sign P sk m) = Inr ())"

text \<open>Parsing a verifying key checks that it is 32 bytes and keeps them; a signature likewise 64.\<close>

definition ed_parse_ok :: "prims \<Rightarrow> bool" where
  "ed_parse_ok P \<longleftrightarrow> (\<forall>b k. ed_verifying_key P b = Inr k \<longrightarrow> k = b \<and> length b = 32) \<and>
     (\<forall>b s. ed_signature P b = Inr s \<longrightarrow> s = b \<and> length b = 64)"

text \<open>X25519: both sides compute the same shared secret.\<close>

definition dh_ok :: "prims \<Rightarrow> bool" where
  "dh_ok P \<longleftrightarrow> (\<forall>a b. x_dh P a (x_public P b) = x_dh P b (x_public P a)) \<and>
     (\<forall>a. length (x_public P a) = 32) \<and> (\<forall>a p. length (x_dh P a p) = 32)"

lemma aead_okE:
  assumes "aead_ok P" "length k = 32" "length n = 12" "length m \<le> aead_max"
  obtains c t where "aead_seal P k n m = Some (c, t)" "length c = length m" "length t = 16"
    "aead_open P k n c t = Some m"
  using assms unfolding aead_ok_def by blast

lemma sha_lengths: "sha_ok P \<Longrightarrow> length (sha256 P x) = 32" "sha_ok P \<Longrightarrow> length (sha512 P x) = 64"
  by (simp_all add: sha_ok_def)

lemma sha_stream:
  "sha_ok P \<Longrightarrow> hasher_finalize P (foldl (hasher_update P) (hasher_new P) cs) = sha256 P (concat cs)"
  by (simp add: sha_ok_def)

lemma hex_inj: "hex_ok P \<Longrightarrow> hex_encode P a = hex_encode P b \<Longrightarrow> a = b"
  by (metis hex_ok_def sum.inject(2))

lemma hex_roundtrip: "hex_ok P \<Longrightarrow> hex_decode P (hex_encode P a) = Inr a"
  by (simp add: hex_ok_def)

lemma dh_agree: "dh_ok P \<Longrightarrow> x_dh P a (x_public P b) = x_dh P b (x_public P a)"
  by (simp add: dh_ok_def)

section \<open>A concrete instance\<close>

definition pad :: "nat \<Rightarrow> bytes \<Rightarrow> bytes" where
  "pad n b = take n (b @ replicate n 0)"

lemma length_pad [simp]: "length (pad n b) = n"
  by (simp add: pad_def)

lemma pad_pad [simp]: "pad n (pad n b) = pad n b"
  by (simp add: pad_def)

definition demo_seal :: "bytes \<Rightarrow> bytes \<Rightarrow> bytes \<Rightarrow> (bytes \<times> bytes) option" where
  "demo_seal k n m = Some (m, pad 16 k)"

definition demo_open :: "bytes \<Rightarrow> bytes \<Rightarrow> bytes \<Rightarrow> bytes \<Rightarrow> bytes option" where
  "demo_open k n c t = (if t = pad 16 k then Some c else None)"

definition hex_byte :: "byte \<Rightarrow> string" where
  "hex_byte b = [hex_digits ! (unat b div 16), hex_digits ! (unat b mod 16)]"

definition hex_val :: "char \<Rightarrow> nat" where
  "hex_val c = length (takeWhile (\<lambda>d. d \<noteq> c) hex_digits)"

fun demo_unhex :: "string \<Rightarrow> string + bytes" where
  "demo_unhex [] = Inr []"
| "demo_unhex [c] = Inl ''Odd number of digits''"
| "demo_unhex (c # d # cs) =
     (if hex_val c < 16 \<and> hex_val d < 16
      then (case demo_unhex cs of Inl e \<Rightarrow> Inl e | Inr b \<Rightarrow> Inr (of_nat (16 * hex_val c + hex_val d) # b))
      else Inl ''Invalid character'')"

definition demo_sign :: "bytes \<Rightarrow> bytes \<Rightarrow> bytes" where
  "demo_sign sk m = pad 32 sk @ pad 32 m"

definition demo_verify :: "bytes \<Rightarrow> bytes \<Rightarrow> bytes \<Rightarrow> string + unit" where
  "demo_verify pk m s = (if s = demo_sign pk m then Inr () else Inl ''signature error'')"

text \<open>A codec that writes a value as its position in a table.\<close>

definition table_codec :: "'a list \<Rightarrow> 'a codec" where
  "table_codec vs = \<lparr>to_allocvec = (\<lambda>x. if x \<in> set vs
       then Inr [of_nat (length (takeWhile (\<lambda>y. y \<noteq> x) vs))] else Inl ''not in table''),
     from_bytes = (\<lambda>b. case b of [i] \<Rightarrow> if unat i < length vs then Inr (vs ! unat i) else Inl ''bad index''
       | _ \<Rightarrow> Inl ''bad length'')\<rparr>"

definition demo :: prims where
  "demo = \<lparr>aead_seal = demo_seal, aead_open = demo_open,
     sha256 = pad 32, sha512 = pad 64,
     hasher_new = [], hasher_update = (@), hasher_finalize = pad 32,
     hex_encode = (\<lambda>b. concat (map hex_byte b)), hex_decode = demo_unhex,
     ed_verifying_key = (\<lambda>b. if length b = 32 then Inr b else Inl ''bad key length''),
     ed_signature = (\<lambda>b. if length b = 64 then Inr b else Inl ''bad signature length''),
     ed_public = pad 32, ed_sign = demo_sign, ed_verify = demo_verify,
     ed_verify_strict = demo_verify,
     x_public = pad 32, x_dh = (\<lambda>a p. pad 32 (map2 (XOR) (pad 32 a) (pad 32 p))),
     as_secs_f32 = of_nat,
     pc_ClientHello = table_codec [], pc_ServerHello = table_codec [], pc_Command = table_codec [],
     pc_EchoDebugHeader = table_codec [], pc_UploadResponse = table_codec [],
     pc_DownloadResponse = table_codec [], pc_ErrorHeader = table_codec [],
     pc_WarnHeader = table_codec [], pc_StatusHeader = table_codec [],
     pc_MetadataFile = table_codec []\<rparr>"

lemma hex_val_digit: "i < 16 \<Longrightarrow> hex_val (hex_digits ! i) = i"
proof -
  assume "i < 16"
  then have "i \<in> set [0..<16]" by simp
  moreover have "\<forall>j \<in> set [0..<16]. hex_val (hex_digits ! j) = j"
    by (simp add: hex_val_def hex_digits_def upt_rec numeral_nat)
  ultimately show ?thesis by blast
qed

lemma hex_byte_props: "length (hex_byte b) = 2" "set (hex_byte b) \<subseteq> set hex_digits"
proof -
  have b: "unat b < 256" using unsigned_less [of b, where ?'a = nat] by simp
  then have "unat b div 16 < length hex_digits" "unat b mod 16 < length hex_digits"
    by (auto simp: hex_digits_def)
  then show "set (hex_byte b) \<subseteq> set hex_digits"
    by (simp add: hex_byte_def)
qed (simp add: hex_byte_def)

lemma demo_unhex_encode: "demo_unhex (concat (map hex_byte b)) = Inr b"
proof (induction b)
  case (Cons x b)
  have "unat x < 256" using unsigned_less [of x, where ?'a = nat] by simp
  then have "unat x div 16 < 16" "unat x mod 16 < 16" by auto
  moreover have "(of_nat (16 * (unat x div 16) + unat x mod 16) :: byte) = x"
    by (simp only: mult_div_mod_eq) simp
  ultimately show ?case
    using Cons by (simp add: hex_byte_def hex_val_digit)
qed simp

text \<open>
  The laws hold of every instance that shares the relevant fields with \<open>demo\<close>, so a witness may
  change the codecs.
\<close>

lemma demo_aead:
  "aead_seal P = demo_seal \<Longrightarrow> aead_open P = demo_open \<Longrightarrow> aead_ok P"
  "aead_seal P = demo_seal \<Longrightarrow> aead_open P = demo_open \<Longrightarrow> aead_auth P"
  by (auto simp: aead_ok_def aead_auth_def demo_seal_def demo_open_def)

lemma foldl_append: "foldl (@) a cs = a @ concat cs"
  by (induction cs arbitrary: a) auto

lemma demo_sha:
  assumes "sha256 P = pad 32" "sha512 P = pad 64" "hasher_new P = []" "hasher_update P = (@)"
    "hasher_finalize P = pad 32"
  shows "sha_ok P"
  using assms by (simp add: sha_ok_def foldl_append)

lemma demo_hex:
  assumes "hex_encode P = (\<lambda>b. concat (map hex_byte b))" "hex_decode P = demo_unhex"
  shows "hex_ok P"
proof -
  have "length (concat (map hex_byte b)) = 2 * length b" for b
    by (induction b) (auto simp: hex_byte_props)
  moreover have "set (concat (map hex_byte b)) \<subseteq> set hex_digits" for b
    using hex_byte_props(2) by fastforce
  ultimately show ?thesis
    using assms by (simp add: hex_ok_def demo_unhex_encode)
qed

lemma demo_ed:
  assumes "ed_verifying_key P = (\<lambda>b. if length b = 32 then Inr b else Inl ''bad key length'')"
    "ed_signature P = (\<lambda>b. if length b = 64 then Inr b else Inl ''bad signature length'')"
    "ed_public P = pad 32" "ed_sign P = demo_sign" "ed_verify P = demo_verify"
    "ed_verify_strict P = demo_verify"
  shows "ed_ok P" "ed_parse_ok P"
  using assms by (simp_all add: ed_ok_def ed_parse_ok_def demo_verify_def demo_sign_def)

lemma xor_map2_commute: "map2 (XOR) (a :: bytes) b = map2 (XOR) b a"
  by (subst zip_commute) (simp add: case_prod_unfold xor.commute)

lemma demo_dh:
  assumes "x_public P = pad 32" "x_dh P = (\<lambda>a p. pad 32 (map2 (XOR) (pad 32 a) (pad 32 p)))"
  shows "dh_ok P"
  using assms by (auto simp: dh_ok_def intro: arg_cong [OF xor_map2_commute])

lemmas demo_laws = demo_aead demo_sha demo_hex demo_ed demo_dh

lemma demo_fields [simp]:
  "aead_seal demo = demo_seal" "aead_open demo = demo_open"
  "sha256 demo = pad 32" "sha512 demo = pad 64"
  "hasher_new demo = []" "hasher_update demo = (@)" "hasher_finalize demo = pad 32"
  "hex_encode demo = (\<lambda>b. concat (map hex_byte b))" "hex_decode demo = demo_unhex"
  "ed_verifying_key demo = (\<lambda>b. if length b = 32 then Inr b else Inl ''bad key length'')"
  "ed_signature demo = (\<lambda>b. if length b = 64 then Inr b else Inl ''bad signature length'')"
  "ed_public demo = pad 32" "ed_sign demo = demo_sign" "ed_verify demo = demo_verify"
  "ed_verify_strict demo = demo_verify" "x_public demo = pad 32"
  "x_dh demo = (\<lambda>a p. pad 32 (map2 (XOR) (pad 32 a) (pad 32 p)))"
  "as_secs_f32 demo = of_nat"
  by (simp_all add: demo_def)

end
