(* ===== verification/Crypto.thy ===== *)
theory Crypto
  imports Prims
begin

text \<open>
  \<^verbatim>\<open>src/crypto.rs\<close>: AES-256-GCM over owned vectors and over caller-supplied buffers, key
  generation and signature validation. The bytes that \<^verbatim>\<open>rand::rng().fill_bytes\<close> produces are an
  argument of each definition (\<open>nonce\<close>, \<open>seed\<close>). \<^verbatim>\<open>copy_from_slice\<close> panics when the two
  lengths differ, and \<open>encrypt_into\<close> keeps that branch.
\<close>

definition NONCE_LEN :: nat where "NONCE_LEN = 12"
definition TAG_LEN :: nat where "TAG_LEN = 16"

definition slice_len_panic :: string where
  "slice_len_panic = ''copy_from_slice: source and destination slices have different lengths''"

definition encrypt_data :: "prims \<Rightarrow> bytes \<Rightarrow> bytes \<Rightarrow> bytes \<Rightarrow> bytes res" where
  "encrypt_data P nonce data key =
    (case aead_seal P key nonce data of
       None \<Rightarrow> Err ''Encryption failed: aead::Error''
     | Some (c, t) \<Rightarrow> Ok (nonce @ c @ t))"

definition decrypt_data :: "prims \<Rightarrow> bytes \<Rightarrow> bytes \<Rightarrow> bytes res" where
  "decrypt_data P data key =
    (if length data < NONCE_LEN + TAG_LEN then Err ''Ciphertext too short''
     else let nonce = take NONCE_LEN data;
              ciphertext = drop NONCE_LEN data;
              n = length ciphertext - TAG_LEN
          in case aead_open P key nonce (take n ciphertext) (drop n ciphertext) of
               None \<Rightarrow> Err ''Decryption failed: aead::Error''
             | Some m \<Rightarrow> Ok m)"

text \<open>\<open>encrypt_into\<close> returns the count and the new contents of \<open>output\<close>.\<close>

definition encrypt_into :: "prims \<Rightarrow> bytes \<Rightarrow> bytes \<Rightarrow> bytes \<Rightarrow> bytes \<Rightarrow> (nat \<times> bytes) res" where
  "encrypt_into P nonce input output key =
    (let plaintext_len = length input in
     if length output < NONCE_LEN + plaintext_len + TAG_LEN
     then Err (''Output buffer too small, need at least ''
            @ show_nat (NONCE_LEN + plaintext_len + TAG_LEN) @ '' bytes'')
     else let tag_buf = drop (NONCE_LEN + plaintext_len) output in
       case aead_seal P key nonce input of
         None \<Rightarrow> Err ''aead::Error''
       | Some (data, auth_tag) \<Rightarrow>
           if length tag_buf \<noteq> length auth_tag then Panic slice_len_panic
           else Ok (NONCE_LEN + plaintext_len + TAG_LEN, nonce @ data @ auth_tag))"

definition decrypt_into :: "prims \<Rightarrow> bytes \<Rightarrow> bytes \<Rightarrow> bytes \<Rightarrow> (nat \<times> bytes) res" where
  "decrypt_into P input output key =
    (if length input < NONCE_LEN + TAG_LEN then Err ''Ciphertext too short''
     else let ciphertext_len = length input - NONCE_LEN - TAG_LEN in
       if length output < ciphertext_len
       then Err (''Output buffer too small, need at least '' @ show_nat ciphertext_len @ '' bytes'')
       else let nonce = take NONCE_LEN input;
                tag = drop (NONCE_LEN + ciphertext_len) input;
                data = buf_get NONCE_LEN (NONCE_LEN + ciphertext_len) input
            in case aead_open P key nonce data tag of
                 None \<Rightarrow> Err ''aead::Error''
               | Some m \<Rightarrow> Ok (ciphertext_len, m @ drop ciphertext_len output))"

definition generate_b32key :: "prims \<Rightarrow> bytes \<Rightarrow> string" where
  "generate_b32key P seed = hex_encode P seed"

definition generate_ed25519_keypair :: "prims \<Rightarrow> bytes \<Rightarrow> (bytes \<times> bytes) res" where
  "generate_ed25519_keypair P seed =
    (let public_key = ed_public P seed;
         message = as_bytes ''ed25519 key gen-test'';
         signature = ed_sign P seed message
     in case ed_verify P public_key message signature of
          Inl e \<Rightarrow> Err (''Failed to verify signature: '' @ e)
        | Inr _ \<Rightarrow> Ok (seed, public_key))"

definition validate_signature :: "prims \<Rightarrow> bytes \<Rightarrow> bytes \<Rightarrow> bytes \<Rightarrow> bytes res" where
  "validate_signature P public_bytes signature_bytes nonce =
    (case ed_signature P signature_bytes of
       Inl e \<Rightarrow> Err (''Failed to construct signature from bytes: '' @ e)
     | Inr signature \<Rightarrow>
        (case ed_verifying_key P public_bytes of
           Inl e \<Rightarrow> Err (''Failed to construct public key from bytes: '' @ e)
         | Inr public_key \<Rightarrow>
            (case ed_verify_strict P public_key nonce signature of
               Inl e \<Rightarrow> Err (''Signature verification failed: '' @ e)
             | Inr _ \<Rightarrow> Ok public_key)))"

definition generate_x25519_keypair :: "prims \<Rightarrow> bytes \<Rightarrow> (bytes \<times> bytes) res" where
  "generate_x25519_keypair P seed = Ok (seed, x_public P seed)"

section \<open>Facts the other components use\<close>

text \<open>The sealed form of a plaintext, where sealing succeeds.\<close>

definition sealed :: "prims \<Rightarrow> bytes \<Rightarrow> bytes \<Rightarrow> bytes \<Rightarrow> bytes" where
  "sealed P key nonce m = (case aead_seal P key nonce m of None \<Rightarrow> [] | Some (c, t) \<Rightarrow> nonce @ c @ t)"

lemma length_sealed [buf_simps]:
  assumes "aead_ok P" "length key = 32" "length nonce = 12" "length m \<le> aead_max"
  shows "length (sealed P key nonce m) = 28 + length m"
  by (rule aead_okE [OF assms]) (simp add: sealed_def assms)

lemma encrypt_into_exact [run_simps]:
  assumes "aead_ok P" "length key = 32" "length nonce = 12" "length m \<le> aead_max"
    "length output = 28 + length m"
  shows "encrypt_into P nonce m output key = Ok (28 + length m, sealed P key nonce m)"
proof -
  obtain c t where "aead_seal P key nonce m = Some (c, t)" "length c = length m" "length t = 16"
    using assms by (blast elim: aead_okE)
  with assms show ?thesis
    by (simp add: encrypt_into_def sealed_def NONCE_LEN_def TAG_LEN_def Let_def)
qed

lemma decrypt_into_sealed [run_simps]:
  assumes "aead_ok P" "length key = 32" "length nonce = 12" "length m \<le> aead_max"
    "length m \<le> length output"
  shows "decrypt_into P (sealed P key nonce m) output key = Ok (length m, m @ drop (length m) output)"
proof -
  obtain c t where "aead_seal P key nonce m = Some (c, t)" "length c = length m" "length t = 16"
    "aead_open P key nonce c t = Some m"
    using assms by (blast elim: aead_okE)
  with assms show ?thesis
    by (simp add: decrypt_into_def sealed_def NONCE_LEN_def TAG_LEN_def Let_def buf_get_def)
qed

lemma decrypt_into_Ok:
  assumes "decrypt_into P input output key = Ok (n, out')"
  shows "28 \<le> length input" "n = length input - 28" "n \<le> length output"
    "\<exists>m. aead_open P key (take 12 input) (take n (drop 12 input)) (drop (12 + n) input) = Some m
       \<and> out' = m @ drop n output"
  using assms
  by (auto simp: decrypt_into_def NONCE_LEN_def TAG_LEN_def Let_def buf_get_def
      split: if_splits option.splits)

end
