(* ===== verification/Fs.thy ===== *)
theory Fs
  imports Prims "HOL-Library.AList" "HOL-Library.Sublist"
begin

text \<open>
  The part of the operating system the program stores its data in: paths as lists of components,
  \<^verbatim>\<open>Path::join\<close> as the standard library defines it, and a tree of files and directories as an
  association list, with the operations of \<^verbatim>\<open>std::fs\<close> the handlers call and their failures. A full
  disk and missing permissions are not modelled.
\<close>

type_synonym path = "string list"

datatype node = FileNode bytes | DirNode

type_synonym fs = "(path \<times> node) list"

section \<open>Paths\<close>

fun split_slash :: "string \<Rightarrow> string list" where
  "split_slash [] = [[]]"
| "split_slash (c # cs) = (if c = CHR ''/'' then [] # split_slash cs
     else (case split_slash cs of [] \<Rightarrow> [[c]] | d # ds \<Rightarrow> (c # d) # ds))"

definition components :: "string \<Rightarrow> path" where
  "components s = filter (\<lambda>c. c \<noteq> [] \<and> c \<noteq> ''.'') (split_slash s)"

text \<open>\<^verbatim>\<open>Path::join\<close>: an absolute argument replaces the path.\<close>

definition path_join :: "path \<Rightarrow> string \<Rightarrow> path" where
  "path_join p s = (if take 1 s = ''/'' then components s else p @ components s)"

text \<open>Where the operating system ends up: \<^verbatim>\<open>..\<close> steps back.\<close>

fun resolve_onto :: "path \<Rightarrow> path \<Rightarrow> path" where
  "resolve_onto acc [] = acc"
| "resolve_onto acc (c # cs) = resolve_onto (if c = ''..'' then butlast acc else acc @ [c]) cs"

definition resolve :: "path \<Rightarrow> path" where
  "resolve p = resolve_onto [] p"

text \<open>A name that is one ordinary component.\<close>

definition plain_name :: "string \<Rightarrow> bool" where
  "plain_name s \<longleftrightarrow> s \<noteq> [] \<and> s \<noteq> ''.'' \<and> s \<noteq> ''..'' \<and> CHR ''/'' \<notin> set s"

lemma split_slash_plain: "CHR ''/'' \<notin> set s \<Longrightarrow> split_slash s = [s]"
  by (induction s) auto

lemma path_join_plain [simp]: "plain_name s \<Longrightarrow> path_join p s = p @ [s]"
  by (cases s) (auto simp: plain_name_def path_join_def components_def split_slash_plain)

lemma resolve_onto_plain: "\<forall>c \<in> set cs. c \<noteq> ''..'' \<Longrightarrow> resolve_onto acc cs = acc @ cs"
  by (induction cs arbitrary: acc) auto

lemma resolve_plain: "\<forall>c \<in> set p. c \<noteq> ''..'' \<Longrightarrow> resolve p = p"
  by (simp add: resolve_def resolve_onto_plain)

section \<open>Files and directories\<close>

definition fs_get :: "fs \<Rightarrow> path \<Rightarrow> node option" where
  "fs_get f p = map_of f p"

definition fs_set :: "path \<Rightarrow> node \<Rightarrow> fs \<Rightarrow> fs" where
  "fs_set p n f = AList.update p n f"

definition path_exists :: "fs \<Rightarrow> path \<Rightarrow> bool" where
  "path_exists f p = (fs_get f p \<noteq> None)"

definition path_is_dir :: "fs \<Rightarrow> path \<Rightarrow> bool" where
  "path_is_dir f p = (fs_get f p = Some DirNode)"

definition is_file :: "fs \<Rightarrow> path \<Rightarrow> bool" where
  "is_file f p = (case fs_get f p of Some (FileNode _) \<Rightarrow> True | _ \<Rightarrow> False)"

text \<open>\<^verbatim>\<open>create_dir_all\<close>: every missing directory down to \<open>p\<close>, unless a file is in the way.\<close>

definition mkdir_missing :: "path \<Rightarrow> fs \<Rightarrow> fs" where
  "mkdir_missing p f = (if path_exists f p then f else fs_set p DirNode f)"

definition create_dir_all :: "path \<Rightarrow> fs \<Rightarrow> fs res" where
  "create_dir_all p f =
    (if list_ex (is_file f) (prefixes p) then Err ''Not a directory (os error 20)''
     else Ok (fold mkdir_missing (filter (\<lambda>q. q \<noteq> []) (prefixes p)) f))"

text \<open>Creating or truncating a file, and writing a whole file.\<close>

definition file_write :: "path \<Rightarrow> bytes \<Rightarrow> fs \<Rightarrow> fs res" where
  "file_write p d f =
    (if p = [] \<or> path_is_dir f p then Err ''Is a directory (os error 21)''
     else if butlast p \<noteq> [] \<and> \<not> path_is_dir f (butlast p) then Err ''No such file or directory (os error 2)''
     else Ok (fs_set p (FileNode d) f))"

definition file_read :: "path \<Rightarrow> fs \<Rightarrow> bytes res" where
  "file_read p f = (case fs_get f p of
     Some (FileNode d) \<Rightarrow> Ok d
   | Some DirNode \<Rightarrow> Err ''Is a directory (os error 21)''
   | None \<Rightarrow> Err ''No such file or directory (os error 2)'')"

definition remove_file :: "path \<Rightarrow> fs \<Rightarrow> fs res" where
  "remove_file p f = (case fs_get f p of
     Some (FileNode d) \<Rightarrow> Ok (AList.delete p f)
   | Some DirNode \<Rightarrow> Err ''Is a directory (os error 21)''
   | None \<Rightarrow> Err ''No such file or directory (os error 2)'')"

definition has_children :: "fs \<Rightarrow> path \<Rightarrow> bool" where
  "has_children f p = list_ex (\<lambda>(q, _). strict_prefix p q) f"

text \<open>Moving everything at or below \<open>a\<close> to \<open>b\<close>.\<close>

definition move_tree :: "path \<Rightarrow> path \<Rightarrow> fs \<Rightarrow> fs" where
  "move_tree a b f = map (\<lambda>(q, n). if prefix a q then (b @ drop (length a) q, n) else (q, n)) (AList.delete b f)"

definition fs_rename :: "path \<Rightarrow> path \<Rightarrow> fs \<Rightarrow> fs res" where
  "fs_rename a b f = (case fs_get f a of
     None \<Rightarrow> Err ''No such file or directory (os error 2)''
   | Some n \<Rightarrow>
       if a = b then Ok f
       else if strict_prefix a b then Err ''Invalid argument (os error 22)''
       else if butlast b \<noteq> [] \<and> \<not> path_is_dir f (butlast b) then Err ''No such file or directory (os error 2)''
       else (case (n, fs_get f b) of
          (DirNode, Some (FileNode _)) \<Rightarrow> Err ''Not a directory (os error 20)''
        | (FileNode _, Some DirNode) \<Rightarrow> Err ''Is a directory (os error 21)''
        | (DirNode, Some DirNode) \<Rightarrow>
            if has_children f b then Err ''Directory not empty (os error 39)'' else Ok (move_tree a b f)
        | _ \<Rightarrow> Ok (move_tree a b f)))"

text \<open>
  The directories \<^verbatim>\<open>read_dir\<close> and \<^verbatim>\<open>file_type().is_dir()\<close> find in \<open>p\<close>.
\<close>

definition subdirs :: "fs \<Rightarrow> path \<Rightarrow> path list" where
  "subdirs f p = filter (\<lambda>q. q \<noteq> [] \<and> butlast q = p \<and> path_is_dir f q) (remdups (map fst f))"

definition read_subdirs :: "path \<Rightarrow> fs \<Rightarrow> path list res" where
  "read_subdirs p f = (case fs_get f p of
     Some DirNode \<Rightarrow> Ok (subdirs f p)
   | Some (FileNode _) \<Rightarrow> Err ''Not a directory (os error 20)''
   | None \<Rightarrow> Err ''No such file or directory (os error 2)'')"

section \<open>Lookups after updates\<close>

lemma fs_get_set [simp]: "fs_get (fs_set p n f) q = (if q = p then Some n else fs_get f q)"
  by (simp add: fs_get_def fs_set_def update_conv')

lemma fs_get_mkdir: "fs_get (mkdir_missing p f) q =
    (if q = p \<and> fs_get f p = None then Some DirNode else fs_get f q)"
  by (auto simp: mkdir_missing_def path_exists_def)

lemma fs_get_fold_mkdir:
  "fs_get (fold mkdir_missing ps f) q = (if q \<in> set ps \<and> fs_get f q = None then Some DirNode else fs_get f q)"
  by (induction ps arbitrary: f) (auto simp: fs_get_mkdir)

lemma subdirs_card: "length (subdirs f p) = card {q. q \<noteq> [] \<and> butlast q = p \<and> fs_get f q = Some DirNode}"
proof -
  have "distinct (subdirs f p)" by (simp add: subdirs_def)
  moreover have "set (subdirs f p) = {q. q \<noteq> [] \<and> butlast q = p \<and> fs_get f q = Some DirNode}"
    by (auto simp: subdirs_def path_is_dir_def fs_get_def) (metis map_of_SomeD fst_conv image_eqI)
  ultimately show ?thesis by (metis distinct_card)
qed

lemma create_dir_all_get:
  assumes "create_dir_all p f = Ok f'"
  shows "fs_get f' q = (if prefix q p \<and> q \<noteq> [] \<and> fs_get f q = None then Some DirNode else fs_get f q)"
  using assms by (auto simp: create_dir_all_def fs_get_fold_mkdir split: if_splits)

lemma create_dir_all_is_dir:
  assumes "create_dir_all p f = Ok f'" "prefix q p" "q \<noteq> []"
  shows "fs_get f' q = Some DirNode"
proof (cases "fs_get f q")
  case None
  then show ?thesis using assms by (simp add: create_dir_all_get)
next
  case (Some n)
  have "\<not> is_file f q" using assms by (auto simp: create_dir_all_def list_ex_iff split: if_splits)
  with Some have "n = DirNode" by (cases n) (auto simp: is_file_def)
  with Some assms show ?thesis by (simp add: create_dir_all_get)
qed

lemma file_write_get: "file_write p d f = Ok f' \<Longrightarrow> fs_get f' q = (if q = p then Some (FileNode d) else fs_get f q)"
  by (auto simp: file_write_def split: if_splits)

lemma remove_file_get: "remove_file p f = Ok f' \<Longrightarrow> fs_get f' q = (if q = p then None else fs_get f q)"
  by (auto simp: remove_file_def fs_get_def delete_conv' split: option.splits node.splits)

text \<open>
  A move: what was at or below the source is found at or below the target, nothing is left at the
  source, and every other path is as before.
\<close>

lemma map_of_moved:
  assumes "\<forall>(q, n) \<in> set f. \<not> prefix b q"
  shows "map_of (map (\<lambda>(q, n). if prefix a q then (b @ drop (length a) q, n) else (q, n)) f) (b @ r) = map_of f (a @ r)"
  using assms
proof (induction f)
  case (Cons x f)
  obtain q n where x: "x = (q, n)" by force
  show ?case
  proof (cases "prefix a q")
    case True
    then obtain t where "q = a @ t" by (auto simp: prefix_def)
    with Cons x show ?thesis by auto
  next
    case False
    with Cons.prems x have "q \<noteq> b @ r" "q \<noteq> a @ r" by auto
    with Cons x False show ?thesis by simp
  qed
qed simp

lemma map_of_not_moved:
  assumes "\<not> prefix b k"
  shows "map_of (map (\<lambda>(q, n). if prefix a q then (b @ drop (length a) q, n) else (q, n)) f) k =
    (if prefix a k then None else map_of f k)"
  using assms
proof (induction f)
  case (Cons x f)
  obtain q n where x: "x = (q, n)" by force
  show ?case
  proof (cases "prefix a q")
    case True
    with Cons.prems have "b @ drop (length a) q \<noteq> k" by auto
    with Cons True x show ?thesis by auto
  next
    case False
    with Cons x show ?thesis by auto
  qed
qed simp

lemma move_tree_get:
  assumes "\<not> has_children f b" "\<not> prefix b a" "\<not> prefix a b"
  shows "fs_get (move_tree a b f) (b @ r) = fs_get f (a @ r)"
    "\<not> prefix b q \<Longrightarrow> fs_get (move_tree a b f) q = (if prefix a q then None else fs_get f q)"
proof -
  have "\<forall>(q, n) \<in> set (AList.delete b f). \<not> prefix b q"
    using assms(1) by (fastforce simp: has_children_def list_ex_iff strict_prefix_def AList.delete_eq)
  from map_of_moved [OF this, of a r] have "fs_get (move_tree a b f) (b @ r) = map_of (AList.delete b f) (a @ r)"
    by (simp add: move_tree_def fs_get_def)
  moreover have "a @ r \<noteq> b" using assms(3) by auto
  ultimately show "fs_get (move_tree a b f) (b @ r) = fs_get f (a @ r)"
    by (simp add: delete_conv' fs_get_def)
  show "fs_get (move_tree a b f) q = (if prefix a q then None else fs_get f q)" if "\<not> prefix b q"
    using that map_of_not_moved [OF that, of a "AList.delete b f"]
    by (auto simp: move_tree_def fs_get_def delete_conv')
qed

text \<open>A rename leaves every path outside its source and its target alone.\<close>

lemma fs_rename_outside:
  assumes "fs_rename a b f = Ok f'" "\<not> prefix a q" "\<not> prefix b q"
  shows "fs_get f' q = fs_get f q"
proof -
  have "f' = f \<or> f' = move_tree a b f"
    using assms(1) by (auto simp: fs_rename_def split: option.splits node.splits if_splits)
  moreover have "fs_get (move_tree a b f) q = fs_get f q"
    using assms(2,3) map_of_not_moved [OF assms(3), of a "AList.delete b f"]
    by (auto simp: move_tree_def fs_get_def delete_conv')
  ultimately show ?thesis by auto
qed

lemma has_children_move:
  assumes "has_children (move_tree a b f) p" "\<And>x. \<not> strict_prefix p (b @ x)"
  shows "has_children f p"
  using assms by (auto simp: has_children_def move_tree_def list_ex_iff AList.delete_eq split: if_splits)

lemma fs_rename_fresh:
  assumes "fs_get f a = Some DirNode" "fs_get f b = None" "\<not> prefix a b" "butlast b = [] \<or> path_is_dir f (butlast b)"
  shows "fs_rename a b f = Ok (move_tree a b f)"
  using assms by (auto simp: fs_rename_def strict_prefix_def)

end
