(* ===== verification/Conn.thy ===== *)
theory Conn
  imports Crypto Fs
begin

text \<open>
  One end of a TCP connection as the handlers see it: what the peer will still deliver
  (\<open>inp\<close>, then \<open>inp_end\<close>), the \<^verbatim>\<open>BufWriter\<close> in front of the socket (\<open>out_buf\<close>) and what went
  out (\<open>out_sent\<close>), how much the peer will still take (\<open>out_room\<close>, then \<open>out_end\<close>), the
  connection's memory pool, the two sources the code samples (random bytes and the clock), the
  seconds spent waiting for a peer that has stalled, and the file system of this end.
  The server's and the client's states extend this record.
\<close>

datatype stream_end = Closed | Stalled | Reset string

record conn =
  inp :: bytes
  inp_end :: stream_end
  out_buf :: bytes
  out_sent :: bytes
  out_room :: nat
  out_end :: stream_end
  out_shut :: bool
  pool :: bytes
  rng :: "nat \<Rightarrow> byte"
  clock :: "nat \<Rightarrow> nat"
  waited :: nat
  disk :: fs

definition NETWORK_READ_BUFFER :: nat where "NETWORK_READ_BUFFER = 4 * 1024 * 1024"
definition NETWORK_WRITE_BUFFER :: nat where "NETWORK_WRITE_BUFFER = 8 * 1024 * 1024"
definition READ_CHUNK_SIZE :: nat where "READ_CHUNK_SIZE = 64 * 1024"

text \<open>Timeouts, in seconds.\<close>

definition READ_TIMEOUT :: nat where "READ_TIMEOUT = 30"
definition WRITE_TIMEOUT :: nat where "WRITE_TIMEOUT = 60"
definition CHUNK_TIMEOUT :: nat where "CHUNK_TIMEOUT = 30"
definition HANDSHAKE_TIMEOUT :: nat where "HANDSHAKE_TIMEOUT = 15"

section \<open>Waiting\<close>

text \<open>
  \<open>timeout d msg m\<close> is \<^verbatim>\<open>timeout(d, m).await\<close> with the expiry turned into the error \<open>msg\<close>. It
  expires when \<open>m\<close> is never ready, and also when \<open>m\<close> itself waited longer than \<open>d\<close>, in a timeout
  of its own, before it gave up.
\<close>

definition timeout :: "nat \<Rightarrow> string \<Rightarrow> ('a conn_scheme, 'b) io \<Rightarrow> ('a conn_scheme, 'b) io" where
  "timeout d msg m s = (case m s of (r, s') \<Rightarrow>
     if r = Pending \<or> waited s' > waited s + d then (Err msg, s'\<lparr>waited := waited s + d\<rparr>) else (r, s'))"

lemma timeout_done [run_simps]:
  "m s = (r, s') \<Longrightarrow> r \<noteq> Pending \<Longrightarrow> waited s' = waited s \<Longrightarrow> timeout d msg m s = (r, s')"
  by (simp add: timeout_def)

lemma timeout_expired [run_simps]:
  "m s = (Pending, s') \<Longrightarrow> timeout d msg m s = (Err msg, s'\<lparr>waited := waited s + d\<rparr>)"
  by (simp add: timeout_def)

lemma timeout_shorter [run_simps]:
  "m s = (r, s') \<Longrightarrow> waited s + d < waited s' \<Longrightarrow> timeout d msg m s = (Err msg, s'\<lparr>waited := waited s + d\<rparr>)"
  by (simp add: timeout_def)

lemma timeout_never_pending: "fst (timeout d msg m s) \<noteq> Pending"
  by (simp add: timeout_def split: prod.split)

section \<open>Reading\<close>

definition end_result :: "stream_end \<Rightarrow> 'a res" where
  "end_result e = (case e of Closed \<Rightarrow> Err ''early eof'' | Stalled \<Rightarrow> Pending | Reset m \<Rightarrow> Err m)"

text \<open>\<^verbatim>\<open>read_exact\<close> into a buffer of \<open>n\<close> bytes: all of them, or the stream's end.\<close>

definition read_exact :: "nat \<Rightarrow> ('a conn_scheme, bytes) io" where
  "read_exact n w =
    (if n \<le> length (inp w) then (Ok (take n (inp w)), w\<lparr>inp := drop n (inp w)\<rparr>)
     else (end_result (inp_end w), w\<lparr>inp := []\<rparr>))"

section \<open>Writing\<close>

text \<open>Handing bytes to the socket.\<close>

definition push_out :: "bytes \<Rightarrow> ('a conn_scheme, unit) io" where
  "push_out d w =
    (if length d \<le> out_room w
     then (Ok (), w\<lparr>out_sent := out_sent w @ d, out_room := out_room w - length d\<rparr>)
     else ((case out_end w of Closed \<Rightarrow> Err ''broken pipe'' | Stalled \<Rightarrow> Pending | Reset m \<Rightarrow> Err m),
           w\<lparr>out_sent := out_sent w @ take (out_room w) d, out_room := 0\<rparr>))"

definition flush :: "('a conn_scheme, unit) io" where
  "flush w = (case push_out (out_buf w) w of (r, w') \<Rightarrow> (r, w'\<lparr>out_buf := []\<rparr>))"

text \<open>
  \<^verbatim>\<open>BufWriter::write_all\<close>: what does not fit beside the buffered bytes pushes them out first, and
  a block as large as the buffer bypasses it.
\<close>

definition write_all :: "bytes \<Rightarrow> ('a conn_scheme, unit) io" where
  "write_all d = seq (get_state out_buf) (\<lambda>buf.
     seq (if length buf + length d > NETWORK_WRITE_BUFFER then flush else ret ()) (\<lambda>_.
     if length d \<ge> NETWORK_WRITE_BUFFER then push_out d
     else upd_state (\<lambda>w. w\<lparr>out_buf := out_buf w @ d\<rparr>)))"

definition shutdown :: "('a conn_scheme, unit) io" where
  "shutdown = seq flush (\<lambda>_. upd_state (\<lambda>w. w\<lparr>out_shut := True\<rparr>))"

section \<open>Random bytes, the clock, the pool\<close>

definition fill_bytes :: "nat \<Rightarrow> ('a conn_scheme, bytes) io" where
  "fill_bytes n w = (Ok (map (rng w) [0..<n]), w\<lparr>rng := (\<lambda>i. rng w (i + n))\<rparr>)"

definition instant_now :: "('a conn_scheme, nat) io" where
  "instant_now w = (Ok (clock w 0), w\<lparr>clock := (\<lambda>i. clock w (Suc i))\<rparr>)"

text \<open>\<^verbatim>\<open>if mem_pool.len() < n { mem_pool.resize(n, 0) }\<close>.\<close>

definition ensure_pool :: "nat \<Rightarrow> ('a conn_scheme, unit) io" where
  "ensure_pool n = upd_state (\<lambda>w. if length (pool w) < n then w\<lparr>pool := resize n (pool w)\<rparr> else w)"

section \<open>Evaluation lemmas\<close>

text \<open>Everything sent or on its way, in order.\<close>

definition wire :: "'a conn_scheme \<Rightarrow> bytes" where
  "wire w = out_sent w @ out_buf w"

text \<open>The peer takes another \<open>n\<close> bytes.\<close>

definition writable :: "nat \<Rightarrow> 'a conn_scheme \<Rightarrow> bool" where
  "writable n w \<longleftrightarrow> length (out_buf w) + n \<le> out_room w"

lemma read_exact_append [run_simps]:
  "inp w = d @ rest \<Longrightarrow> length d = n \<Longrightarrow> read_exact n w = (Ok d, w\<lparr>inp := rest\<rparr>)"
  by (simp add: read_exact_def)

lemma read_exact_short [run_simps]:
  "length (inp w) < n \<Longrightarrow> read_exact n w = (end_result (inp_end w), w\<lparr>inp := []\<rparr>)"
  by (simp add: read_exact_def)

lemma read_exact_OkD: "read_exact n w = (Ok d, w') \<Longrightarrow> length d = n \<and> inp w = d @ inp w'"
  by (auto simp: read_exact_def end_result_def split: if_splits stream_end.splits)

lemma flush_ok [run_simps]:
  "writable 0 w \<Longrightarrow> flush w = (Ok (), w\<lparr>out_sent := wire w, out_buf := [],
     out_room := out_room w - length (out_buf w)\<rparr>)"
  by (simp add: flush_def push_out_def writable_def wire_def)

text \<open>A write the peer takes extends the wire by the data, wherever the bytes are.\<close>

lemma write_all_ok:
  assumes "writable (length d) w"
  shows "\<exists>w'. write_all d w = (Ok (), w') \<and> wire w' = wire w @ d \<and>
    w' = w\<lparr>out_sent := out_sent w', out_buf := out_buf w', out_room := out_room w'\<rparr> \<and>
    (\<forall>n. writable n w' = writable (length d + n) w) \<and>
    out_room w' - length (out_buf w') = out_room w - (length (out_buf w) + length d)"
proof (cases "NETWORK_WRITE_BUFFER \<le> length d \<and> length (out_buf w) + length d \<le> NETWORK_WRITE_BUFFER")
  case True
  then have "out_buf w = []" by (cases "out_buf w") auto
  with True assms show ?thesis
    by (auto simp: write_all_def seq_def get_state_def push_out_def writable_def wire_def ret_def)
next
  case False
  with assms show ?thesis
    by (auto simp: write_all_def seq_def get_state_def flush_def push_out_def writable_def
        wire_def upd_state_def ret_def)
qed

lemma write_all_wire:
  assumes "writable (length d) w"
  obtains w' where "write_all d w = (Ok (), w')" "wire w' = wire w @ d"
    "w' = w\<lparr>out_sent := out_sent w', out_buf := out_buf w', out_room := out_room w'\<rparr>"
    "\<And>n. writable n w' = writable (length d + n) w"
  using write_all_ok [OF assms] by blast

text \<open>After a write and a flush the buffering no longer shows.\<close>

lemma write_flush_ok [run_simps]:
  assumes "writable (length d) w"
  shows "seq (write_all d) (\<lambda>_. flush) w = (Ok (), w\<lparr>out_sent := wire w @ d, out_buf := [],
     out_room := out_room w - (length (out_buf w) + length d)\<rparr>)"
proof -
  obtain w' where w': "write_all d w = (Ok (), w')" "wire w' = wire w @ d"
    "w' = w\<lparr>out_sent := out_sent w', out_buf := out_buf w', out_room := out_room w'\<rparr>"
    "writable 0 w'" "out_room w' - length (out_buf w') = out_room w - (length (out_buf w) + length d)"
    using write_all_ok [OF assms] assms by auto
  then have "flush w' = (Ok (), w'\<lparr>out_sent := wire w @ d, out_buf := [],
      out_room := out_room w - (length (out_buf w) + length d)\<rparr>)"
    by (simp add: flush_ok)
  also have "\<dots> = (Ok (), w\<lparr>out_sent := wire w @ d, out_buf := [],
      out_room := out_room w - (length (out_buf w) + length d)\<rparr>)"
    by (subst w'(3)) simp
  finally show ?thesis
    using w'(1) by (simp add: seq_Ok)
qed

lemma shutdown_ok [run_simps]:
  "writable 0 w \<Longrightarrow> shutdown w = (Ok (), w\<lparr>out_sent := wire w, out_buf := [],
     out_room := out_room w - length (out_buf w), out_shut := True\<rparr>)"
  by (simp add: shutdown_def run_simps)

end
