(* ===== verification/Wire.thy ===== *)
theory Wire
  imports Conn
begin

text \<open>
  Framing (\<^verbatim>\<open>src/protocol_v1.rs\<close>, \<^verbatim>\<open>read_frame_length\<close> to \<^verbatim>\<open>send_failed\<close>): a frame is a
  big-endian \<^verbatim>\<open>u32\<close> length and a body, in the clear during the handshake and sealed afterwards.
  Sealed frames are read and written in place in the connection's memory pool. The locale
  \<open>frame_channel\<close> states what the handlers rely on, and is interpreted on both kinds of frame.
\<close>

section \<open>Frames\<close>

definition MAX_FRAME_LENGTH :: u32 where
  "MAX_FRAME_LENGTH = 1024 * 1024 * 16"

definition frame_timeout :: string where
  "frame_timeout = ''Timeout reading frame length''"

definition read_frame_length :: "('a conn_scheme, u32) io" where
  "read_frame_length =
    seq (timeout READ_TIMEOUT frame_timeout (wrap_err (\<lambda>e. ''Read error: '' @ e) (read_exact 4))) (\<lambda>len_buf.
    let len = from_be_bytes len_buf in
    if len = 0 \<or> len > MAX_FRAME_LENGTH
    then fail (''Invalid frame length: '' @ show_nat (unat len))
    else ret len)"

definition read_encrypt_data_into :: "prims \<Rightarrow> bytes \<Rightarrow> ('a conn_scheme, bytes) io" where
  "read_encrypt_data_into P session_key =
    seq read_frame_length (\<lambda>len.
    let ciphertext_len = unat len in
    if ciphertext_len < NONCE_LEN + TAG_LEN
    then fail (''Frame length too short for encrypted header: '' @ show_nat ciphertext_len)
    else
      let plaintext_len = ciphertext_len - NONCE_LEN - TAG_LEN;
          required_len = ciphertext_len + plaintext_len
      in seq (ensure_pool required_len) (\<lambda>_.
         seq (read_exact ciphertext_len) (\<lambda>encrypted_buf.
         seq (upd_state (\<lambda>w. w\<lparr>pool := buf_put 0 encrypted_buf (pool w)\<rparr>)) (\<lambda>_.
         seq (get_state (\<lambda>w. buf_get ciphertext_len required_len (pool w))) (\<lambda>decrypted_chunk.
         seq (lift_res (decrypt_into P encrypted_buf decrypted_chunk session_key)) (\<lambda>(_, decrypted_buf).
         seq (upd_state (\<lambda>w. w\<lparr>pool := buf_put ciphertext_len decrypted_buf (pool w)\<rparr>)) (\<lambda>_.
         ret decrypted_buf)))))))"

definition write_encrypt_frame_into :: "prims \<Rightarrow> bytes \<Rightarrow> bytes \<Rightarrow> ('a conn_scheme, unit) io" where
  "write_encrypt_frame_into P data session_key =
    (let plaintext_len = length data in
     if plaintext_len > 2 ^ 32 - 1
     then fail (''Too large content: '' @ show_nat plaintext_len @ '' bytes'')
     else
       let ciphertext_len = NONCE_LEN + plaintext_len + TAG_LEN;
           total_frame_len = 4 + ciphertext_len
       in seq (ensure_pool total_frame_len) (\<lambda>_.
          seq (upd_state (\<lambda>w. w\<lparr>pool := buf_put 0 (to_be_bytes (of_nat ciphertext_len)) (pool w)\<rparr>)) (\<lambda>_.
          seq (get_state (\<lambda>w. buf_get 4 total_frame_len (pool w))) (\<lambda>output.
          seq (fill_bytes NONCE_LEN) (\<lambda>nonce.
          seq (lift_res (encrypt_into P nonce data output session_key)) (\<lambda>(_, output').
          seq (upd_state (\<lambda>w. w\<lparr>pool := buf_put 4 output' (pool w)\<rparr>)) (\<lambda>_.
          seq (get_state (\<lambda>w. take total_frame_len (pool w))) (\<lambda>frame.
          seq (write_all frame) (\<lambda>_. flush)))))))))"

definition read_raw_data_into :: "('a conn_scheme, bytes) io" where
  "read_raw_data_into = seq read_frame_length (\<lambda>len. read_exact (unat len))"

definition write_raw_frame_into :: "bytes \<Rightarrow> ('a conn_scheme, unit) io" where
  "write_raw_frame_into data =
    (if length data > 2 ^ 32 - 1
     then fail (''Too large content: '' @ show_nat (length data) @ '' bytes'')
     else seq (write_all (to_be_bytes (of_nat (length data)) @ data)) (\<lambda>_. flush))"

section \<open>Commands and responses\<close>

definition read_headers :: "prims \<Rightarrow> bytes \<Rightarrow> ('a conn_scheme, Command) io" where
  "read_headers P session_key =
    seq (read_encrypt_data_into P session_key) (\<lambda>decrypted_buf.
    lift_res (deserialize (pc_Command P) decrypted_buf))"

definition send_success :: "prims \<Rightarrow> 't codec \<Rightarrow> 't \<Rightarrow> bytes \<Rightarrow> ('a conn_scheme, unit) io" where
  "send_success P c response session_key =
    (case to_allocvec c response of
       Inl e \<Rightarrow> fail (''Failed to serialize success response: '' @ e)
     | Inr payload \<Rightarrow>
         seq (timeout WRITE_TIMEOUT deadline_elapsed (write_encrypt_frame_into P (1 # payload) session_key)) (\<lambda>_.
         shutdown))"

definition send_warn :: "prims \<Rightarrow> WarnHeader \<Rightarrow> bytes \<Rightarrow> ('a conn_scheme, unit) io" where
  "send_warn P response session_key =
    seq (lift_res (serialize (pc_WarnHeader P) response)) (\<lambda>payload_bytes.
    seq (timeout WRITE_TIMEOUT deadline_elapsed (write_encrypt_frame_into P (2 # payload_bytes) session_key)) (\<lambda>_.
    shutdown))"

definition send_failed :: "prims \<Rightarrow> ErrorHeader \<Rightarrow> bytes \<Rightarrow> ('a conn_scheme, unit) io" where
  "send_failed P response session_key =
    seq (lift_res (serialize (pc_ErrorHeader P) response)) (\<lambda>payload_bytes.
    seq (timeout WRITE_TIMEOUT deadline_elapsed (write_encrypt_frame_into P (3 # payload_bytes) session_key)) (\<lambda>_.
    shutdown))"

section \<open>What a frame is\<close>

definition raw_frame :: "bytes \<Rightarrow> bytes" where
  "raw_frame m = to_be_bytes (of_nat (length m)) @ m"

definition sealed_frame :: "prims \<Rightarrow> bytes \<Rightarrow> bytes \<Rightarrow> bytes \<Rightarrow> bytes" where
  "sealed_frame P key nonce m = to_be_bytes (of_nat (28 + length m)) @ sealed P key nonce m"

text \<open>Sizes the receiver accepts: at most 16 MiB of body, 28 bytes of it nonce and tag.\<close>

definition raw_fits :: "bytes \<Rightarrow> bool" where
  "raw_fits m \<longleftrightarrow> 0 < length m \<and> length m \<le> 16777216"

definition sealed_fits :: "bytes \<Rightarrow> bool" where
  "sealed_fits m \<longleftrightarrow> length m + 28 \<le> 16777216"

lemma unat_small_len: "n \<le> 16777216 \<Longrightarrow> unat (of_nat n :: u32) = n"
  by (simp add: unat_of_nat take_bit_eq_mod)

lemma read_frame_length_ok [run_simps]:
  assumes "inp w = to_be_bytes (of_nat n) @ rest" "0 < n" "n \<le> 16777216"
  shows "read_frame_length w = (Ok (of_nat n), w\<lparr>inp := rest\<rparr>)"
proof -
  have u: "unat (of_nat n :: u32) = n" using assms(3) by (rule unat_small_len)
  then have "(of_nat n :: u32) \<noteq> 0" using assms(2) by auto
  moreover have "\<not> (of_nat n :: u32) > MAX_FRAME_LENGTH"
    using u assms(3) by (simp add: MAX_FRAME_LENGTH_def word_less_nat_alt)
  moreover have "read_exact 4 w = (Ok (to_be_bytes (of_nat n)), w\<lparr>inp := rest\<rparr>)"
    using assms(1) by (simp add: read_exact_append)
  ultimately show ?thesis
    by (simp add: read_frame_length_def run_simps)
qed

lemma write_raw_ok [run_simps]:
  assumes "length m \<le> 16777216" "writable (4 + length m) w"
  shows "write_raw_frame_into m w = (Ok (), w\<lparr>out_sent := wire w @ raw_frame m, out_buf := [],
     out_room := out_room w - (length (out_buf w) + (4 + length m))\<rparr>)"
  using assms write_flush_ok [of "raw_frame m" w]
  by (simp add: write_raw_frame_into_def raw_frame_def)

lemma read_raw_ok [run_simps]:
  assumes "raw_fits m" "inp w = raw_frame m @ rest"
  shows "read_raw_data_into w = (Ok m, w\<lparr>inp := rest\<rparr>)"
  using assms
  by (simp add: read_raw_data_into_def raw_frame_def raw_fits_def run_simps unat_small_len)

lemma ensure_pool_run:
  "\<exists>p. ensure_pool n w = (Ok (), w\<lparr>pool := p\<rparr>) \<and> n \<le> length p"
proof (cases "length (pool w) < n")
  case True
  then show ?thesis
    by (intro exI [of _ "resize n (pool w)"]) (simp add: ensure_pool_def upd_state_def buf_simps)
next
  case False
  then show ?thesis
    by (intro exI [of _ "pool w"]) (simp add: ensure_pool_def upd_state_def)
qed

lemma read_encrypt_ok:
  assumes P: "aead_ok P" "length key = 32" "length nonce = 12" and m: "sealed_fits m"
    and i: "inp w = sealed_frame P key nonce m @ rest"
  shows "\<exists>p. read_encrypt_data_into P key w = (Ok m, w\<lparr>inp := rest, pool := p\<rparr>)"
proof -
  let ?n = "28 + length m"
  have mx: "length m \<le> aead_max" using m by (simp add: sealed_fits_def aead_max_def)
  have len: "length (sealed P key nonce m) = ?n" using P mx by (simp add: buf_simps)
  have u: "unat (of_nat ?n :: u32) = ?n"
    using m by (intro unat_small_len) (simp add: sealed_fits_def)
  have r: "read_frame_length w = (Ok (of_nat ?n), w\<lparr>inp := sealed P key nonce m @ rest\<rparr>)"
    using i m by (intro read_frame_length_ok) (simp_all add: sealed_frame_def sealed_fits_def)
  obtain p where p: "ensure_pool (?n + length m) (w\<lparr>inp := sealed P key nonce m @ rest\<rparr>) =
      (Ok (), w\<lparr>inp := sealed P key nonce m @ rest, pool := p\<rparr>)" "?n + length m \<le> length p"
    using ensure_pool_run [of "?n + length m" "w\<lparr>inp := sealed P key nonce m @ rest\<rparr>"] by auto
  let ?p1 = "buf_put 0 (sealed P key nonce m) p"
  have p1: "length ?p1 = length p" using p(2) len by (simp add: buf_simps)
  have out: "length (buf_get ?n (?n + length m) ?p1) = length m"
    using p(2) p1 by (simp add: buf_simps)
  have d: "decrypt_into P (sealed P key nonce m) (buf_get ?n (?n + length m) ?p1) key = Ok (length m, m)"
    using P mx out by (simp add: run_simps)
  have e: "read_exact ?n (w\<lparr>inp := sealed P key nonce m @ rest, pool := p\<rparr>) =
      (Ok (sealed P key nonce m), w\<lparr>inp := rest, pool := p\<rparr>)"
    using len by (simp add: read_exact_append)
  show ?thesis
    using r p(1) e d u
    by (intro exI [of _ "buf_put ?n m ?p1"])
       (simp add: read_encrypt_data_into_def run_simps NONCE_LEN_def TAG_LEN_def Let_def)
qed

lemma fill_bytes_length: "fill_bytes n w = (Ok d, w') \<Longrightarrow> length d = n"
  by (auto simp: fill_bytes_def)

text \<open>The next 12 random bytes, the nonce of the next sealed frame, and the source after them.\<close>

definition next_nonce :: "'a conn_scheme \<Rightarrow> bytes" where
  "next_nonce w = map (rng w) [0..<12]"

definition skip_rng :: "nat \<Rightarrow> (nat \<Rightarrow> byte) \<Rightarrow> nat \<Rightarrow> byte" where
  "skip_rng n r i = r (i + n)"

lemma length_next_nonce [simp]: "length (next_nonce w) = 12"
  by (simp add: next_nonce_def)

lemma write_encrypt_ok:
  assumes P: "aead_ok P" "length key = 32" and m: "sealed_fits m"
    and wr: "writable (32 + length m) w"
  shows "\<exists>p. write_encrypt_frame_into P m key w =
    (Ok (), w\<lparr>out_sent := wire w @ sealed_frame P key (next_nonce w) m, out_buf := [],
       out_room := out_room w - (length (out_buf w) + (32 + length m)),
       rng := skip_rng 12 (rng w), pool := p\<rparr>)"
proof -
  let ?n = "28 + length m" and ?N = "next_nonce w"
  have mx: "length m \<le> aead_max" using m by (simp add: sealed_fits_def aead_max_def)
  have len: "length (sealed P key ?N m) = ?n" using P mx by (simp add: buf_simps)
  obtain p where p: "ensure_pool (4 + ?n) w = (Ok (), w\<lparr>pool := p\<rparr>)" "4 + ?n \<le> length p"
    using ensure_pool_run by blast
  let ?pre = "to_be_bytes (of_nat ?n)"
  let ?p1 = "buf_put 0 ?pre p"
  have p1: "length ?p1 = length p" using p(2) by (simp add: buf_simps)
  have e: "encrypt_into P ?N m (buf_get 4 (4 + ?n) ?p1) key = Ok (?n, sealed P key ?N m)"
    using P mx p(2) p1 by (simp add: run_simps buf_simps)
  let ?p2 = "buf_put 4 (sealed P key ?N m) ?p1"
  have f: "take (4 + ?n) ?p2 = sealed_frame P key ?N m"
    using len p(2) by (simp add: buf_put_def sealed_frame_def)
  let ?w = "w\<lparr>rng := skip_rng 12 (rng w), pool := ?p2\<rparr>"
  have lf: "length (sealed_frame P key ?N m) = 32 + length m"
    using len by (simp add: sealed_frame_def)
  have wr': "seq (write_all (sealed_frame P key ?N m)) (\<lambda>_. flush) ?w =
    (Ok (), ?w\<lparr>out_sent := wire w @ sealed_frame P key ?N m, out_buf := [],
       out_room := out_room w - (length (out_buf w) + (32 + length m))\<rparr>)"
    using wr lf by (subst write_flush_ok) (simp_all add: writable_def wire_def)
  have fb: "fill_bytes 12 v = (Ok (next_nonce v), v\<lparr>rng := skip_rng 12 (rng v)\<rparr>)" for v :: "'a conn_scheme"
    by (simp add: fill_bytes_def next_nonce_def skip_rng_def fun_eq_iff)
  have nn: "next_nonce (w\<lparr>pool := q\<rparr>) = ?N" for q by (simp add: next_nonce_def)
  have small: "\<not> length m > 2 ^ 32 - 1" using m by (simp add: sealed_fits_def)
  have f': "take (32 + length m) ?p2 = sealed_frame P key ?N m" using f by simp
  have e': "encrypt_into P ?N m (buf_get 4 (32 + length m) ?p1) key = Ok (?n, sealed P key ?N m)"
    using e by simp
  have p': "ensure_pool (32 + length m) w = (Ok (), w\<lparr>pool := p\<rparr>)" using p(1) by simp
  show ?thesis
    using p' e' f' wr' small
    by (intro exI [of _ ?p2])
       (simp add: write_encrypt_frame_into_def run_simps NONCE_LEN_def TAG_LEN_def fb nn
           add.commute Let_def)
qed

section \<open>The contract of a channel\<close>

fun send_all :: "('m \<Rightarrow> ('s, unit) io) \<Rightarrow> 'm list \<Rightarrow> ('s, unit) io" where
  "send_all send [] = ret ()"
| "send_all send (m # ms) = seq (send m) (\<lambda>_. send_all send ms)"

fun recv_n :: "('s, 'm) io \<Rightarrow> nat \<Rightarrow> ('s, 'm list) io" where
  "recv_n recv 0 = ret []"
| "recv_n recv (Suc n) = seq recv (\<lambda>m. seq (recv_n recv n) (\<lambda>ms. ret (m # ms)))"

text \<open>
  \<open>good\<close>: the parameters and the message are ones the channel carries; \<open>frame\<close>: the bytes of a
  message under a nonce; \<open>ovh\<close>: how many bytes more than the message a frame has.
\<close>

locale frame_channel =
  fixes good :: "'p \<Rightarrow> bytes \<Rightarrow> bool"
    and frame :: "'p \<Rightarrow> bytes \<Rightarrow> bytes \<Rightarrow> bytes"
    and ovh :: nat
    and send :: "'p \<Rightarrow> bytes \<Rightarrow> ('a conn_scheme, unit) io"
    and recv :: "'p \<Rightarrow> ('b conn_scheme, bytes) io"
  assumes frame_len: "good p m \<Longrightarrow> length r = 12 \<Longrightarrow> length (frame p r m) = ovh + length m"
    and send_frame: "good p m \<Longrightarrow> writable (ovh + length m) w \<Longrightarrow>
      \<exists>w'. send p m w = (Ok (), w') \<and> out_sent w' = wire w @ frame p (next_nonce w) m \<and>
        out_buf w' = [] \<and> out_room w' = out_room w - (length (out_buf w) + (ovh + length m))"
    and recv_frame: "good p m \<Longrightarrow> length r = 12 \<Longrightarrow> inp v = frame p r m @ rest \<Longrightarrow>
      \<exists>q. recv p v = (Ok m, v\<lparr>inp := rest, pool := q\<rparr>)"
begin

lemma send_all_frames:
  assumes "\<forall>m \<in> set ms. good p m" "length (out_buf w) + (\<Sum>m \<leftarrow> ms. ovh + length m) \<le> out_room w"
  shows "\<exists>w' rs. send_all (send p) ms w = (Ok (), w') \<and> wire w' = wire w @ concat (map2 (frame p) rs ms) \<and>
    length rs = length ms \<and> (\<forall>r \<in> set rs. length r = 12)"
  using assms
proof (induction ms arbitrary: w)
  case Nil
  show ?case by (intro exI [of _ w] exI [of _ "[]"]) (simp add: ret_def)
next
  case (Cons m ms)
  then have "writable (ovh + length m) w" by (simp add: writable_def)
  with Cons.prems obtain w1 where w1: "send p m w = (Ok (), w1)"
      "out_sent w1 = wire w @ frame p (next_nonce w) m" "out_buf w1 = []"
      "out_room w1 = out_room w - (length (out_buf w) + (ovh + length m))"
    using send_frame by fastforce
  have "\<exists>w' rs. send_all (send p) ms w1 = (Ok (), w') \<and> wire w' = wire w1 @ concat (map2 (frame p) rs ms) \<and>
      length rs = length ms \<and> (\<forall>r \<in> set rs. length r = 12)"
    using Cons.prems w1 by (intro Cons.IH) auto
  then obtain w' rs where "send_all (send p) ms w1 = (Ok (), w')"
      "wire w' = wire w1 @ concat (map2 (frame p) rs ms)" "length rs = length ms"
      "\<forall>r \<in> set rs. length r = 12"
    by blast
  with w1 show ?case
    by (intro exI [of _ w'] exI [of _ "next_nonce w # rs"]) (simp add: seq_Ok wire_def)
qed

lemma recv_n_frames:
  assumes "\<forall>m \<in> set ms. good p m" "length rs = length ms" "\<forall>r \<in> set rs. length r = 12"
    "inp v = concat (map2 (frame p) rs ms) @ rest"
  shows "\<exists>q. recv_n (recv p) (length ms) v = (Ok ms, v\<lparr>inp := rest, pool := q\<rparr>)"
  using assms
proof (induction ms arbitrary: v rs)
  case Nil
  then show ?case by (intro exI [of _ "pool v"]) (simp add: ret_def)
next
  case (Cons m ms)
  then obtain r rs' where rs: "rs = r # rs'" by (cases rs) auto
  with Cons.prems have "inp v = frame p r m @ (concat (map2 (frame p) rs' ms) @ rest)" by simp
  with Cons.prems rs obtain q where
    q: "recv p v = (Ok m, v\<lparr>inp := concat (map2 (frame p) rs' ms) @ rest, pool := q\<rparr>)"
    using recv_frame by fastforce
  from Cons.prems rs Cons.IH [of rs' "v\<lparr>inp := concat (map2 (frame p) rs' ms) @ rest, pool := q\<rparr>"]
  obtain q' where "recv_n (recv p) (length ms) (v\<lparr>inp := concat (map2 (frame p) rs' ms) @ rest, pool := q\<rparr>)
      = (Ok ms, v\<lparr>inp := rest, pool := q'\<rparr>)"
    by auto
  with q show ?case by (intro exI [of _ q']) (simp add: seq_Ok ret_def)
qed

text \<open>What one side sends, the other side receives: the messages, in order, and nothing left over.\<close>

lemma transfer:
  assumes "\<forall>m \<in> set ms. good p m" "length (out_buf w) + (\<Sum>m \<leftarrow> ms. ovh + length m) \<le> out_room w"
    "wire w = []"
  shows "\<exists>w'. send_all (send p) ms w = (Ok (), w') \<and>
    (\<forall>v. inp v = wire w' \<longrightarrow> (\<exists>q. recv_n (recv p) (length ms) v = (Ok ms, v\<lparr>inp := [], pool := q\<rparr>)))"
proof -
  obtain w' rs where "send_all (send p) ms w = (Ok (), w')" "wire w' = concat (map2 (frame p) rs ms)"
      "length rs = length ms" "\<forall>r \<in> set rs. length r = 12"
    using send_all_frames [OF assms(1,2)] assms(3) by auto
  then show ?thesis
    using recv_n_frames [OF assms(1), of rs _ "[]"] by auto
qed

end

text \<open>The two kinds of frame the protocol uses.\<close>

definition sealed_good :: "prims \<times> bytes \<Rightarrow> bytes \<Rightarrow> bool" where
  "sealed_good = (\<lambda>(P, key) m. aead_ok P \<and> length key = 32 \<and> sealed_fits m)"

lemma length_sealed_frame:
  "aead_ok P \<Longrightarrow> length key = 32 \<Longrightarrow> length r = 12 \<Longrightarrow> sealed_fits m \<Longrightarrow>
   length (sealed_frame P key r m) = 32 + length m"
  by (simp add: sealed_frame_def length_sealed sealed_fits_def aead_max_def)

interpretation raw: frame_channel "\<lambda>_ :: unit. raw_fits" "\<lambda>_ _. raw_frame" 4 "\<lambda>_. write_raw_frame_into"
  "\<lambda>_. read_raw_data_into"
proof (unfold_locales, goal_cases)
  case (1 p m r)
  then show ?case by (simp add: raw_frame_def)
next
  case (2 p m w)
  then show ?case by (simp add: raw_fits_def run_simps)
next
  case (3 p m r v rest)
  then show ?case by (intro exI [of _ "pool v"]) (simp add: run_simps)
qed

interpretation enc: frame_channel sealed_good "\<lambda>(P, key). sealed_frame P key" 32
  "\<lambda>(P, key) m. write_encrypt_frame_into P m key" "\<lambda>(P, key). read_encrypt_data_into P key"
proof (unfold_locales, goal_cases)
  case (1 p m r)
  then show ?case by (auto simp: sealed_good_def length_sealed_frame split: prod.splits)
next
  case (2 p m w)
  then obtain P key where "p = (P, key)" "aead_ok P" "length key = 32" "sealed_fits m"
    by (auto simp: sealed_good_def split: prod.splits)
  with 2 write_encrypt_ok [of P key m w] show ?case by auto
next
  case (3 p m r v rest)
  then obtain P key where "p = (P, key)" "aead_ok P" "length key = 32" "sealed_fits m"
    by (auto simp: sealed_good_def split: prod.splits)
  with 3 read_encrypt_ok [of P key r m v rest] show ?case by auto
qed

section \<open>Responses\<close>

text \<open>The state after one more sealed frame, up to the contents of the pool.\<close>

definition after_frame :: "prims \<Rightarrow> bytes \<Rightarrow> bytes \<Rightarrow> bytes \<Rightarrow> 'a conn_scheme \<Rightarrow> 'a conn_scheme" where
  "after_frame P key m p w = w\<lparr>out_sent := wire w @ sealed_frame P key (next_nonce w) m, out_buf := [],
     out_room := out_room w - (length (out_buf w) + (32 + length m)),
     rng := skip_rng 12 (rng w), pool := p\<rparr>"

lemma after_frame_fields [simp]:
  "out_sent (after_frame P key m p w) = wire w @ sealed_frame P key (next_nonce w) m"
  "out_buf (after_frame P key m p w) = []"
  "out_room (after_frame P key m p w) = out_room w - (length (out_buf w) + (32 + length m))"
  "inp (after_frame P key m p w) = inp w" "inp_end (after_frame P key m p w) = inp_end w"
  "out_end (after_frame P key m p w) = out_end w" "out_shut (after_frame P key m p w) = out_shut w"
  "waited (after_frame P key m p w) = waited w" "pool (after_frame P key m p w) = p"
  "disk (after_frame P key m p w) = disk w"
  "clock (after_frame P key m p w) = clock w" "rng (after_frame P key m p w) = skip_rng 12 (rng w)"
  "wire (after_frame P key m p w) = wire w @ sealed_frame P key (next_nonce w) m"
  by (simp_all add: after_frame_def wire_def)

text \<open>A connection on which sealed frames can be exchanged.\<close>

definition channel_ok :: "prims \<Rightarrow> bytes \<Rightarrow> bool" where
  "channel_ok P key \<longleftrightarrow> aead_ok P \<and> length key = 32"

lemma write_frame_run:
  assumes "channel_ok P key" "sealed_fits m" "writable (32 + length m) w"
  obtains p where "write_encrypt_frame_into P m key w = (Ok (), after_frame P key m p w)"
  using write_encrypt_ok [of P key m w] assms unfolding channel_ok_def after_frame_def by blast

lemma write_frame_timeout:
  assumes "channel_ok P key" "sealed_fits m" "writable (32 + length m) w"
  obtains p where "timeout d msg (write_encrypt_frame_into P m key) w = (Ok (), after_frame P key m p w)"
proof -
  obtain p where "write_encrypt_frame_into P m key w = (Ok (), after_frame P key m p w)"
    using write_frame_run [OF assms] by blast
  then show thesis using that by (simp add: timeout_done)
qed

lemma write_frame_close:
  assumes "channel_ok P key" "sealed_fits m" "writable (32 + length m) w"
  obtains p where "seq (timeout WRITE_TIMEOUT deadline_elapsed (write_encrypt_frame_into P m key)) (\<lambda>_. shutdown) w =
    (Ok (), (after_frame P key m p w)\<lparr>out_shut := True\<rparr>)"
proof -
  obtain p where p: "timeout WRITE_TIMEOUT deadline_elapsed (write_encrypt_frame_into P m key) w
      = (Ok (), after_frame P key m p w)"
    using write_frame_timeout [OF assms] by blast
  have "writable 0 (after_frame P key m p w)" by (simp add: writable_def)
  then have "shutdown (after_frame P key m p w) = (Ok (), (after_frame P key m p w)\<lparr>out_shut := True\<rparr>)"
    by (simp add: shutdown_ok)
  with p show thesis using that by (simp add: seq_Ok)
qed

text \<open>The payload of an error response, and the condition under which it can be delivered.\<close>

definition error_payload :: "prims \<Rightarrow> nat \<Rightarrow> string \<Rightarrow> bytes" where
  "error_payload P code msg = 3 # encoding (pc_ErrorHeader P) \<lparr>err_code = of_nat code, err_message = msg\<rparr>"

definition error_deliverable :: "prims \<Rightarrow> nat \<Rightarrow> string \<Rightarrow> 'a conn_scheme \<Rightarrow> bool" where
  "error_deliverable P code msg w \<longleftrightarrow>
     roundtrips (pc_ErrorHeader P) \<lparr>err_code = of_nat code, err_message = msg\<rparr> \<and>
     sealed_fits (error_payload P code msg) \<and> writable (32 + length (error_payload P code msg)) w"

lemma send_failed_run:
  assumes "channel_ok P key" "error_deliverable P code msg w"
  obtains p where "send_failed P \<lparr>err_code = of_nat code, err_message = msg\<rparr> key w =
    (Ok (), (after_frame P key (error_payload P code msg) p w)\<lparr>out_shut := True\<rparr>)"
proof -
  obtain p where "seq (timeout WRITE_TIMEOUT deadline_elapsed (write_encrypt_frame_into P (error_payload P code msg) key))
      (\<lambda>_. shutdown) w = (Ok (), (after_frame P key (error_payload P code msg) p w)\<lparr>out_shut := True\<rparr>)"
    using write_frame_close assms unfolding error_deliverable_def by blast
  with assms(2) show thesis
    using that
    by (simp add: send_failed_def error_deliverable_def error_payload_def run_simps)
qed

lemma send_warn_run:
  assumes "channel_ok P key" "roundtrips (pc_WarnHeader P) h"
    "sealed_fits (2 # encoding (pc_WarnHeader P) h)" "writable (33 + length (encoding (pc_WarnHeader P) h)) w"
  obtains p where "send_warn P h key w =
    (Ok (), (after_frame P key (2 # encoding (pc_WarnHeader P) h) p w)\<lparr>out_shut := True\<rparr>)"
proof -
  have "writable (32 + length (2 # encoding (pc_WarnHeader P) h)) w" using assms(4) by simp
  with assms obtain p where "seq (timeout WRITE_TIMEOUT deadline_elapsed (write_encrypt_frame_into P
      (2 # encoding (pc_WarnHeader P) h) key)) (\<lambda>_. shutdown) w =
      (Ok (), (after_frame P key (2 # encoding (pc_WarnHeader P) h) p w)\<lparr>out_shut := True\<rparr>)"
    using write_frame_close by blast
  with assms(2) show thesis using that by (simp add: send_warn_def run_simps)
qed

lemma send_success_run:
  assumes "channel_ok P key" "roundtrips c x" "sealed_fits (1 # encoding c x)"
    "writable (33 + length (encoding c x)) w"
  obtains p where "send_success P c x key w =
    (Ok (), (after_frame P key (1 # encoding c x) p w)\<lparr>out_shut := True\<rparr>)"
proof -
  have "writable (32 + length (1 # encoding c x)) w" using assms(4) by simp
  with assms obtain p where p: "seq (timeout WRITE_TIMEOUT deadline_elapsed (write_encrypt_frame_into P
      (1 # encoding c x) key)) (\<lambda>_. shutdown) w =
      (Ok (), (after_frame P key (1 # encoding c x) p w)\<lparr>out_shut := True\<rparr>)"
    using write_frame_close by blast
  from assms(2) have "to_allocvec c x = Inr (encoding c x)"
    by (auto simp: roundtrips_def encoding_def split: sum.splits)
  with p show thesis using that by (simp add: send_success_def)
qed

section \<open>Frames that do not arrive\<close>

lemma read_frame_length_closed:
  "length (inp w) < 4 \<Longrightarrow> inp_end w = Closed \<Longrightarrow>
   read_frame_length w = (Err ''Read error: early eof'', w\<lparr>inp := []\<rparr>)"
  by (simp add: read_frame_length_def run_simps end_result_def)

lemma read_frame_length_stalled:
  "length (inp w) < 4 \<Longrightarrow> inp_end w = Stalled \<Longrightarrow>
   read_frame_length w = (Err frame_timeout, w\<lparr>inp := [], waited := waited w + 30\<rparr>)"
  by (simp add: read_frame_length_def run_simps end_result_def READ_TIMEOUT_def)

lemma read_frame_length_bad:
  assumes "inp w = to_be_bytes len @ rest" "len = 0 \<or> len > MAX_FRAME_LENGTH"
  shows "read_frame_length w = (Err (''Invalid frame length: '' @ show_nat (unat len)), w\<lparr>inp := rest\<rparr>)"
proof -
  have "read_exact 4 w = (Ok (to_be_bytes len), w\<lparr>inp := rest\<rparr>)"
    using assms(1) by (simp add: read_exact_append)
  with assms(2) show ?thesis
    by (simp add: read_frame_length_def run_simps)
qed

lemma read_frame_length_never_pending: "fst (read_frame_length w) \<noteq> Pending"
  using timeout_never_pending [of READ_TIMEOUT frame_timeout "wrap_err (\<lambda>e. ''Read error: '' @ e) (read_exact 4)" w]
  by (auto simp: read_frame_length_def seq_def fail_def ret_def Let_def split: prod.splits res.splits)

end
