(* ===== verification/RateLimit.thy ===== *)
theory RateLimit
  imports Complex_Main Prelude
begin

text \<open>
  \<^verbatim>\<open>src/ratelimit.rs\<close>: the per-address token bucket. An \<^verbatim>\<open>f64\<close> is the rational it denotes, and
  every floating-point operation is the exact operation followed by the rounding \<open>rnd\<close>, a parameter:
  IEEE 754 defines the operations so, for finite values in range. \<open>f64_rounding\<close> states what is
  used of it. An \<^verbatim>\<open>Instant\<close> is a number of nanoseconds, read by the caller and passed in.
\<close>

type_synonym ip_addr = string

record TokenBucket =
  tb_tokens :: rat
  tb_max_tokens :: rat
  tb_refill_rate :: rat
  tb_last_refill :: nat

record RateLimiter =
  rl_buckets :: "ip_addr \<rightharpoonup> TokenBucket"
  rl_max_tokens :: rat
  rl_refill_rate :: rat

definition NANOS :: nat where "NANOS = 10 ^ 9"

text \<open>\<^verbatim>\<open>Duration::as_secs_f64\<close> and \<^verbatim>\<open>Duration::as_secs\<close> of a number of nanoseconds.\<close>

definition as_secs_f64 :: "(rat \<Rightarrow> rat) \<Rightarrow> nat \<Rightarrow> rat" where
  "as_secs_f64 rnd ns = rnd (rnd (of_nat (ns div NANOS)) + rnd (of_nat (ns mod NANOS) / of_nat NANOS))"

definition as_secs :: "nat \<Rightarrow> nat" where
  "as_secs ns = ns div NANOS"

section \<open>TokenBucket\<close>

definition TokenBucket_init :: "nat \<Rightarrow> rat \<Rightarrow> rat \<Rightarrow> TokenBucket" where
  "TokenBucket_init now max_tokens refill_rate =
    \<lparr>tb_tokens = max_tokens, tb_max_tokens = max_tokens, tb_refill_rate = refill_rate, tb_last_refill = now\<rparr>"

definition refill :: "(rat \<Rightarrow> rat) \<Rightarrow> nat \<Rightarrow> TokenBucket \<Rightarrow> TokenBucket" where
  "refill rnd now b =
    (let elapsed = as_secs_f64 rnd (now - tb_last_refill b) in
     b\<lparr>tb_tokens := min (rnd (tb_tokens b + rnd (elapsed * tb_refill_rate b))) (tb_max_tokens b),
       tb_last_refill := now\<rparr>)"

definition try_consume :: "(rat \<Rightarrow> rat) \<Rightarrow> nat \<Rightarrow> rat \<Rightarrow> TokenBucket \<Rightarrow> bool \<times> TokenBucket" where
  "try_consume rnd now cost b =
    (let b = refill rnd now b in
     if tb_tokens b \<ge> cost then (True, b\<lparr>tb_tokens := rnd (tb_tokens b - cost)\<rparr>) else (False, b))"

section \<open>RateLimiter\<close>

definition RateLimiter_init :: "rat \<Rightarrow> rat \<Rightarrow> RateLimiter" where
  "RateLimiter_init max_tokens refill_rate =
    \<lparr>rl_buckets = Map.empty, rl_max_tokens = max_tokens, rl_refill_rate = refill_rate\<rparr>"

text \<open>
  \<open>t0\<close> is the clock when a missing bucket is created, \<open>t\<close> the clock when it is refilled.
\<close>

definition is_allowed_cost :: "(rat \<Rightarrow> rat) \<Rightarrow> nat \<Rightarrow> nat \<Rightarrow> ip_addr \<Rightarrow> rat \<Rightarrow> RateLimiter \<Rightarrow> bool \<times> RateLimiter" where
  "is_allowed_cost rnd t0 t ip cost rl =
    (let entry = (case rl_buckets rl ip of Some b \<Rightarrow> b
                  | None \<Rightarrow> TokenBucket_init t0 (rl_max_tokens rl) (rl_refill_rate rl));
         (ok, entry') = try_consume rnd t cost entry
     in (ok, rl\<lparr>rl_buckets := (rl_buckets rl)(ip \<mapsto> entry')\<rparr>))"

definition is_allowed :: "(rat \<Rightarrow> rat) \<Rightarrow> nat \<Rightarrow> nat \<Rightarrow> ip_addr \<Rightarrow> RateLimiter \<Rightarrow> bool \<times> RateLimiter" where
  "is_allowed rnd t0 t ip rl = is_allowed_cost rnd t0 t ip 1 rl"

definition tokens_remaining :: "ip_addr \<Rightarrow> RateLimiter \<Rightarrow> rat" where
  "tokens_remaining ip rl = (case rl_buckets rl ip of Some b \<Rightarrow> tb_tokens b | None \<Rightarrow> rl_max_tokens rl)"

definition cleanup_stale :: "nat \<Rightarrow> nat \<Rightarrow> RateLimiter \<Rightarrow> RateLimiter" where
  "cleanup_stale now max_age_secs rl =
    rl\<lparr>rl_buckets := (\<lambda>ip. case rl_buckets rl ip of None \<Rightarrow> None
        | Some b \<Rightarrow> if as_secs (now - tb_last_refill b) < max_age_secs then Some b else None)\<rparr>"

section \<open>Invariant\<close>

definition f64_rounding :: "(rat \<Rightarrow> rat) \<Rightarrow> bool" where
  "f64_rounding rnd \<longleftrightarrow> mono rnd \<and> rnd 0 = 0 \<and> (\<forall>x. rnd (rnd x) = rnd x)"

definition limits_ok :: "(rat \<Rightarrow> rat) \<Rightarrow> rat \<Rightarrow> rat \<Rightarrow> bool" where
  "limits_ok rnd mx rate \<longleftrightarrow> 0 \<le> mx \<and> rnd mx = mx \<and> 0 \<le> rate"

definition bucket_ok :: "(rat \<Rightarrow> rat) \<Rightarrow> rat \<Rightarrow> rat \<Rightarrow> TokenBucket \<Rightarrow> bool" where
  "bucket_ok rnd mx rate b \<longleftrightarrow> tb_max_tokens b = mx \<and> tb_refill_rate b = rate \<and>
     0 \<le> tb_tokens b \<and> tb_tokens b \<le> mx \<and> rnd (tb_tokens b) = tb_tokens b"

definition limiter_ok :: "(rat \<Rightarrow> rat) \<Rightarrow> RateLimiter \<Rightarrow> bool" where
  "limiter_ok rnd rl \<longleftrightarrow> limits_ok rnd (rl_max_tokens rl) (rl_refill_rate rl) \<and>
     (\<forall>ip b. rl_buckets rl ip = Some b \<longrightarrow> bucket_ok rnd (rl_max_tokens rl) (rl_refill_rate rl) b)"

lemma rnd_nonneg: "f64_rounding rnd \<Longrightarrow> 0 \<le> x \<Longrightarrow> 0 \<le> rnd x"
  unfolding f64_rounding_def by (metis monoD)

lemma as_secs_f64_nonneg: "f64_rounding rnd \<Longrightarrow> 0 \<le> as_secs_f64 rnd ns"
  by (simp add: as_secs_f64_def rnd_nonneg)

lemma init_bucket_ok: "limits_ok rnd mx rate \<Longrightarrow> bucket_ok rnd mx rate (TokenBucket_init t mx rate)"
  by (simp add: TokenBucket_init_def bucket_ok_def limits_ok_def)

lemma refill_bucket_ok:
  assumes f: "f64_rounding rnd" and l: "limits_ok rnd mx rate" and b: "bucket_ok rnd mx rate b"
  shows "bucket_ok rnd mx rate (refill rnd now b)"
proof -
  let ?e = "rnd (as_secs_f64 rnd (now - tb_last_refill b) * rate)"
  let ?x = "rnd (tb_tokens b + ?e)"
  have "0 \<le> ?x"
    using l b by (intro rnd_nonneg [OF f] add_nonneg_nonneg mult_nonneg_nonneg as_secs_f64_nonneg [OF f])
      (auto simp: bucket_ok_def limits_ok_def)
  moreover have "rnd (min ?x mx) = min ?x mx"
    using f l by (simp add: min_def f64_rounding_def limits_ok_def)
  ultimately show ?thesis
    using b l by (simp add: refill_def bucket_ok_def limits_ok_def Let_def)
qed

lemma try_consume_bucket_ok:
  assumes f: "f64_rounding rnd" and l: "limits_ok rnd mx rate" and b: "bucket_ok rnd mx rate b" and c: "0 \<le> cost"
  shows "bucket_ok rnd mx rate (snd (try_consume rnd now cost b))"
proof -
  let ?b = "refill rnd now b"
  have b': "bucket_ok rnd mx rate ?b" using f l b by (rule refill_bucket_ok)
  have "tb_tokens ?b \<ge> cost \<Longrightarrow> 0 \<le> rnd (tb_tokens ?b - cost)"
    by (intro rnd_nonneg [OF f]) simp
  moreover have "rnd (tb_tokens ?b - cost) \<le> rnd (tb_tokens ?b)"
    using f c by (intro monoD [of rnd]) (auto simp: f64_rounding_def)
  ultimately show ?thesis
    using b' f by (auto simp: try_consume_def bucket_ok_def Let_def f64_rounding_def)
qed

lemma is_allowed_cost_run:
  "is_allowed_cost rnd t0 t ip cost rl =
    (let r = try_consume rnd t cost (case rl_buckets rl ip of Some b \<Rightarrow> b
        | None \<Rightarrow> TokenBucket_init t0 (rl_max_tokens rl) (rl_refill_rate rl))
     in (fst r, rl\<lparr>rl_buckets := (rl_buckets rl)(ip \<mapsto> snd r)\<rparr>))"
  by (simp add: is_allowed_cost_def case_prod_unfold Let_def)

section \<open>A sequence of requests from one address, in exact arithmetic\<close>

text \<open>The cost granted to a sequence of requests \<open>(time, cost)\<close>, and the bucket after it.\<close>

fun granted :: "(rat \<Rightarrow> rat) \<Rightarrow> TokenBucket \<Rightarrow> (nat \<times> rat) list \<Rightarrow> rat \<times> TokenBucket" where
  "granted rnd b [] = (0, b)"
| "granted rnd b ((t, cost) # rs) =
     (let (ok, b') = try_consume rnd t cost b; (g, b'') = granted rnd b' rs
      in ((if ok then cost else 0) + g, b''))"

text \<open>Request times do not go back.\<close>

fun ordered_from :: "nat \<Rightarrow> (nat \<times> rat) list \<Rightarrow> bool" where
  "ordered_from t0 [] = True"
| "ordered_from t0 ((t, c) # rs) = (t0 \<le> t \<and> ordered_from t rs)"

definition exact :: "rat \<Rightarrow> rat" where
  "exact x = x"

lemma exact_rounding: "f64_rounding exact"
  by (simp add: f64_rounding_def exact_def mono_def)

lemma as_secs_f64_exact: "as_secs_f64 exact ns = of_nat ns / of_nat NANOS"
proof -
  have "(of_nat ns :: rat) = of_nat NANOS * of_nat (ns div NANOS) + of_nat (ns mod NANOS)"
    by (simp flip: of_nat_mult of_nat_add)
  then show ?thesis
    by (simp add: as_secs_f64_def exact_def NANOS_def field_simps)
qed

lemma try_consume_exact:
  assumes "try_consume exact t cost b = (ok, b')"
  shows "tb_tokens b' + (if ok then cost else 0) \<le>
      tb_tokens b + tb_refill_rate b * of_nat (t - tb_last_refill b) / of_nat NANOS"
    and "tb_last_refill b' = t" "tb_refill_rate b' = tb_refill_rate b"
  using assms
  by (auto simp: try_consume_def refill_def Let_def as_secs_f64_exact exact_def mult.commute split: if_splits)

lemma granted_bound:
  assumes "ordered_from (tb_last_refill b) rs" "granted exact b rs = (g, b')"
  shows "tb_tokens b' + g \<le> tb_tokens b +
      tb_refill_rate b * of_nat (tb_last_refill b' - tb_last_refill b) / of_nat NANOS
    \<and> tb_last_refill b \<le> tb_last_refill b'"
  using assms
proof (induction rs arbitrary: b g)
  case Nil
  then show ?case by simp
next
  case (Cons r rs)
  obtain t c where r: "r = (t, c)" by (cases r)
  obtain ok b1 where b1: "try_consume exact t c b = (ok, b1)" by (cases "try_consume exact t c b")
  obtain g1 where g1: "granted exact b1 rs = (g1, b')" "g = (if ok then c else 0) + g1"
    using Cons.prems r b1 by (auto split: prod.splits)
  note e = try_consume_exact [OF b1]
  have o: "tb_last_refill b \<le> t" "ordered_from (tb_last_refill b1) rs"
    using Cons.prems r e(2) by auto
  from Cons.IH [OF o(2) g1(1)] have IH: "tb_tokens b' + g1 \<le> tb_tokens b1 +
      tb_refill_rate b * of_nat (tb_last_refill b' - t) / of_nat NANOS" "t \<le> tb_last_refill b'"
    using e by auto
  have "(of_nat (tb_last_refill b' - tb_last_refill b) :: rat) =
      of_nat (tb_last_refill b' - t) + of_nat (t - tb_last_refill b)"
    using o(1) IH(2) by simp
  then have "tb_refill_rate b * of_nat (tb_last_refill b' - tb_last_refill b) / of_nat NANOS =
      tb_refill_rate b * of_nat (tb_last_refill b' - t) / of_nat NANOS
      + tb_refill_rate b * of_nat (t - tb_last_refill b) / of_nat NANOS"
    by (simp add: distrib_left add_divide_distrib)
  with IH e(1) g1(2) o(1) show ?case by auto
qed

section \<open>Properties\<close>

text \<open>
  C11. The limiter never goes wrong, whatever the rounding: every request keeps each bucket between
  zero and the configured maximum, leaves the buckets of other addresses alone, and is granted
  only when the refilled bucket holds its cost.
\<close>

theorem is_allowed_cost_invariant:
  assumes "f64_rounding rnd" "limiter_ok rnd rl" "0 \<le> cost" "is_allowed_cost rnd t0 t ip cost rl = (ok, rl')"
  shows "limiter_ok rnd rl' \<and> 0 \<le> tokens_remaining ip rl' \<and> tokens_remaining ip rl' \<le> rl_max_tokens rl' \<and>
    (\<forall>other. other \<noteq> ip \<longrightarrow> rl_buckets rl' other = rl_buckets rl other) \<and>
    ok = (cost \<le> tb_tokens (refill rnd t (case rl_buckets rl ip of Some b \<Rightarrow> b
        | None \<Rightarrow> TokenBucket_init t0 (rl_max_tokens rl) (rl_refill_rate rl))))"
proof -
  let ?b = "case rl_buckets rl ip of Some b \<Rightarrow> b
      | None \<Rightarrow> TokenBucket_init t0 (rl_max_tokens rl) (rl_refill_rate rl)"
  let ?ok = "bucket_ok rnd (rl_max_tokens rl) (rl_refill_rate rl)"
  have l: "limits_ok rnd (rl_max_tokens rl) (rl_refill_rate rl)" using assms(2) by (simp add: limiter_ok_def)
  have "?ok ?b"
    using assms(2) l by (auto simp: limiter_ok_def init_bucket_ok split: option.splits)
  then have new: "?ok (snd (try_consume rnd t cost ?b))"
    by (rule try_consume_bucket_ok [OF assms(1) l _ assms(3)])
  have rl': "rl' = rl\<lparr>rl_buckets := (rl_buckets rl)(ip \<mapsto> snd (try_consume rnd t cost ?b))\<rparr>"
    and ok: "ok = fst (try_consume rnd t cost ?b)"
    using assms(4) by (simp_all add: is_allowed_cost_run Let_def)
  have "limiter_ok rnd rl'"
    using assms(2) new rl' by (auto simp: limiter_ok_def)
  moreover have "ok = (cost \<le> tb_tokens (refill rnd t ?b))"
    unfolding ok by (simp add: try_consume_def Let_def)
  ultimately show ?thesis
    using new rl' by (auto simp: bucket_ok_def tokens_remaining_def)
qed

theorem is_allowed_cost_invariant_witness:
  "\<exists>ok rl'. is_allowed_cost exact 0 0 ''1.2.3.4'' 5 (RateLimiter_init 20 10) = (ok, rl') \<and>
    limiter_ok exact rl' \<and> 0 \<le> tokens_remaining ''1.2.3.4'' rl'"
proof -
  have "limiter_ok exact (RateLimiter_init 20 10)"
    by (simp add: limiter_ok_def RateLimiter_init_def limits_ok_def exact_def)
  from is_allowed_cost_invariant [OF exact_rounding this, of 5 0 0 "''1.2.3.4''"] show ?thesis
    by (metis surj_pair zero_le_numeral)
qed

text \<open>
  C12. The limit holds over any stretch of time: in exact arithmetic the cost granted to one address
  by any sequence of requests is at most the bucket's capacity plus what the refill rate adds over
  the time the sequence takes.
\<close>

theorem granted_at_most:
  assumes "bucket_ok exact mx rate b" "0 \<le> rate" "ordered_from (tb_last_refill b) rs"
    "list_all (\<lambda>(t, c). 0 \<le> c \<and> t \<le> t_end) rs" "tb_last_refill b \<le> t_end" "limits_ok exact mx rate"
  shows "fst (granted exact b rs) \<le> mx + rate * of_nat (t_end - tb_last_refill b) / of_nat NANOS"
proof -
  obtain g b' where g: "granted exact b rs = (g, b')" by (cases "granted exact b rs")
  have last: "bucket_ok exact mx rate b' \<and> tb_last_refill b' \<le> t_end"
    using assms(1,4,5) g
  proof (induction rs arbitrary: b g)
    case (Cons r rs)
    obtain t c where r: "r = (t, c)" by (cases r)
    obtain ok b1 where b1: "try_consume exact t c b = (ok, b1)" by (cases "try_consume exact t c b")
    then have "bucket_ok exact mx rate b1"
      using try_consume_bucket_ok [OF exact_rounding assms(6) Cons.prems(1), of c t] Cons.prems r by simp
    moreover have "tb_last_refill b1 = t" by (rule try_consume_exact(2) [OF b1])
    ultimately show ?case
      using Cons r b1 by (auto split: prod.splits)
  qed simp
  have "g \<le> tb_tokens b + rate * of_nat (tb_last_refill b' - tb_last_refill b) / of_nat NANOS"
    using granted_bound [OF assms(3) g] last assms(1) by (auto simp: bucket_ok_def simp del: of_nat_diff)
  also have "\<dots> \<le> mx + rate * of_nat (t_end - tb_last_refill b) / of_nat NANOS"
  proof (rule add_mono)
    show "tb_tokens b \<le> mx" using assms(1) by (simp add: bucket_ok_def)
    have "(of_nat (tb_last_refill b' - tb_last_refill b) :: rat) \<le> of_nat (t_end - tb_last_refill b)"
      using last by (intro of_nat_mono diff_le_mono) simp
    then show "rate * of_nat (tb_last_refill b' - tb_last_refill b) / of_nat NANOS
        \<le> rate * of_nat (t_end - tb_last_refill b) / of_nat NANOS"
      using assms(2) by (intro divide_right_mono mult_left_mono) auto
  qed
  finally show ?thesis using g by simp
qed

theorem granted_at_most_witness:
  "fst (granted exact (TokenBucket_init 0 20 10) [(0, 5), (0, 5), (1000000000, 5)])
     \<le> 20 + 10 * of_nat (1000000000 - tb_last_refill (TokenBucket_init 0 20 10)) / of_nat NANOS"
proof -
  have "limits_ok exact 20 10" by (simp add: limits_ok_def exact_def)
  then show ?thesis
    by (intro granted_at_most init_bucket_ok) (simp_all add: TokenBucket_init_def)
qed


definition demo_limiter :: RateLimiter where
  "demo_limiter = \<lparr>rl_buckets = [''a'' \<mapsto> \<lparr>tb_tokens = 0, tb_max_tokens = 20, tb_refill_rate = 10, tb_last_refill = 0\<rparr>],
     rl_max_tokens = 20, rl_refill_rate = 10\<rparr>"


end
