(* ===== verification/Store.thy ===== *)
theory Store
  imports Conn Fs RateLimit
begin

text \<open>
  The rest of \<^verbatim>\<open>src/lib.rs\<close>: where data lives, the configuration read from the environment,
  hashing a file, the stored metadata of a file, the client's catalog and the server's counters.
\<close>

section \<open>Directories\<close>

text \<open>\<^verbatim>\<open>dirs::home_dir()\<close> is the argument \<open>home\<close>.\<close>

definition home_sub :: "path option \<Rightarrow> string list \<Rightarrow> path res" where
  "home_sub home ds = (case home of None \<Rightarrow> Err ''Failed to get home directory''
     | Some h \<Rightarrow> Ok (foldl path_join h ds))"

definition get_storage_dir :: "path option \<Rightarrow> path res" where
  "get_storage_dir home = home_sub home [''.rdrive'', ''storage'']"

definition get_authorized_client_dir :: "path option \<Rightarrow> path res" where
  "get_authorized_client_dir home = home_sub home [''.rdrive'', ''authorized_keys'']"

definition get_server_key_dir :: "path option \<Rightarrow> path res" where
  "get_server_key_dir home = home_sub home [''.rdrive'', ''server'']"

definition get_user_key_dir :: "path option \<Rightarrow> path res" where
  "get_user_key_dir home = home_sub home [''.rdrive'', ''user'']"

definition get_catalog_path :: "path option \<Rightarrow> path res" where
  "get_catalog_path home = map_res (\<lambda>p. path_join p ''catalog.map'') (get_user_key_dir home)"

definition get_authorized_server_map_path :: "path option \<Rightarrow> path res" where
  "get_authorized_server_map_path home = map_res (\<lambda>p. path_join p ''server.map'') (get_user_key_dir home)"

section \<open>Configuration\<close>

text \<open>
  \<^verbatim>\<open>std::env::var(name).ok().and_then(|s| s.parse().ok()).unwrap_or(default)\<close> over the environment
  as it is after \<^verbatim>\<open>dotenv\<close> has run. \<^verbatim>\<open>u64::from_str\<close> accepts an optional plus sign and decimal
  digits that do not overflow.
\<close>

type_synonym env = "string \<Rightarrow> string option"

definition is_digit :: "char \<Rightarrow> bool" where
  "is_digit c = (48 \<le> (of_char c :: nat) \<and> (of_char c :: nat) \<le> 57)"

definition digit_val :: "char \<Rightarrow> nat" where
  "digit_val c = of_char c - 48"

definition parse_digits :: "string \<Rightarrow> nat" where
  "parse_digits s = foldl (\<lambda>n c. 10 * n + digit_val c) 0 s"

definition parse_u64 :: "string \<Rightarrow> u64 option" where
  "parse_u64 s = (let ds = (if take 1 s = ''+'' then drop 1 s else s) in
     if ds = [] \<or> \<not> list_all is_digit ds \<or> parse_digits ds \<ge> 2 ^ 64 then None
     else Some (of_nat (parse_digits ds)))"

definition parse_bool :: "string \<Rightarrow> bool option" where
  "parse_bool s = (if s = ''true'' then Some True else if s = ''false'' then Some False else None)"

definition env_or :: "(string \<Rightarrow> 'a option) \<Rightarrow> 'a \<Rightarrow> env \<Rightarrow> string \<Rightarrow> 'a" where
  "env_or parse dflt e name =
    (case Option.bind (e name) parse of None \<Rightarrow> dflt | Some v \<Rightarrow> v)"

definition ENABLE_ECHO :: "env \<Rightarrow> bool" where
  "ENABLE_ECHO e = env_or parse_bool False e ''ENABLE_ECHO''"

definition ENABLE_CLIENT_WHITELIST :: "env \<Rightarrow> bool" where
  "ENABLE_CLIENT_WHITELIST e = env_or parse_bool True e ''ENABLE_CLIENT_WHITELIST''"

definition MAX_CONNECTIONS :: "env \<Rightarrow> u64" where
  "MAX_CONNECTIONS e = env_or parse_u64 256 e ''MAX_CONNECTIONS''"

definition MAX_FILE_SIZE_GB :: "env \<Rightarrow> u64" where
  "MAX_FILE_SIZE_GB e = env_or parse_u64 (8 * 1024 * 1024 * 1024) e ''MAX_FILE_SIZE_GB''"

definition CONNECTION_LIFETIME :: "env \<Rightarrow> u64" where
  "CONNECTION_LIFETIME e = env_or parse_u64 3600 e ''CONNECTION_LIFETIME_SECS''"

lemma show_nat_digits: "list_all is_digit (show_nat n) \<and> show_nat n \<noteq> [] \<and> parse_digits (show_nat n) = n"
proof (induction n rule: show_nat.induct)
  case (1 n)
  have d: "is_digit (char_of (48 + k))" "digit_val (char_of (48 + k)) = k" if "k < 10" for k :: nat
    using that by (simp_all add: is_digit_def digit_val_def of_char_of)
  show ?case
  proof (cases "n < 10")
    case True
    then show ?thesis by (subst (1 2 3) show_nat.simps) (simp add: d parse_digits_def)
  next
    case False
    with "1" have "list_all is_digit (show_nat (n div 10))" "parse_digits (show_nat (n div 10)) = n div 10"
      by auto
    with False show ?thesis
      by (subst (1 2 3) show_nat.simps) (simp add: d parse_digits_def)
  qed
qed

lemma parse_u64_show: "n < 2 ^ 64 \<Longrightarrow> parse_u64 (show_nat n) = Some (of_nat n)"
proof -
  assume n: "n < 2 ^ 64"
  obtain c cs where c: "show_nat n = c # cs" using show_nat_digits [of n] by (cases "show_nat n") auto
  then have "is_digit c" using show_nat_digits [of n] by simp
  then have "c \<noteq> CHR ''+''" by (auto simp: is_digit_def)
  with n c show ?thesis using show_nat_digits [of n] by (simp add: parse_u64_def Let_def)
qed

section \<open>Hashing a file\<close>

text \<open>
  The read loop over a regular file: the buffer is filled completely until the last read, so the
  hasher is fed the chunks of the contents in order.
\<close>

definition hash_chunks :: "prims \<Rightarrow> bytes list \<Rightarrow> string" where
  "hash_chunks P cs = hex_encode P (hasher_finalize P (foldl (hasher_update P) (hasher_new P) cs))"

definition file_hasher :: "prims \<Rightarrow> path \<Rightarrow> fs \<Rightarrow> string res" where
  "file_hasher P p f = bind_res (file_read p f) (\<lambda>d. Ok (hash_chunks P (chunks READ_CHUNK_SIZE d)))"

definition content_hash :: "prims \<Rightarrow> bytes \<Rightarrow> string" where
  "content_hash P d = hex_encode P (sha256 P d)"

lemma hash_chunks_concat: "sha_ok P \<Longrightarrow> hash_chunks P cs = content_hash P (concat cs)"
  by (simp add: hash_chunks_def content_hash_def sha_stream)

lemma length_content_hash: "sha_ok P \<Longrightarrow> hex_ok P \<Longrightarrow> length (content_hash P d) = 64"
  by (simp add: content_hash_def hex_ok_def sha_lengths)

section \<open>Metadata of a stored file\<close>

definition MetadataFile_save_to_disk :: "prims \<Rightarrow> MetadataFile \<Rightarrow> path \<Rightarrow> fs \<Rightarrow> fs res" where
  "MetadataFile_save_to_disk P m p f =
    bind_res (of_sum id (to_allocvec (pc_MetadataFile P) m)) (\<lambda>serialized. file_write p serialized f)"

definition MetadataFile_read_from_disk :: "prims \<Rightarrow> path \<Rightarrow> fs \<Rightarrow> MetadataFile res" where
  "MetadataFile_read_from_disk P p f =
    bind_res (file_read p f) (\<lambda>d. of_sum id (from_bytes (pc_MetadataFile P) d))"

lemma metadata_read_saved:
  assumes "roundtrips (pc_MetadataFile P) m" "fs_get f p = Some (FileNode (encoding (pc_MetadataFile P) m))"
  shows "MetadataFile_read_from_disk P p f = Ok m"
  using assms
  by (auto simp: MetadataFile_read_from_disk_def file_read_def roundtrips_def encoding_def split: sum.splits)

lemma metadata_save:
  assumes "roundtrips (pc_MetadataFile P) m"
  shows "MetadataFile_save_to_disk P m p f = file_write p (encoding (pc_MetadataFile P) m) f"
  using assms by (auto simp: MetadataFile_save_to_disk_def roundtrips_def encoding_def split: sum.splits)

section \<open>The server's counters\<close>

text \<open>The bandwidth is an \<^verbatim>\<open>f64\<close>; its rounding is the argument \<open>rnd\<close>.\<close>

record Tracker =
  total_download :: u64
  total_uploaded :: u64
  total_bandwidth_gb :: rat

definition Tracker_default :: Tracker where
  "Tracker_default = \<lparr>total_download = 0, total_uploaded = 0, total_bandwidth_gb = 0\<rparr>"

definition log_upload :: "(rat \<Rightarrow> rat) \<Rightarrow> u64 \<Rightarrow> Tracker \<Rightarrow> Tracker" where
  "log_upload rnd n t = t\<lparr>total_bandwidth_gb :=
       rnd (total_bandwidth_gb t + rnd (rnd (of_nat (unat n)) / (1024 * 1024 * 1024))),
     total_uploaded := total_uploaded t + 1\<rparr>"

definition log_download :: "(rat \<Rightarrow> rat) \<Rightarrow> u64 \<Rightarrow> Tracker \<Rightarrow> Tracker" where
  "log_download rnd n t = t\<lparr>total_bandwidth_gb :=
       rnd (total_bandwidth_gb t + rnd (rnd (of_nat (unat n)) / (1024 * 1024 * 1024))),
     total_download := total_download t + 1\<rparr>"

end
