(* ===== verification/Bulk.thy ===== *)
theory Bulk
  imports Wire Store
begin

text \<open>
  Bulk transfer of a file after the headers: the receive loop of \<^verbatim>\<open>handle_upload\<close> and
  \<^verbatim>\<open>download_client\<close>, the send loop of \<^verbatim>\<open>handle_download\<close> and \<^verbatim>\<open>upload_client\<close>
  (\<^verbatim>\<open>src/protocol_v1.rs\<close>). Chunks are sealed one by one with no length prefix, so the receiver
  computes every boundary from the announced size. The two ends differ only in their error
  messages (\<open>msg\<close> for a timeout, \<open>ctx\<close> for a failed read or write), which are arguments.
\<close>

section \<open>The disk\<close>

definition fs_do :: "(fs \<Rightarrow> fs res) \<Rightarrow> ('a conn_scheme, unit) io" where
  "fs_do g w = (case g (disk w) of Ok f \<Rightarrow> (Ok (), w\<lparr>disk := f\<rparr>) | Err e \<Rightarrow> (Err e, w)
     | Panic p \<Rightarrow> (Panic p, w) | Pending \<Rightarrow> (Pending, w))"

definition fs_query :: "(fs \<Rightarrow> 'b res) \<Rightarrow> ('a conn_scheme, 'b) io" where
  "fs_query g w = (g (disk w), w)"

text \<open>A write through an open handle: to the file if it still has its name, else to no visible file.\<close>

definition file_append :: "path \<Rightarrow> bytes \<Rightarrow> fs \<Rightarrow> fs" where
  "file_append p d f = (case fs_get f p of Some (FileNode x) \<Rightarrow> fs_set p (FileNode (x @ d)) f | _ \<Rightarrow> f)"

definition append_disk :: "path \<Rightarrow> bytes \<Rightarrow> ('a conn_scheme, unit) io" where
  "append_disk p d = upd_state (\<lambda>w. w\<lparr>disk := file_append p d (disk w)\<rparr>)"

text \<open>
  \<^verbatim>\<open>BufWriter::with_capacity(READ_CHUNK_SIZE * 2, file)\<close>: \<open>buf\<close> is what has not reached the file;
  the new buffer is the result.
\<close>

definition buf_file_write :: "path \<Rightarrow> bytes \<Rightarrow> bytes \<Rightarrow> ('a conn_scheme, bytes) io" where
  "buf_file_write p buf d =
    seq (if length buf + length d > READ_CHUNK_SIZE * 2 then append_disk p buf else ret ()) (\<lambda>_.
    let buf = (if length buf + length d > READ_CHUNK_SIZE * 2 then [] else buf) in
    if length d \<ge> READ_CHUNK_SIZE * 2 then seq (append_disk p d) (\<lambda>_. ret buf) else ret (buf @ d))"

section \<open>Receiving\<close>

text \<open>
  One iteration: read a sealed chunk of the expected size, open it, hand it to the file's buffer.
  The decryption buffer holds whatever the last chunk left there; no iteration reads past what it
  has just decrypted, so it is started from zeros.
\<close>

definition recv_chunk :: "string \<Rightarrow> (string \<Rightarrow> string) \<Rightarrow> prims \<Rightarrow> bytes \<Rightarrow> path \<Rightarrow> nat \<Rightarrow> bytes \<Rightarrow>
    ('a conn_scheme, nat \<times> bytes \<times> bytes) io" where
  "recv_chunk msg ctx P session_key p plain_text buf =
    seq (timeout CHUNK_TIMEOUT msg (wrap_err ctx (read_exact (NONCE_LEN + plain_text + TAG_LEN)))) (\<lambda>enc_buf.
    seq (lift_res (decrypt_into P enc_buf (replicate READ_CHUNK_SIZE 0) session_key)) (\<lambda>(dec_len, dec_buf).
    seq (buf_file_write p buf (take dec_len dec_buf)) (\<lambda>buf.
    ret (dec_len, take dec_len dec_buf, buf))))"

definition chunk_len :: "u64 \<Rightarrow> u64 \<Rightarrow> nat" where
  "chunk_len file_size received = min READ_CHUNK_SIZE (unat (file_size - received))"

lemma timeout_OkD: "timeout d msg m w = (Ok a, w') \<Longrightarrow> m w = (Ok a, w')"
  by (auto simp: timeout_def split: prod.splits if_splits)

lemma wrap_err_OkD: "wrap_err f m w = (Ok a, w') \<Longrightarrow> m w = (Ok a, w')"
  by (auto simp: wrap_err_def split: prod.splits res.splits)

lemma recv_chunk_len:
  assumes "recv_chunk msg ctx P key p n buf w = (Ok (k, d, buf'), w')"
  shows "k = n"
proof -
  obtain enc w1 where enc: "timeout CHUNK_TIMEOUT msg (wrap_err ctx (read_exact (NONCE_LEN + n + TAG_LEN))) w = (Ok enc, w1)"
    and rest: "seq (lift_res (decrypt_into P enc (replicate READ_CHUNK_SIZE 0) key)) (\<lambda>(dec_len, dec_buf).
      seq (buf_file_write p buf (take dec_len dec_buf)) (\<lambda>buf. ret (dec_len, take dec_len dec_buf, buf))) w1 = (Ok (k, d, buf'), w')"
    using assms unfolding recv_chunk_def by (rule seq_OkE)
  have l: "length enc = NONCE_LEN + n + TAG_LEN"
    using read_exact_OkD [OF wrap_err_OkD [OF timeout_OkD [OF enc]]] by simp
  obtain out where "decrypt_into P enc (replicate READ_CHUNK_SIZE 0) key = Ok (k, out)"
    using rest by (auto elim!: seq_OkE simp: lift_res_def ret_def)
  from decrypt_into_Ok(2) [OF this] l show ?thesis by (simp add: NONCE_LEN_def TAG_LEN_def)
qed

text \<open>Every iteration that succeeds receives exactly the chunk it asked for, so the loop ends.\<close>

lemma chunk_len_advance:
  assumes "received < (file_size :: u64)" "n = chunk_len file_size received"
  shows "0 < n" "unat (received + of_nat n) = unat received + n" "unat received + n \<le> unat file_size"
proof -
  have d: "unat (file_size - received) = unat file_size - unat received"
    using assms(1) by (simp add: unat_sub order_less_imp_le)
  have lt: "unat received < unat file_size" using assms(1) by (simp add: word_less_nat_alt)
  show "0 < n" using assms(2) d lt by (simp add: chunk_len_def READ_CHUNK_SIZE_def)
  show le: "unat received + n \<le> unat file_size" using assms(2) d lt by (simp add: chunk_len_def)
  have n64: "n < 2 ^ 64" "unat received + n < 2 ^ 64"
    using le unsigned_less [of file_size, where ?'a = nat] by simp_all
  then show "unat (received + of_nat n) = unat received + n"
    by (simp add: unat_word_ariths unat_of_nat take_bit_eq_mod)
qed

lemma recv_file_decreases:
  assumes "received < file_size"
    "recv_chunk msg ctx P key p (chunk_len file_size received) buf w = (Ok (k, d, buf'), w')"
  shows "unat file_size - unat (received + of_nat k) < unat file_size - unat received"
  using chunk_len_advance [OF assms(1) recv_chunk_len [OF assms(2)]] by simp

text \<open>The loop; the hasher's state and the file's buffer are its result.\<close>

function recv_file :: "string \<Rightarrow> (string \<Rightarrow> string) \<Rightarrow> prims \<Rightarrow> bytes \<Rightarrow> path \<Rightarrow> u64 \<Rightarrow> u64 \<Rightarrow> bytes \<Rightarrow> bytes \<Rightarrow>
    ('a conn_scheme, bytes \<times> bytes) io" where
  "recv_file msg ctx P session_key p file_size received hasher buf w =
    (if received < file_size then
       (case recv_chunk msg ctx P session_key p (chunk_len file_size received) buf w of
          (Ok (dec_len, data, buf'), w') \<Rightarrow>
             recv_file msg ctx P session_key p file_size (received + of_nat dec_len)
               (hasher_update P hasher data) buf' w'
        | (Err e, w') \<Rightarrow> (Err e, w') | (Panic q, w') \<Rightarrow> (Panic q, w') | (Pending, w') \<Rightarrow> (Pending, w'))
     else (Ok (hasher, buf), w))"
  by pat_completeness auto

termination
proof (relation "measure (\<lambda>(msg, ctx, P, k, p, file_size, received, h, b, w). unat file_size - unat received)", goal_cases)
  case 1
  show ?case by simp
next
  case 2
  show ?case unfolding in_measure prod.case using 2(2-5) by (metis recv_file_decreases [OF 2(1)])
qed

declare recv_file.simps [simp del]

text \<open>Creating the file, the loop, flushing the file's buffer, and the hash of what was received.\<close>

definition receive_file :: "string \<Rightarrow> (string \<Rightarrow> string) \<Rightarrow> prims \<Rightarrow> bytes \<Rightarrow> path \<Rightarrow> u64 \<Rightarrow> ('a conn_scheme, string) io" where
  "receive_file msg ctx P session_key p file_size =
    seq (fs_do (file_write p [])) (\<lambda>_.
    seq (recv_file msg ctx P session_key p file_size 0 (hasher_new P) []) (\<lambda>(hasher, buf).
    seq (append_disk p buf) (\<lambda>_.
    ret (hex_encode P (hasher_finalize P hasher)))))"

section \<open>Sending\<close>

text \<open>
  The loop over the chunks of the file. The encryption buffer has the size of a full sealed chunk
  in every iteration.
\<close>

fun send_chunks :: "string \<Rightarrow> (string \<Rightarrow> string) \<Rightarrow> prims \<Rightarrow> bytes \<Rightarrow> bytes list \<Rightarrow> ('a conn_scheme, unit) io" where
  "send_chunks msg ctx P session_key [] = ret ()"
| "send_chunks msg ctx P session_key (c # cs) =
    seq (fill_bytes NONCE_LEN) (\<lambda>nonce.
    seq (lift_res (encrypt_into P nonce c (replicate (READ_CHUNK_SIZE + NONCE_LEN + TAG_LEN) 0) session_key)) (\<lambda>(enc_len, enc_buf).
    seq (timeout CHUNK_TIMEOUT msg (wrap_err ctx (write_all (take enc_len enc_buf)))) (\<lambda>_.
    send_chunks msg ctx P session_key cs)))"

section \<open>The disk after a transfer\<close>

text \<open>The two disks agree on every path but \<open>p\<close>.\<close>

definition same_except :: "path \<Rightarrow> fs \<Rightarrow> fs \<Rightarrow> bool" where
  "same_except p f g \<longleftrightarrow> (\<forall>q. q \<noteq> p \<longrightarrow> fs_get g q = fs_get f q)"

lemma same_except_refl [simp]: "same_except p f f"
  by (simp add: same_except_def)

lemma same_except_trans: "same_except p f g \<Longrightarrow> same_except p g h \<Longrightarrow> same_except p f h"
  by (simp add: same_except_def)

lemma file_append_get:
  "fs_get f p = Some (FileNode x) \<Longrightarrow> fs_get (file_append p d f) p = Some (FileNode (x @ d))"
  by (simp add: file_append_def)

lemma file_append_same [simp]: "same_except p f (file_append p d f)"
  by (auto simp: same_except_def file_append_def split: option.splits node.splits)

lemma file_append_twice [simp]: "same_except p f (file_append p d (file_append p e f))"
  by (rule same_except_trans [where g = "file_append p e f"]) simp_all

lemma buf_file_write_ok:
  assumes "fs_get (disk w) p = Some (FileNode x)"
  shows "\<exists>f x' buf'. buf_file_write p buf d w = (Ok buf', w\<lparr>disk := f\<rparr>) \<and> same_except p (disk w) f \<and>
    fs_get f p = Some (FileNode x') \<and> x' @ buf' = x @ buf @ d"
proof -
  let ?C = "READ_CHUNK_SIZE * 2" and ?A = "\<lambda>d f. file_append p d f"
  note defs = buf_file_write_def append_disk_def upd_state_def seq_def ret_def file_append_get
  consider "length buf + length d > ?C" "length d \<ge> ?C" | "length buf + length d > ?C" "\<not> length d \<ge> ?C"
    | "\<not> length buf + length d > ?C" "length d \<ge> ?C" | "\<not> length buf + length d > ?C" "\<not> length d \<ge> ?C"
    by blast
  then show ?thesis
  proof cases
    case 1
    then show ?thesis using assms
      by (intro exI [of _ "?A d (?A buf (disk w))"] exI [of _ "x @ buf @ d"] exI [of _ "[]"])
         (simp add: defs)
  next
    case 2
    then show ?thesis using assms
      by (intro exI [of _ "?A buf (disk w)"] exI [of _ "x @ buf"] exI [of _ d]) (simp add: defs)
  next
    case 3
    then have "buf = []" by (cases buf) auto
    with 3 show ?thesis using assms
      by (intro exI [of _ "?A d (disk w)"] exI [of _ "x @ d"] exI [of _ "[]"]) (simp add: defs)
  next
    case 4
    then show ?thesis using assms
      by (intro exI [of _ "disk w"] exI [of _ x] exI [of _ "buf @ d"]) (simp add: defs)
  qed
qed

lemma recv_chunk_ok:
  assumes "channel_ok P key" "length nonce = 12" "length d = n" "n \<le> READ_CHUNK_SIZE"
    "inp w = sealed P key nonce d @ rest" "fs_get (disk w) p = Some (FileNode x)"
  shows "\<exists>f x' buf'. recv_chunk msg ctx P key p n buf w = (Ok (n, d, buf'), w\<lparr>inp := rest, disk := f\<rparr>) \<and>
    same_except p (disk w) f \<and> fs_get f p = Some (FileNode x') \<and> x' @ buf' = x @ buf @ d"
proof -
  have P: "aead_ok P" "length key = 32" using assms(1) by (simp_all add: channel_ok_def)
  have mx: "length d \<le> aead_max" using assms(3,4) by (simp add: aead_max_def READ_CHUNK_SIZE_def)
  have l: "length (sealed P key nonce d) = NONCE_LEN + n + TAG_LEN"
    using P assms(2,3) mx by (simp add: buf_simps NONCE_LEN_def TAG_LEN_def)
  then have r: "timeout CHUNK_TIMEOUT msg (wrap_err ctx (read_exact (NONCE_LEN + n + TAG_LEN))) w =
      (Ok (sealed P key nonce d), w\<lparr>inp := rest\<rparr>)"
    using assms(5) by (simp add: run_simps)
  have dec: "decrypt_into P (sealed P key nonce d) (replicate READ_CHUNK_SIZE 0) key =
      Ok (n, d @ replicate (READ_CHUNK_SIZE - n) 0)"
    using P assms(2-4) mx by (simp add: run_simps)
  obtain f x' buf' where "buf_file_write p buf d (w\<lparr>inp := rest\<rparr>) = (Ok buf', w\<lparr>inp := rest, disk := f\<rparr>)"
    "same_except p (disk w) f" "fs_get f p = Some (FileNode x')" "x' @ buf' = x @ buf @ d"
    using buf_file_write_ok [of "w\<lparr>inp := rest\<rparr>" p x buf d] assms(6) by auto
  with r dec assms(3) show ?thesis
    by (intro exI [of _ f] exI [of _ x'] exI [of _ buf']) (simp add: recv_chunk_def run_simps)
qed

text \<open>
  Fed with the sealed chunks of \<open>d\<close>, the loop ends with the hash state of \<open>d\<close> and with \<open>d\<close>
  in the file and its buffer, and has consumed exactly those chunks.
\<close>

lemma recv_file_ok:
  assumes "channel_ok P key" "received \<le> file_size" "length d = unat file_size - unat received"
    "inp w = concat (map2 (sealed P key) rs (chunks READ_CHUNK_SIZE d)) @ rest"
    "length rs = length (chunks READ_CHUNK_SIZE d)" "\<forall>r \<in> set rs. length r = 12"
    "fs_get (disk w) p = Some (FileNode x)"
  shows "\<exists>f x' buf'. recv_file msg ctx P key p file_size received h buf w =
      (Ok (foldl (hasher_update P) h (chunks READ_CHUNK_SIZE d), buf'), w\<lparr>inp := rest, disk := f\<rparr>) \<and>
    same_except p (disk w) f \<and> fs_get f p = Some (FileNode x') \<and> x' @ buf' = x @ buf @ d"
  using assms
proof (induction "length d" arbitrary: d received rs w x h buf rule: less_induct)
  case less
  show ?case
  proof (cases "d = []")
    case True
    with less.prems(2,3) have "\<not> received < file_size" by (simp add: word_le_nat_alt word_less_nat_alt)
    with True less.prems show ?thesis
      by (intro exI [of _ "disk w"] exI [of _ x] exI [of _ buf]) (simp add: recv_file.simps)
  next
    case False
    let ?n = "chunk_len file_size received" and ?R = READ_CHUNK_SIZE
    have R: "0 < ?R" by (simp add: READ_CHUNK_SIZE_def)
    have lt: "received < file_size" using less.prems(2,3) False
      by (metis diff_self_eq_0 length_0_conv order_le_less)
    have n: "?n = min ?R (length d)"
      using less.prems(3) lt by (simp add: chunk_len_def unat_sub order_less_imp_le)
    have ch: "chunks ?R d = take ?R d # chunks ?R (drop ?R d)" using False R by (rule chunks_step)
    obtain r rs' where rs: "rs = r # rs'" using less.prems(5) ch by (cases rs) auto
    have i: "inp w = sealed P key r (take ?R d) @ (concat (map2 (sealed P key) rs' (chunks ?R (drop ?R d))) @ rest)"
      using less.prems(4) ch rs by simp
    have "length (take ?R d) = ?n" "?n \<le> ?R" "length r = 12" using n less.prems(6) rs by auto
    from recv_chunk_ok [OF less.prems(1) this(3,1,2) i less.prems(7), of msg ctx buf]
    obtain f x1 buf1 where c: "recv_chunk msg ctx P key p ?n buf w = (Ok (?n, take ?R d, buf1),
        w\<lparr>inp := concat (map2 (sealed P key) rs' (chunks ?R (drop ?R d))) @ rest, disk := f\<rparr>)"
      "same_except p (disk w) f" "fs_get f p = Some (FileNode x1)" "x1 @ buf1 = x @ buf @ take ?R d"
      by blast
    note adv = chunk_len_advance [OF lt refl]
    let ?w1 = "w\<lparr>inp := concat (map2 (sealed P key) rs' (chunks ?R (drop ?R d))) @ rest, disk := f\<rparr>"
    have "length (drop ?R d) < length d" using False R by simp
    moreover have "received + of_nat ?n \<le> file_size" using adv by (simp add: word_le_nat_alt)
    moreover have "length (drop ?R d) = unat file_size - unat (received + of_nat ?n)"
      using adv(2) n less.prems(3) by (simp add: min_def split: if_splits)
    ultimately obtain f2 x2 buf2 where r:
      "recv_file msg ctx P key p file_size (received + of_nat ?n) (hasher_update P h (take ?R d)) buf1 ?w1 =
        (Ok (foldl (hasher_update P) (hasher_update P h (take ?R d)) (chunks ?R (drop ?R d)), buf2),
         ?w1\<lparr>inp := rest, disk := f2\<rparr>)"
      "same_except p f f2" "fs_get f2 p = Some (FileNode x2)" "x2 @ buf2 = x1 @ buf1 @ drop ?R d"
      using less.hyps [of "drop ?R d" "received + of_nat ?n" ?w1 rs' x1 "hasher_update P h (take ?R d)" buf1]
        less.prems(1,5,6) rs ch c(3) by fastforce
    have "recv_file msg ctx P key p file_size received h buf w =
        (Ok (foldl (hasher_update P) h (chunks ?R d), buf2), w\<lparr>inp := rest, disk := f2\<rparr>)"
      using lt c(1) r(1) ch by (subst recv_file.simps) simp
    moreover have "x2 @ buf2 = x @ buf @ d"
      using r(4) c(4) by (metis append.assoc append_take_drop_id)
    ultimately show ?thesis using r(2,3) c(2) same_except_trans by blast
  qed
qed

text \<open>Whatever happens in the loop, it only consumes input, waits, and writes to its own file.\<close>

definition frame_of :: "path \<Rightarrow> 'a conn_scheme \<Rightarrow> 'a conn_scheme \<Rightarrow> bool" where
  "frame_of p w w' \<longleftrightarrow> (\<exists>i n f. w' = w\<lparr>inp := i, waited := n, disk := f\<rparr> \<and> same_except p (disk w) f)"

lemma frame_ofI: "w' = w\<lparr>inp := i, waited := n, disk := f\<rparr> \<Longrightarrow> same_except p (disk w) f \<Longrightarrow> frame_of p w w'"
  unfolding frame_of_def by blast

lemma frame_of_refl [simp]: "frame_of p w w"
  by (rule frame_ofI [where i = "inp w" and n = "waited w" and f = "disk w"]) simp_all

lemma frame_of_trans:
  assumes "frame_of p u v" "frame_of p v w"
  shows "frame_of p u w"
proof -
  obtain i n f where v: "v = u\<lparr>inp := i, waited := n, disk := f\<rparr>" "same_except p (disk u) f"
    using assms(1) unfolding frame_of_def by blast
  obtain i' n' f' where w: "w = v\<lparr>inp := i', waited := n', disk := f'\<rparr>" "same_except p (disk v) f'"
    using assms(2) unfolding frame_of_def by blast
  have "w = u\<lparr>inp := i', waited := n', disk := f'\<rparr>" using v(1) w(1) by simp
  moreover have "same_except p (disk u) f'" using v w(2) same_except_trans [of p "disk u" f f'] by simp
  ultimately show ?thesis by (rule frame_ofI)
qed

lemma read_exact_frame: "read_exact n w = (r, w') \<Longrightarrow> frame_of p w w'"
  by (auto simp: read_exact_def split: if_splits
      intro: frame_ofI [where n = "waited w" and f = "disk w" and i = "drop n (inp w)"]
        frame_ofI [where n = "waited w" and f = "disk w" and i = "[]"])

lemma timeout_frame:
  assumes "\<And>r w'. m w = (r, w') \<Longrightarrow> frame_of p w w'" "timeout d msg m w = (r, w')"
  shows "frame_of p w w'"
proof -
  obtain r1 w1 where m: "m w = (r1, w1)" by force
  then have f: "frame_of p w w1" by (rule assms(1))
  have "frame_of p w1 (w1\<lparr>waited := k\<rparr>)" for k
    by (rule frame_ofI [where i = "inp w1" and n = k and f = "disk w1"]) simp_all
  with f m assms(2) show ?thesis
    by (auto simp: timeout_def split: if_splits intro: frame_of_trans)
qed

lemma buf_file_write_frame: "buf_file_write p buf d w = (r, w') \<Longrightarrow> frame_of p w w'"
  by (auto simp: buf_file_write_def append_disk_def upd_state_def seq_def ret_def Let_def split: if_splits
      intro!: frame_ofI [where i = "inp w" and n = "waited w"])

lemma recv_chunk_frame:
  assumes "recv_chunk msg ctx P key p n buf w = (r, w')"
  shows "frame_of p w w'"
proof -
  let ?m = "timeout CHUNK_TIMEOUT msg (wrap_err ctx (read_exact (NONCE_LEN + n + TAG_LEN)))"
  obtain r1 w1 where m: "?m w = (r1, w1)" by force
  have "frame_of p w w1"
  proof (rule timeout_frame [OF _ m])
    show "frame_of p w v" if "wrap_err ctx (read_exact (NONCE_LEN + n + TAG_LEN)) w = (r, v)" for r v
      using that by (auto simp: wrap_err_def split: prod.splits res.splits intro: read_exact_frame)
  qed
  with assms m show ?thesis
    by (auto simp: recv_chunk_def seq_def lift_res_def ret_def split: prod.splits res.splits
        intro: frame_of_trans buf_file_write_frame)
qed

lemma recv_file_frame:
  "recv_file msg ctx P key p file_size received h buf w = (r, w') \<Longrightarrow> frame_of p w w'"
proof (induction msg ctx P key p file_size received h buf w arbitrary: r rule: recv_file.induct)
  case (1 msg ctx P key p file_size received h buf w)
  obtain r1 w1 where c: "recv_chunk msg ctx P key p (chunk_len file_size received) buf w = (r1, w1)" by force
  note f = recv_chunk_frame [OF c]
  show ?case
  proof (cases "received < file_size")
    case True
    show ?thesis
    proof (cases r1)
      case (Ok a)
      obtain k d b where a: "a = (k, d, b)" by (cases a)
      from 1(2) True c Ok a have "recv_file msg ctx P key p file_size (received + of_nat k) (hasher_update P h d) b w1 = (r, w')"
        by (subst (asm) recv_file.simps) simp
      with 1(1) True c Ok a have "frame_of p w1 w'" by auto
      with f show ?thesis by (rule frame_of_trans)
    qed (use 1(2) True c f in \<open>simp_all add: recv_file.simps [of msg ctx P key p file_size received]\<close>)
  qed (use 1(2) in \<open>simp add: recv_file.simps [of msg ctx P key p file_size received]\<close>)
qed

section \<open>What is sent\<close>

definition SEALED_CHUNK :: nat where
  "SEALED_CHUNK = READ_CHUNK_SIZE + NONCE_LEN + TAG_LEN"

text \<open>The state after more output: only the writer and the random source have moved.\<close>

definition wrote :: "bytes \<Rightarrow> 'a conn_scheme \<Rightarrow> 'a conn_scheme \<Rightarrow> bool" where
  "wrote d w w' \<longleftrightarrow> wire w' = wire w @ d \<and> (\<forall>n. writable n w' = writable (length d + n) w) \<and>
     (\<exists>s b r g. w' = w\<lparr>out_sent := s, out_buf := b, out_room := r, rng := g\<rparr>)"

lemma wrote_Nil [simp]: "wrote [] w w"
proof -
  have "w = w\<lparr>out_sent := out_sent w, out_buf := out_buf w, out_room := out_room w, rng := rng w\<rparr>" by simp
  then show ?thesis unfolding wrote_def by (metis append_Nil2 add_0 list.size(3))
qed

lemma wrote_room: "wrote d w w' \<Longrightarrow> writable (length d) w \<Longrightarrow> writable 0 w'"
  by (simp add: wrote_def)

lemma wrote_trans:
  assumes "wrote d u v" "wrote e v w"
  shows "wrote (d @ e) u w"
proof -
  obtain s b r g where v: "v = u\<lparr>out_sent := s, out_buf := b, out_room := r, rng := g\<rparr>"
    using assms(1) unfolding wrote_def by blast
  obtain s' b' r' g' where w: "w = v\<lparr>out_sent := s', out_buf := b', out_room := r', rng := g'\<rparr>"
    using assms(2) unfolding wrote_def by blast
  have "w = u\<lparr>out_sent := s', out_buf := b', out_room := r', rng := g'\<rparr>" using v w by simp
  moreover have "\<forall>n. writable n w = writable (length (d @ e) + n) u"
    using assms by (simp add: wrote_def add.assoc)
  ultimately show ?thesis using assms unfolding wrote_def by (metis append.assoc)
qed

lemma write_all_wrote:
  assumes "writable (length d) w"
  shows "\<exists>w'. write_all d w = (Ok (), w') \<and> wrote d w w'"
proof -
  obtain w' where w': "write_all d w = (Ok (), w')" "wire w' = wire w @ d"
    "w' = w\<lparr>out_sent := out_sent w', out_buf := out_buf w', out_room := out_room w'\<rparr>"
    "\<And>n. writable n w' = writable (length d + n) w"
    using write_all_wire [OF assms] by blast
  have "w' = w\<lparr>out_sent := out_sent w', out_buf := out_buf w', out_room := out_room w', rng := rng w\<rparr>"
    by (subst w'(3)) simp
  with w' show ?thesis unfolding wrote_def by blast
qed

lemma send_chunk_ok:
  assumes "channel_ok P key" "length c = READ_CHUNK_SIZE" "writable SEALED_CHUNK w"
  shows "\<exists>w' r. send_chunks msg ctx P key (c # cs) w = send_chunks msg ctx P key cs w' \<and>
    wrote (sealed P key r c) w w' \<and> length r = 12 \<and> length (sealed P key r c) = SEALED_CHUNK"
proof -
  let ?r = "map (rng w) [0..<12]" and ?w = "w\<lparr>rng := (\<lambda>i. rng w (i + 12))\<rparr>"
  have P: "aead_ok P" "length key = 32" using assms(1) by (simp_all add: channel_ok_def)
  have mx: "length c \<le> aead_max" using assms(2) by (simp add: aead_max_def READ_CHUNK_SIZE_def)
  have l: "length (sealed P key ?r c) = SEALED_CHUNK"
    using P assms(2) mx by (simp add: buf_simps SEALED_CHUNK_def NONCE_LEN_def TAG_LEN_def)
  have e: "encrypt_into P ?r c (replicate (READ_CHUNK_SIZE + NONCE_LEN + TAG_LEN) 0) key = Ok (SEALED_CHUNK, sealed P key ?r c)"
    using P assms(2) mx encrypt_into_exact [of P key ?r c "replicate (READ_CHUNK_SIZE + NONCE_LEN + TAG_LEN) 0"]
    by (simp add: SEALED_CHUNK_def NONCE_LEN_def TAG_LEN_def)
  have f: "fill_bytes NONCE_LEN w = (Ok ?r, ?w)" by (simp add: fill_bytes_def NONCE_LEN_def)
  obtain w' where w': "write_all (sealed P key ?r c) ?w = (Ok (), w')" "wrote (sealed P key ?r c) ?w w'"
    using write_all_wrote [of "sealed P key ?r c" ?w] assms(3) l by (auto simp: writable_def)
  then have wt: "waited w' = waited ?w" by (auto simp: wrote_def)
  have "wrote (sealed P key ?r c) w w'"
    using w'(2) by (auto simp: wrote_def wire_def writable_def)
  moreover have "send_chunks msg ctx P key (c # cs) w = send_chunks msg ctx P key cs w'"
    using f e w'(1) wt l by (simp add: run_simps)
  ultimately show ?thesis using l by (metis length_map length_upt minus_nat.diff_0)
qed

lemma length_sealed_chunks:
  assumes "channel_ok P key" "\<forall>c \<in> set cs. length c = READ_CHUNK_SIZE" "length rs = length cs" "\<forall>r \<in> set rs. length r = 12"
  shows "length (concat (map2 (sealed P key) rs cs)) = length cs * SEALED_CHUNK"
  using assms(3,2,4)
proof (induction rs cs rule: list_induct2)
  case (Cons r rs c cs)
  have "length (sealed P key r c) = SEALED_CHUNK"
    using assms(1) Cons.prems
    by (simp add: channel_ok_def length_sealed aead_max_def READ_CHUNK_SIZE_def SEALED_CHUNK_def NONCE_LEN_def TAG_LEN_def)
  with Cons show ?case by simp
qed simp

lemma send_chunks_ok:
  assumes "channel_ok P key" "\<forall>c \<in> set cs. length c = READ_CHUNK_SIZE" "writable (length cs * SEALED_CHUNK) w"
  shows "\<exists>w' rs. send_chunks msg ctx P key cs w = (Ok (), w') \<and> wrote (concat (map2 (sealed P key) rs cs)) w w' \<and>
    length rs = length cs \<and> (\<forall>r \<in> set rs. length r = 12)"
  using assms
proof (induction cs arbitrary: w)
  case Nil
  then show ?case
    by (intro exI [of _ w] exI [of _ "[]"]) (simp add: ret_def)
next
  case (Cons c cs)
  have "writable SEALED_CHUNK w" using Cons.prems(3) by (simp add: writable_def)
  with Cons.prems obtain w1 r where r: "send_chunks msg ctx P key (c # cs) w = send_chunks msg ctx P key cs w1"
    "wrote (sealed P key r c) w w1" "length r = 12" "length (sealed P key r c) = SEALED_CHUNK"
    using send_chunk_ok [of P key c w msg ctx cs] by auto
  have "writable (length cs * SEALED_CHUNK) w1"
    using r(2,4) Cons.prems(3) by (simp add: wrote_def)
  with Cons.IH [of w1] Cons.prems(1,2) obtain w' rs where "send_chunks msg ctx P key cs w1 = (Ok (), w')"
    "wrote (concat (map2 (sealed P key) rs cs)) w1 w'" "length rs = length cs" "\<forall>r \<in> set rs. length r = 12"
    by auto
  with r show ?case
    by (intro exI [of _ w'] exI [of _ "r # rs"]) (auto intro: wrote_trans)
qed

text \<open>
  A last chunk shorter than the buffer does not fill it, and \<open>encrypt_into\<close> then panics: nothing
  of that chunk is sent.
\<close>

lemma encrypt_into_short:
  assumes "channel_ok P key" "length nonce = 12" "length c < READ_CHUNK_SIZE"
  shows "encrypt_into P nonce c (replicate (READ_CHUNK_SIZE + NONCE_LEN + TAG_LEN) 0) key = Panic slice_len_panic"
proof -
  have "length c \<le> aead_max" using assms(3) by (simp add: aead_max_def READ_CHUNK_SIZE_def)
  with assms(1,2) obtain e t where "aead_seal P key nonce c = Some (e, t)" "length t = 16"
    unfolding channel_ok_def by (blast elim: aead_okE)
  with assms(3) show ?thesis by (simp add: encrypt_into_def NONCE_LEN_def TAG_LEN_def Let_def)
qed

lemma send_chunks_short:
  assumes "channel_ok P key" "\<forall>c \<in> set cs. length c = READ_CHUNK_SIZE" "length c < READ_CHUNK_SIZE"
    "writable (length cs * SEALED_CHUNK) w"
  shows "\<exists>w'. send_chunks msg ctx P key (cs @ [c]) w = (Panic slice_len_panic, w')"
  using assms
proof (induction cs arbitrary: w)
  case Nil
  then show ?case
    by (simp add: fill_bytes_def seq_def lift_res_def encrypt_into_short NONCE_LEN_def [symmetric])
next
  case (Cons d cs)
  have "writable SEALED_CHUNK w" using Cons.prems(4) by (simp add: writable_def)
  with Cons.prems obtain w1 r where r: "send_chunks msg ctx P key (d # (cs @ [c])) w = send_chunks msg ctx P key (cs @ [c]) w1"
    "wrote (sealed P key r d) w w1" "length (sealed P key r d) = SEALED_CHUNK"
    using send_chunk_ok [of P key d w msg ctx "cs @ [c]"] by auto
  have "writable (length cs * SEALED_CHUNK) w1" using r(2,3) Cons.prems(4) by (simp add: wrote_def)
  with Cons r(1) show ?case by simp
qed

section \<open>Receiving a whole file\<close>

text \<open>\<open>i\<close> is the sealed chunks of \<open>d\<close>, each under some nonce, and then \<open>rest\<close>.\<close>

definition sealed_stream :: "prims \<Rightarrow> bytes \<Rightarrow> bytes \<Rightarrow> bytes \<Rightarrow> bytes \<Rightarrow> bool" where
  "sealed_stream P key d i rest \<longleftrightarrow> (\<exists>rs. length rs = length (chunks READ_CHUNK_SIZE d) \<and> (\<forall>r \<in> set rs. length r = 12) \<and>
     i = concat (map2 (sealed P key) rs (chunks READ_CHUNK_SIZE d)) @ rest)"

lemma fs_do_Ok [run_simps]: "g (disk w) = Ok f \<Longrightarrow> fs_do g w = (Ok (), w\<lparr>disk := f\<rparr>)"
  by (simp add: fs_do_def)

lemma fs_do_Err [run_simps]: "g (disk w) = Err e \<Longrightarrow> fs_do g w = (Err e, w)"
  by (simp add: fs_do_def)

lemma fs_query_run [run_simps]: "fs_query g w = (g (disk w), w)"
  by (simp add: fs_query_def)

lemma receive_file_ok:
  assumes "channel_ok P key" "sha_ok P" "file_write p [] (disk w) = Ok f0" "length d = unat file_size"
    "sealed_stream P key d (inp w) rest"
  shows "\<exists>f. receive_file msg ctx P key p file_size w = (Ok (content_hash P d), w\<lparr>inp := rest, disk := f\<rparr>) \<and>
    (\<forall>q. fs_get f q = (if q = p then Some (FileNode d) else fs_get (disk w) q))"
proof -
  have g0: "fs_get f0 q = (if q = p then Some (FileNode []) else fs_get (disk w) q)" for q
    using assms(3) by (rule file_write_get)
  let ?w0 = "w\<lparr>disk := f0\<rparr>"
  obtain rs where rs: "length rs = length (chunks READ_CHUNK_SIZE d)" "\<forall>r \<in> set rs. length r = 12"
    "inp ?w0 = concat (map2 (sealed P key) rs (chunks READ_CHUNK_SIZE d)) @ rest"
    using assms(5) unfolding sealed_stream_def by auto
  obtain f x buf where r: "recv_file msg ctx P key p file_size 0 (hasher_new P) [] ?w0 =
      (Ok (foldl (hasher_update P) (hasher_new P) (chunks READ_CHUNK_SIZE d), buf), ?w0\<lparr>inp := rest, disk := f\<rparr>)"
    "same_except p f0 f" "fs_get f p = Some (FileNode x)" "x @ buf = d"
    using recv_file_ok [OF assms(1) _ _ rs(3,1,2), of 0 file_size p "[]" msg ctx "hasher_new P" "[]"] g0 assms(4)
    by auto
  let ?f = "file_append p buf f"
  have R: "0 < READ_CHUNK_SIZE" by (simp add: READ_CHUNK_SIZE_def)
  have h: "hex_encode P (hasher_finalize P (foldl (hasher_update P) (hasher_new P) (chunks READ_CHUNK_SIZE d)))
      = content_hash P d"
    using hash_chunks_concat [OF assms(2), of "chunks READ_CHUNK_SIZE d"] R by (simp add: hash_chunks_def)
  have "fs_get ?f q = (if q = p then Some (FileNode d) else fs_get (disk w) q)" for q
    using r(2-4) g0 [of q] by (auto simp: file_append_def same_except_def)
  with assms(3) r(1) h show ?thesis
    by (intro exI [of _ ?f]) (simp add: receive_file_def append_disk_def run_simps)
qed

lemma receive_file_frame:
  assumes "receive_file msg ctx P key p file_size w = (r, w')"
  shows "frame_of p w w'"
proof (cases "file_write p [] (disk w)")
  case (Ok f0)
  then have "same_except p (disk w) f0" by (auto simp: same_except_def file_write_get)
  then have w0: "frame_of p w (w\<lparr>disk := f0\<rparr>)"
    by (intro frame_ofI [where i = "inp w" and n = "waited w"]) simp_all
  obtain r1 w1 where r: "recv_file msg ctx P key p file_size 0 (hasher_new P) [] (w\<lparr>disk := f0\<rparr>) = (r1, w1)" by force
  with w0 have w1: "frame_of p w w1" using recv_file_frame frame_of_trans by blast
  have "frame_of p w1 (w1\<lparr>disk := file_append p b (disk w1)\<rparr>)" for b
    by (rule frame_ofI [where i = "inp w1" and n = "waited w1" and f = "file_append p b (disk w1)"]) simp_all
  with assms Ok r w1 show ?thesis
    by (auto simp: receive_file_def seq_def fs_do_def append_disk_def upd_state_def ret_def
        split: res.splits prod.splits intro: frame_of_trans)
qed (use assms in \<open>auto simp: receive_file_def seq_def fs_do_def\<close>)

section \<open>What a completed transfer leaves, whatever the peer sent\<close>

lemma read_exact_disk: "read_exact n w = (r, w') \<Longrightarrow> disk w' = disk w"
  by (auto simp: read_exact_def split: if_splits)

lemma recv_chunk_received:
  assumes "recv_chunk msg ctx P key p n buf w = (Ok (k, d, buf'), w')" "fs_get (disk w) p = Some (FileNode x)"
  obtains x' where "fs_get (disk w') p = Some (FileNode x')" "x' @ buf' = x @ buf @ d"
proof -
  obtain enc w1 where enc: "timeout CHUNK_TIMEOUT msg (wrap_err ctx (read_exact (NONCE_LEN + n + TAG_LEN))) w = (Ok enc, w1)"
    and rest: "seq (lift_res (decrypt_into P enc (replicate READ_CHUNK_SIZE 0) key)) (\<lambda>(dec_len, dec_buf).
      seq (buf_file_write p buf (take dec_len dec_buf)) (\<lambda>buf. ret (dec_len, take dec_len dec_buf, buf))) w1 = (Ok (k, d, buf'), w')"
    using assms(1) unfolding recv_chunk_def by (rule seq_OkE)
  have "disk w1 = disk w" using read_exact_disk [OF wrap_err_OkD [OF timeout_OkD [OF enc]]] .
  with assms(2) have w1: "fs_get (disk w1) p = Some (FileNode x)" by simp
  have "buf_file_write p buf d w1 = (Ok buf', w')"
    using rest by (auto elim!: seq_OkE simp: lift_res_def ret_def)
  with buf_file_write_ok [OF w1, of buf d] that show thesis by auto
qed

lemma recv_file_received:
  assumes "recv_file msg ctx P key p file_size received h buf w = (Ok (h', buf'), w')" "fs_get (disk w) p = Some (FileNode x)"
  shows "\<exists>cs x'. h' = foldl (hasher_update P) h cs \<and> fs_get (disk w') p = Some (FileNode x') \<and> x' @ buf' = x @ buf @ concat cs"
  using assms
proof (induction msg ctx P key p file_size received h buf w arbitrary: x rule: recv_file.induct)
  case (1 msg ctx P key p file_size received h buf w)
  show ?case
  proof (cases "received < file_size")
    case True
    obtain r1 w1 where c: "recv_chunk msg ctx P key p (chunk_len file_size received) buf w = (r1, w1)" by force
    from 1(2) True c obtain k d b where r1: "r1 = Ok (k, d, b)" by (cases r1) (auto simp: recv_file.simps [of msg ctx P key p file_size received])
    with c have c: "recv_chunk msg ctx P key p (chunk_len file_size received) buf w = (Ok (k, d, b), w1)" by simp
    obtain x1 where x1: "fs_get (disk w1) p = Some (FileNode x1)" "x1 @ b = x @ buf @ d"
      using recv_chunk_received [OF c 1(3)] .
    from 1(2) True c have "recv_file msg ctx P key p file_size (received + of_nat k) (hasher_update P h d) b w1 = (Ok (h', buf'), w')"
      by (subst (asm) recv_file.simps) simp
    from 1(1) [OF True c [symmetric] refl refl refl this x1(1)] obtain cs x' where
      "h' = foldl (hasher_update P) (hasher_update P h d) cs" "fs_get (disk w') p = Some (FileNode x')" "x' @ buf' = x1 @ b @ concat cs"
      by blast
    moreover have "x1 @ b @ concat cs = x @ buf @ concat (d # cs)" using x1(2) by (simp flip: append_assoc)
    ultimately show ?thesis by (intro exI [of _ "d # cs"] exI [of _ x']) simp
  next
    case False
    with 1(2,3) show ?thesis
      by (intro exI [of _ "[]"] exI [of _ x]) (simp add: recv_file.simps [of msg ctx P key p file_size received])
  qed
qed

lemma receive_file_received:
  assumes "receive_file msg ctx P key p file_size w = (Ok hash, w')" "sha_ok P"
  obtains d where "hash = content_hash P d" "fs_get (disk w') p = Some (FileNode d)"
proof -
  obtain w0 where w0: "fs_do (file_write p []) w = (Ok (), w0)"
    and r: "seq (recv_file msg ctx P key p file_size 0 (hasher_new P) []) (\<lambda>(hasher, buf).
      seq (append_disk p buf) (\<lambda>_. ret (hex_encode P (hasher_finalize P hasher)))) w0 = (Ok hash, w')"
    using assms(1) unfolding receive_file_def by (auto elim: seq_OkE)
  have f0: "fs_get (disk w0) p = Some (FileNode [])"
    using w0 by (auto simp: fs_do_def file_write_get split: res.splits)
  obtain h buf w1 where f: "recv_file msg ctx P key p file_size 0 (hasher_new P) [] w0 = (Ok (h, buf), w1)"
    and t: "seq (append_disk p buf) (\<lambda>_. ret (hex_encode P (hasher_finalize P h))) w1 = (Ok hash, w')"
    using r by (rule seq_OkE) (auto split: prod.splits)
  obtain cs x where c: "h = foldl (hasher_update P) (hasher_new P) cs" "fs_get (disk w1) p = Some (FileNode x)" "x @ buf = concat cs"
    using recv_file_received [OF f f0] by auto
  have "w' = w1\<lparr>disk := file_append p buf (disk w1)\<rparr>" "hash = hash_chunks P cs"
    using t c(1) by (auto simp: append_disk_def upd_state_def seq_def ret_def hash_chunks_def)
  with c(2,3) hash_chunks_concat [OF assms(2)] that [of "concat cs"] show thesis by (simp add: file_append_get)
qed

section \<open>A transfer ends\<close>

text \<open>The outcome of a step that gives up after at most \<open>k\<close> seconds and, when it goes on, has not waited.\<close>

definition prompt :: "nat \<Rightarrow> 'a conn_scheme \<Rightarrow> 'b res \<times> 'a conn_scheme \<Rightarrow> bool" where
  "prompt k w o1 \<longleftrightarrow> fst o1 \<noteq> Pending \<and> waited (snd o1) \<le> waited w + k \<and> (\<forall>a. fst o1 = Ok a \<longrightarrow> waited (snd o1) = waited w)"

lemma prompt_seq: "prompt k w (m w) \<Longrightarrow> (\<And>a w'. m w = (Ok a, w') \<Longrightarrow> prompt k w' (f a w')) \<Longrightarrow> prompt k w (seq m f w)"
  by (cases "m w"; cases "fst (m w)") (auto simp: prompt_def seq_def)

lemma prompt_read: "prompt k w (timeout k msg (wrap_err ctx (read_exact n)) w)"
  by (auto simp: prompt_def timeout_def wrap_err_def read_exact_def split: if_splits res.splits prod.splits)

lemma prompt_pure: "r \<noteq> Pending \<Longrightarrow> prompt k w (lift_res r w)" "prompt k w (ret a w)" "prompt k w (append_disk p d w)"
  by (simp_all add: prompt_def lift_res_def ret_def append_disk_def upd_state_def)

lemma prompt_buf: "prompt k w (buf_file_write p buf d w)"
  unfolding buf_file_write_def Let_def
  by (intro prompt_seq) (auto intro!: prompt_seq prompt_pure)

lemma decrypt_returns: "decrypt_into P a b key \<noteq> Pending"
  by (auto simp: decrypt_into_def Let_def split: option.splits)

lemma recv_chunk_prompt: "prompt CHUNK_TIMEOUT w (recv_chunk msg ctx P key p n buf w)"
  unfolding recv_chunk_def
  by (intro prompt_seq prompt_read) (auto intro!: prompt_seq prompt_pure prompt_buf simp: decrypt_returns)

lemma recv_file_prompt: "prompt CHUNK_TIMEOUT w (recv_file msg ctx P key p file_size received h buf w)"
proof (induction msg ctx P key p file_size received h buf w rule: recv_file.induct)
  case (1 msg ctx P key p file_size received h buf w)
  obtain r1 w1 where c: "recv_chunk msg ctx P key p (chunk_len file_size received) buf w = (r1, w1)" by force
  note q = recv_chunk_prompt [of w msg ctx P key p "chunk_len file_size received" buf, unfolded c]
  show ?case
  proof (cases "received < file_size \<and> (\<exists>a. r1 = Ok a)")
    case True
    then obtain k d b where a: "received < file_size" "r1 = Ok (k, d, b)" by auto
    have "prompt CHUNK_TIMEOUT w1 (recv_file msg ctx P key p file_size (received + of_nat k) (hasher_update P h d) b w1)"
      using 1 [OF a(1) c [unfolded a(2), symmetric] refl refl refl] .
    with q a c show ?thesis by (subst recv_file.simps) (simp add: prompt_def)
  next
    case False
    with q c show ?thesis
      by (subst recv_file.simps) (auto simp: prompt_def split: res.splits)
  qed
qed


end
