(* ===== verification/Rel.thy ===== *)
theory Rel
  imports Bulk
begin

text \<open>
  What the I/O of a connection may change. A relation that allows every change of the connection
  itself (buffers, sources, counters) but may constrain the disk and whatever extends the record
  holds across every operation of the framing layer; across a file transfer it does when it also
  allows writes to that file.
\<close>

locale io_rel = run_rel R for R :: "'a conn_scheme \<Rightarrow> 'a conn_scheme \<Rightarrow> bool" +
  assumes R_io: "disk w' = disk w \<Longrightarrow> conn.more w' = conn.more w \<Longrightarrow> R w w'"
begin

lemma steps_timeout: "steps R m \<Longrightarrow> steps R (timeout d msg m)"
proof (rule stepsI)
  fix s r s' assume m: "steps R m" and t: "timeout d msg m s = (r, s')"
  obtain x u where x: "m s = (x, u)" by force
  have "R u (u\<lparr>waited := k\<rparr>)" for k by (rule R_io) simp_all
  with stepsD [OF m x] t x show "R s s'" by (auto simp: timeout_def split: if_splits intro: R_trans)
qed

lemma steps_conn:
  "steps R (read_exact n)" "steps R (push_out d)" "steps R flush" "steps R (fill_bytes n)"
  "steps R instant_now" "steps R (ensure_pool n)"
  by (auto intro!: stepsI R_io simp: read_exact_def push_out_def flush_def fill_bytes_def instant_now_def
      ensure_pool_def upd_state_def split: if_splits prod.splits)

lemma steps_io_upd: "(\<And>s. disk (g s) = disk s) \<Longrightarrow> (\<And>s. conn.more (g s) = conn.more s) \<Longrightarrow> steps R (upd_state g)"
  by (rule steps_upd) (rule R_io)

lemma steps_write_all: "steps R (write_all d)" "steps R shutdown"
  by (auto simp: write_all_def shutdown_def intro!: steps_rules steps_conn steps_io_upd)

lemma steps_read_frame_length: "steps R read_frame_length"
  by (auto simp: read_frame_length_def Let_def intro!: steps_rules steps_conn steps_timeout)

lemma steps_frames:
  "steps R (read_raw_data_into)" "steps R (write_raw_frame_into d)"
  "steps R (read_encrypt_data_into P key)" "steps R (write_encrypt_frame_into P d key)"
  by (auto simp: read_raw_data_into_def write_raw_frame_into_def read_encrypt_data_into_def
      write_encrypt_frame_into_def Let_def
      intro!: steps_rules steps_conn steps_io_upd steps_write_all steps_read_frame_length)

lemma steps_responses:
  "steps R (read_headers P key)" "steps R (send_success P c x key)" "steps R (send_warn P h key)"
  "steps R (send_failed P e key)"
  by (auto simp: read_headers_def send_success_def send_warn_def send_failed_def
      intro!: steps_rules steps_frames steps_timeout steps_write_all)

lemma steps_send_chunks: "steps R (send_chunks msg ctx P key cs)"
  by (induction cs) (auto intro!: steps_rules steps_conn steps_timeout steps_write_all)

lemmas steps_io = steps_conn steps_write_all steps_frames steps_responses steps_send_chunks

lemma steps_fs_query: "steps R (fs_query g)"
  by (simp add: steps_def fs_query_def R_refl)

lemma steps_fs_do: "(\<And>w f. g (disk w) = Ok f \<Longrightarrow> R w (w\<lparr>disk := f\<rparr>)) \<Longrightarrow> steps R (fs_do g)"
  by (auto simp: steps_def fs_do_def R_refl split: res.splits)

lemma steps_receive_file:
  assumes "\<And>w f. same_except p (disk w) f \<Longrightarrow> R w (w\<lparr>disk := f\<rparr>)"
  shows "steps R (receive_file msg ctx P key p n)"
proof (rule stepsI)
  fix w w' :: "'a conn_scheme" and r assume "receive_file msg ctx P key p n w = (r, w')"
  then have "frame_of p w w'" by (rule receive_file_frame)
  then obtain i k f where w': "w' = w\<lparr>inp := i, waited := k, disk := f\<rparr>" "same_except p (disk w) f"
    unfolding frame_of_def by blast
  have "R (w\<lparr>disk := f\<rparr>) w'" using w'(1) by (intro R_io) simp_all
  with assms [OF w'(2)] show "R w w'" by (rule R_trans)
qed

end

section \<open>Reading only\<close>

interpretation rd: io_rel "\<lambda>w w'. disk w' = disk w"
  by unfold_locales auto

interpretation mr: io_rel "\<lambda>w w'. conn.more w' = conn.more w"
  by unfold_locales auto

lemma run_rel_option: "run_rel R \<Longrightarrow> steps R m \<Longrightarrow> (\<And>a. steps R (f a)) \<Longrightarrow> steps R (case x of None \<Rightarrow> m | Some a \<Rightarrow> f a)"
  by (cases x) simp_all

section \<open>Changes of the disk\<close>

text \<open>Outside \<open>A\<close> nothing changes, except that directories on the way to \<open>dir\<close> may appear.\<close>

definition only_changes :: "path \<Rightarrow> path set \<Rightarrow> fs \<Rightarrow> fs \<Rightarrow> bool" where
  "only_changes dir A f f' \<longleftrightarrow> (\<forall>q. q \<notin> A \<longrightarrow> fs_get f' q = fs_get f q \<or>
     (prefix q dir \<and> fs_get f q = None \<and> fs_get f' q = Some DirNode))"

lemma only_changes_refl [simp]: "only_changes dir A f f"
  by (simp add: only_changes_def)

lemma only_changes_trans: "only_changes dir A f g \<Longrightarrow> only_changes dir A g h \<Longrightarrow> only_changes dir A f h"
  unfolding only_changes_def by (metis option.distinct(1))

interpretation ds: io_rel "\<lambda>w w'. only_changes dir A (disk w) (disk w')" for dir A
  by unfold_locales (auto intro: only_changes_trans)

lemma only_changes_dirs: "create_dir_all dir f = Ok f' \<Longrightarrow> only_changes dir A f f'"
  by (auto simp: only_changes_def create_dir_all_get)

lemma only_changes_same: "same_except p f f' \<Longrightarrow> p \<in> A \<Longrightarrow> only_changes dir A f f'"
  by (auto simp: only_changes_def same_except_def)

lemma only_changes_remove: "remove_file p f = Ok f' \<Longrightarrow> p \<in> A \<Longrightarrow> only_changes dir A f f'"
  by (auto simp: only_changes_def remove_file_get)

lemma only_changes_write: "file_write p d f = Ok f' \<Longrightarrow> p \<in> A \<Longrightarrow> only_changes dir A f f'"
  by (auto simp: only_changes_def file_write_get)

lemma only_changes_metadata: "MetadataFile_save_to_disk P m p f = Ok f' \<Longrightarrow> p \<in> A \<Longrightarrow> only_changes dir A f f'"
  by (auto simp: MetadataFile_save_to_disk_def of_sum_def intro: only_changes_write split: sum.splits)

lemmas only_changes_intros = only_changes_dirs only_changes_same only_changes_remove only_changes_write
  only_changes_metadata

lemma steps_fs_changes:
  "(\<And>f f'. g f = Ok f' \<Longrightarrow> only_changes dir A f f') \<Longrightarrow>
   steps (\<lambda>w w'. only_changes dir A (disk w) (disk w')) (fs_do g)"
  by (rule ds.steps_fs_do) simp

lemma steps_receive_changes:
  "p \<in> A \<Longrightarrow> steps (\<lambda>w w'. only_changes dir A (disk w) (disk w')) (receive_file msg ctx P key p n)"
  by (rule ds.steps_receive_file) (simp add: only_changes_same)

end
