(* ===== verification/Locks.thy ===== *)
theory Locks
  imports Prelude
begin

text \<open>
  The per-file locks of \<^verbatim>\<open>src/lib.rs\<close> (\<^verbatim>\<open>SHARED_FILE_LOCK\<close>, \<^verbatim>\<open>hold_file_lock\<close>,
  \<^verbatim>\<open>release_file_lock\<close>) and the way \<^verbatim>\<open>handle_upload\<close> and \<^verbatim>\<open>handle_download\<close> use them.
  An \<^verbatim>\<open>Arc<RwLock<()>>\<close> is an address into a heap of locks, so that two tasks share a lock only
  when they hold the same address. The concurrent use is a step relation over the requests being
  served, interleaved in any order.
\<close>

section \<open>Locks and the lock table\<close>

record rwlock =
  rw_writer :: bool
  rw_readers :: nat

record locks =
  lk_map :: "string \<rightharpoonup> nat"
  lk_heap :: "nat \<Rightarrow> rwlock"
  lk_next :: nat

definition free_lock :: rwlock where
  "free_lock = \<lparr>rw_writer = False, rw_readers = 0\<rparr>"

definition no_locks :: locks where
  "no_locks = \<lparr>lk_map = Map.empty, lk_heap = (\<lambda>_. free_lock), lk_next = 0\<rparr>"

definition hold_file_lock :: "string \<Rightarrow> locks \<Rightarrow> nat \<times> locks" where
  "hold_file_lock file_id lk = (case lk_map lk file_id of
     Some l \<Rightarrow> (l, lk)
   | None \<Rightarrow> let l = lk_next lk in
       (l, lk\<lparr>lk_map := (lk_map lk)(file_id \<mapsto> l), lk_heap := (lk_heap lk)(l := free_lock), lk_next := Suc l\<rparr>))"

definition release_file_lock :: "string \<Rightarrow> locks \<Rightarrow> locks" where
  "release_file_lock file_id lk = lk\<lparr>lk_map := (lk_map lk)(file_id := None)\<rparr>"

text \<open>tokio admits at most \<^verbatim>\<open>u32::MAX >> 3\<close> readers of one lock.\<close>

definition MAX_READS :: nat where
  "MAX_READS = 536870911"

definition try_write :: "nat \<Rightarrow> locks \<Rightarrow> locks option" where
  "try_write l lk = (let r = lk_heap lk l in
     if rw_writer r \<or> rw_readers r \<noteq> 0 then None
     else Some (lk\<lparr>lk_heap := (lk_heap lk)(l := r\<lparr>rw_writer := True\<rparr>)\<rparr>))"

definition try_read :: "nat \<Rightarrow> locks \<Rightarrow> locks option" where
  "try_read l lk = (let r = lk_heap lk l in
     if rw_writer r \<or> rw_readers r \<ge> MAX_READS then None
     else Some (lk\<lparr>lk_heap := (lk_heap lk)(l := r\<lparr>rw_readers := Suc (rw_readers r)\<rparr>)\<rparr>))"

definition drop_write :: "nat \<Rightarrow> locks \<Rightarrow> locks" where
  "drop_write l lk = lk\<lparr>lk_heap := (lk_heap lk)(l := (lk_heap lk l)\<lparr>rw_writer := False\<rparr>)\<rparr>"

definition drop_read :: "nat \<Rightarrow> locks \<Rightarrow> locks" where
  "drop_read l lk = lk\<lparr>lk_heap := (lk_heap lk)(l := (lk_heap lk l)\<lparr>rw_readers := rw_readers (lk_heap lk l) - 1\<rparr>)\<rparr>"

definition try_lock :: "bool \<Rightarrow> nat \<Rightarrow> locks \<Rightarrow> locks option" where
  "try_lock w = (if w then try_write else try_read)"

definition drop_lock :: "bool \<Rightarrow> nat \<Rightarrow> locks \<Rightarrow> locks" where
  "drop_lock w = (if w then drop_write else drop_read)"

section \<open>Requests served concurrently\<close>

text \<open>
  A request (an upload when \<open>t_write\<close>) takes the lock of its file out of the table, tries it, does
  its work while it holds the guard, drops the guard, removes the table's entry. When the lock is
  taken it answers 409 and ends; an error or the connection's lifetime limit ends it with the guard
  dropped and the entry left in place.
\<close>

datatype phase = Idle | Got nat | Active nat | Dropped | Finished

record task =
  t_file :: string
  t_write :: bool
  t_phase :: phase

record lsys =
  sys_locks :: locks
  sys_tasks :: "task list"

datatype lock_event = LHold nat | LTry nat | LDrop nat | LRelease string | LAbort nat

definition set_phase :: "nat \<Rightarrow> phase \<Rightarrow> lsys \<Rightarrow> lsys" where
  "set_phase i p s = s\<lparr>sys_tasks := (sys_tasks s)[i := (sys_tasks s ! i)\<lparr>t_phase := p\<rparr>]\<rparr>"

definition set_locks :: "locks \<Rightarrow> lsys \<Rightarrow> lsys" where
  "set_locks lk s = s\<lparr>sys_locks := lk\<rparr>"

definition in_phase :: "lsys \<Rightarrow> nat \<Rightarrow> phase \<Rightarrow> bool" where
  "in_phase s i p \<longleftrightarrow> i < length (sys_tasks s) \<and> t_phase (sys_tasks s ! i) = p"

inductive lock_step :: "lock_event \<Rightarrow> lsys \<Rightarrow> lsys \<Rightarrow> bool" where
  st_hold: "in_phase s i Idle \<Longrightarrow> hold_file_lock (t_file (sys_tasks s ! i)) (sys_locks s) = (l, lk) \<Longrightarrow>
     lock_step (LHold i) s (set_locks lk (set_phase i (Got l) s))"
| st_taken: "in_phase s i (Got l) \<Longrightarrow> try_lock (t_write (sys_tasks s ! i)) l (sys_locks s) = None \<Longrightarrow>
     lock_step (LTry i) s (set_phase i Finished s)"
| st_enter: "in_phase s i (Got l) \<Longrightarrow> try_lock (t_write (sys_tasks s ! i)) l (sys_locks s) = Some lk \<Longrightarrow>
     lock_step (LTry i) s (set_locks lk (set_phase i (Active l) s))"
| st_drop: "in_phase s i (Active l) \<Longrightarrow>
     lock_step (LDrop i) s (set_locks (drop_lock (t_write (sys_tasks s ! i)) l (sys_locks s)) (set_phase i Dropped s))"
| st_release: "in_phase s i Dropped \<Longrightarrow>
     lock_step (LRelease (t_file (sys_tasks s ! i))) s
       (set_locks (release_file_lock (t_file (sys_tasks s ! i)) (sys_locks s)) (set_phase i Finished s))"
| st_abort: "in_phase s i (Active l) \<Longrightarrow>
     lock_step (LAbort i) s (set_locks (drop_lock (t_write (sys_tasks s ! i)) l (sys_locks s)) (set_phase i Finished s))"

inductive_cases lock_stepE: "lock_step e s s'"

text \<open>The requests a server starts from: a list of files and kinds, none of them begun.\<close>

definition lock_start :: "(string \<times> bool) list \<Rightarrow> lsys" where
  "lock_start reqs = \<lparr>sys_locks = no_locks,
     sys_tasks = map (\<lambda>(f, w). \<lparr>t_file = f, t_write = w, t_phase = Idle\<rparr>) reqs\<rparr>"

text \<open>The next regular step of one task, and a schedule of such steps.\<close>

definition task_next :: "nat \<Rightarrow> lsys \<Rightarrow> (lock_event \<times> lsys) option" where
  "task_next i s = (if length (sys_tasks s) \<le> i then None else
     let t = sys_tasks s ! i in
     case t_phase t of
       Idle \<Rightarrow> (case hold_file_lock (t_file t) (sys_locks s) of (l, lk) \<Rightarrow>
                  Some (LHold i, set_locks lk (set_phase i (Got l) s)))
     | Got l \<Rightarrow> (case try_lock (t_write t) l (sys_locks s) of
                  None \<Rightarrow> Some (LTry i, set_phase i Finished s)
                | Some lk \<Rightarrow> Some (LTry i, set_locks lk (set_phase i (Active l) s)))
     | Active l \<Rightarrow> Some (LDrop i, set_locks (drop_lock (t_write t) l (sys_locks s)) (set_phase i Dropped s))
     | Dropped \<Rightarrow> Some (LRelease (t_file t),
                  set_locks (release_file_lock (t_file t) (sys_locks s)) (set_phase i Finished s))
     | Finished \<Rightarrow> None)"

fun schedule :: "nat list \<Rightarrow> lsys \<Rightarrow> lock_event list \<times> lsys" where
  "schedule [] s = ([], s)"
| "schedule (i # is) s = (case task_next i s of
     None \<Rightarrow> schedule is s
   | Some (e, s') \<Rightarrow> (case schedule is s' of (es, s'') \<Rightarrow> (e # es, s'')))"

lemma task_next_step: "task_next i s = Some (e, s') \<Longrightarrow> lock_step e s s'"
  by (auto simp: task_next_def Let_def in_phase_def
      split: if_splits phase.splits prod.splits option.splits intro: lock_step.intros)

lemma schedule_runs:
  "lrun s0 lock_step es0 s \<Longrightarrow> schedule is s = (es, s') \<Longrightarrow> lrun s0 lock_step (es0 @ es) s'"
proof (induction "is" arbitrary: es0 s es)
  case (Cons i "is")
  show ?case
  proof (cases "task_next i s")
    case None
    with Cons show ?thesis by simp
  next
    case (Some a)
    obtain e t where a: "a = (e, t)" by force
    obtain es1 where es: "schedule is t = (es1, s')" "es = e # es1"
      using Cons.prems(2) Some a by (auto split: prod.splits)
    have "lrun s0 lock_step (es0 @ [e]) t"
      using Cons.prems(1) task_next_step [of i s e t] Some a by (auto intro: lrun_step)
    from Cons.IH [OF this es(1)] es(2) show ?thesis by simp
  qed
qed simp

definition demo_sched :: "(string \<times> bool) list \<Rightarrow> nat list \<Rightarrow> lsys" where
  "demo_sched reqs is = snd (schedule is (lock_start reqs))"

lemma demo_sched_run:
  "lrun (lock_start reqs) lock_step (fst (schedule is (lock_start reqs))) (demo_sched reqs is)"
  using schedule_runs [OF lrun_start [of "lock_start reqs"], of "is"]
  by (cases "schedule is (lock_start reqs)") (auto simp: demo_sched_def)

lemmas sched_eval = demo_sched_def task_next_def lock_start_def no_locks_def hold_file_lock_def
  try_lock_def try_write_def try_read_def drop_lock_def drop_write_def drop_read_def
  release_file_lock_def set_phase_def set_locks_def in_phase_def free_lock_def MAX_READS_def

section \<open>Invariants\<close>

definition holders :: "bool \<Rightarrow> nat \<Rightarrow> lsys \<Rightarrow> nat set" where
  "holders w l s = {i. in_phase s i (Active l) \<and> t_write (sys_tasks s ! i) = w}"

text \<open>Each lock records exactly the tasks that hold its guard, one writer or any number of readers.\<close>

definition lock_sound :: "lsys \<Rightarrow> nat \<Rightarrow> bool" where
  "lock_sound s l \<longleftrightarrow>
     (rw_writer (lk_heap (sys_locks s) l) \<longleftrightarrow> holders True l s \<noteq> {}) \<and>
     rw_readers (lk_heap (sys_locks s) l) = card (holders False l s) \<and>
     card (holders True l s) \<le> 1 \<and> (holders True l s = {} \<or> holders False l s = {})"

text \<open>Addresses in use have been allocated.\<close>

definition allocated :: "lsys \<Rightarrow> bool" where
  "allocated s \<longleftrightarrow> (\<forall>f l. lk_map (sys_locks s) f = Some l \<longrightarrow> l < lk_next (sys_locks s)) \<and>
     (\<forall>i l. in_phase s i (Got l) \<or> in_phase s i (Active l) \<longrightarrow> l < lk_next (sys_locks s))"

definition locks_inv :: "lsys \<Rightarrow> bool" where
  "locks_inv s \<longleftrightarrow> allocated s \<and> (\<forall>l. lock_sound s l)"

lemma in_phase_set_phase:
  "i < length (sys_tasks s) \<Longrightarrow> in_phase (set_phase i p s) j q = (if i = j then p = q else in_phase s j q)"
  by (auto simp: in_phase_def set_phase_def)

lemma nth_set_phase: "sys_tasks (set_phase i p s) ! j =
    (if i = j \<and> i < length (sys_tasks s) then (sys_tasks s ! j)\<lparr>t_phase := p\<rparr> else sys_tasks s ! j)"
  by (cases "i < length (sys_tasks s)") (auto simp: set_phase_def list_update_beyond)

lemma task_set_phase [simp]:
  "t_write (sys_tasks (set_phase i p s) ! j) = t_write (sys_tasks s ! j)"
  "t_file (sys_tasks (set_phase i p s) ! j) = t_file (sys_tasks s ! j)"
  "sys_locks (set_phase i p s) = sys_locks s"
  "sys_locks (set_locks lk s) = lk" "sys_tasks (set_locks lk s) = sys_tasks s"
  "in_phase (set_locks lk s) j q = in_phase s j q"
  "holders w l (set_locks lk s) = holders w l s"
  by (simp_all add: nth_set_phase) (simp_all add: set_phase_def set_locks_def in_phase_def holders_def)

lemma finite_holders [simp]: "finite (holders w l s)"
  by (rule finite_subset [of _ "{..<length (sys_tasks s)}"]) (auto simp: holders_def in_phase_def)

lemma holders_set_phase:
  assumes "i < length (sys_tasks s)"
  shows "holders w l (set_phase i p s) =
    (if p = Active l \<and> t_write (sys_tasks s ! i) = w then insert i (holders w l s) else holders w l s - {i})"
  using assms by (auto simp: holders_def in_phase_set_phase split: if_splits)

lemma in_phase_lt: "in_phase s i p \<Longrightarrow> i < length (sys_tasks s)"
  by (simp add: in_phase_def)

text \<open>A task that is not at work holds nothing; one that is holds its lock and no other.\<close>

lemma holders_other: "in_phase s i p \<Longrightarrow> p \<noteq> Active l \<Longrightarrow> i \<notin> holders w l s"
  by (auto simp: holders_def in_phase_def)

lemma holders_self: "in_phase s i (Active l) \<Longrightarrow> i \<in> holders (t_write (sys_tasks s ! i)) l s"
  by (simp add: holders_def)

section \<open>Every step keeps the invariant\<close>

lemma hold_file_lock_cases:
  assumes "hold_file_lock f lk = (l, lk')"
  obtains (known) "lk_map lk f = Some l" "lk' = lk"
  | (fresh) "lk_map lk f = None" "l = lk_next lk"
      "lk' = lk\<lparr>lk_map := (lk_map lk)(f \<mapsto> l), lk_heap := (lk_heap lk)(l := free_lock), lk_next := Suc l\<rparr>"
  using assms by (auto simp: hold_file_lock_def Let_def split: option.splits)

text \<open>Moving a task between phases in which it holds nothing does not touch any lock.\<close>

lemma lock_sound_idle:
  assumes "lock_sound s l" "in_phase s i p" "\<And>l. p \<noteq> Active l" "\<And>l. q \<noteq> Active l"
    "lk_heap lk l = lk_heap (sys_locks s) l"
  shows "lock_sound (set_locks lk (set_phase i q s)) l"
proof -
  have "holders w l (set_phase i q s) = holders w l s" for w
    using assms(2-4) holders_other [OF assms(2)] by (simp add: holders_set_phase in_phase_lt)
  with assms show ?thesis by (simp add: lock_sound_def)
qed

lemma lock_sound_unused:
  assumes "allocated s" "in_phase s i p" "\<And>l. p \<noteq> Active l" "\<And>l. q \<noteq> Active l"
    "lk_heap lk (lk_next (sys_locks s)) = free_lock"
  shows "lock_sound (set_locks lk (set_phase i q s)) (lk_next (sys_locks s))"
proof -
  have "holders w (lk_next (sys_locks s)) s = {}" for w
    using assms(1) by (auto simp: holders_def allocated_def)
  then have "holders w (lk_next (sys_locks s)) (set_phase i q s) = {}" for w
    using assms(2-4) by (simp add: holders_set_phase in_phase_lt)
  with assms show ?thesis by (simp add: lock_sound_def free_lock_def)
qed

lemma lock_sound_enter:
  assumes "lock_sound s l'" "in_phase s i (Got l)"
    "try_lock (t_write (sys_tasks s ! i)) l (sys_locks s) = Some lk"
  shows "lock_sound (set_locks lk (set_phase i (Active l) s)) l'"
proof -
  have ni: "i \<notin> holders w m s" for w m using holders_other [OF assms(2)] by simp
  show ?thesis
    using assms ni in_phase_lt [OF assms(2)]
    by (cases "t_write (sys_tasks s ! i)"; cases "l = l'")
       (auto simp: lock_sound_def holders_set_phase try_lock_def try_write_def try_read_def Let_def
         split: if_splits)
qed

lemma lock_sound_leave:
  assumes "lock_sound s l'" "in_phase s i (Active l)" "\<And>l. q \<noteq> Active l"
  shows "lock_sound (set_locks (drop_lock (t_write (sys_tasks s ! i)) l (sys_locks s)) (set_phase i q s)) l'"
proof -
  have i: "i \<in> holders (t_write (sys_tasks s ! i)) l s" "i \<notin> holders (\<not> t_write (sys_tasks s ! i)) l s"
    "l \<noteq> l' \<Longrightarrow> i \<notin> holders w l' s" for w
    using assms(2) by (auto simp: holders_def in_phase_def)
  have one: "card (holders True l s) \<le> 1 \<Longrightarrow> i \<in> holders True l s \<Longrightarrow> holders True l s = {i}"
    using card_le_Suc0_iff_eq [OF finite_holders] by auto
  show ?thesis
    using assms i one in_phase_lt [OF assms(2)]
    by (cases "t_write (sys_tasks s ! i)"; cases "l = l'")
       (auto simp: lock_sound_def holders_set_phase drop_lock_def drop_write_def drop_read_def)
qed

lemma allocated_step:
  assumes "lock_step e s s'" "allocated s"
  shows "allocated s'"
  using assms
proof (cases rule: lock_step.cases)
  case (st_hold i l lk)
  from st_hold(4) show ?thesis
  proof (cases rule: hold_file_lock_cases)
    case known
    with st_hold assms(2) show ?thesis
      by (auto simp: allocated_def in_phase_set_phase in_phase_lt)
  next
    case fresh
    with st_hold assms(2) show ?thesis
      by (auto simp: allocated_def in_phase_set_phase in_phase_lt less_SucI)
  qed
next
  case (st_enter i l lk)
  then have "lk_map lk = lk_map (sys_locks s)" "lk_next lk = lk_next (sys_locks s)"
    by (auto simp: try_lock_def try_write_def try_read_def Let_def split: if_splits)
  with st_enter assms(2) show ?thesis
    by (auto simp: allocated_def in_phase_set_phase in_phase_lt)
qed (auto simp: allocated_def in_phase_set_phase in_phase_lt drop_lock_def drop_write_def
    drop_read_def release_file_lock_def split: if_splits)

lemma lock_sound_step:
  assumes "lock_step e s s'" "locks_inv s"
  shows "lock_sound s' l'"
  using assms(1)
proof (cases rule: lock_step.cases)
  case (st_hold i l lk)
  from st_hold(4) show ?thesis
  proof (cases rule: hold_file_lock_cases)
    case known
    with st_hold assms(2) show ?thesis
      by (auto simp: locks_inv_def intro!: lock_sound_idle)
  next
    case fresh
    with st_hold assms(2) show ?thesis
      by (cases "l' = l") (auto simp: locks_inv_def intro!: lock_sound_idle lock_sound_unused)
  qed
next
  case (st_taken i l)
  with assms(2) have "lock_sound (set_locks (sys_locks s) (set_phase i Finished s)) l'"
    by (auto simp: locks_inv_def intro!: lock_sound_idle)
  with st_taken show ?thesis by (simp add: set_locks_def set_phase_def)
next
  case (st_release i)
  with assms(2) show ?thesis
    by (auto simp: locks_inv_def release_file_lock_def intro!: lock_sound_idle)
qed (use assms(2) in \<open>auto simp: locks_inv_def intro!: lock_sound_enter lock_sound_leave\<close>)

lemma in_phase_start: "in_phase (lock_start reqs) i p \<longleftrightarrow> i < length reqs \<and> p = Idle"
  by (auto simp: in_phase_def lock_start_def split: prod.splits)

interpretation lk: step_invariant "lock_start reqs" lock_step locks_inv for reqs
proof
  have "holders w l (lock_start reqs) = {}" for w l
    by (auto simp: holders_def in_phase_start)
  then show "locks_inv (lock_start reqs)"
    by (simp add: locks_inv_def allocated_def lock_sound_def in_phase_start)
       (simp add: lock_start_def no_locks_def free_lock_def)
next
  show "locks_inv s'" if "locks_inv s" "lock_step e s s'" for s s' e
    using that allocated_step [OF that(2)] lock_sound_step [OF that(2,1)]
    by (simp add: locks_inv_def)
qed

text \<open>As long as no request on a file has removed its entry, every task on it uses the entry's lock.\<close>

definition uses_lock :: "lsys \<Rightarrow> nat \<Rightarrow> nat \<Rightarrow> bool" where
  "uses_lock s i l \<longleftrightarrow> in_phase s i (Got l) \<or> in_phase s i (Active l)"

definition shares_lock :: "lock_event list \<Rightarrow> lsys \<Rightarrow> bool" where
  "shares_lock es s \<longleftrightarrow> (\<forall>i l. uses_lock s i l \<longrightarrow>
     LRelease (t_file (sys_tasks s ! i)) \<notin> set es \<longrightarrow>
     lk_map (sys_locks s) (t_file (sys_tasks s ! i)) = Some l)"

lemma lk_map_try_drop:
  "try_lock w l lk = Some lk' \<Longrightarrow> lk_map lk' = lk_map lk" "lk_map (drop_lock w l lk) = lk_map lk"
  by (auto simp: try_lock_def try_write_def try_read_def drop_lock_def drop_write_def drop_read_def Let_def
      split: if_splits)

text \<open>A step of task \<open>i\<close> to phase \<open>q\<close> that leaves the table alone where it has not been released.\<close>

lemma shares_lock_move:
  assumes "shares_lock es s" "i < length (sys_tasks s)"
    "\<And>l. q = Got l \<or> q = Active l \<Longrightarrow> LRelease (t_file (sys_tasks s ! i)) \<notin> set es \<Longrightarrow>
       lk_map lk (t_file (sys_tasks s ! i)) = Some l"
    "\<And>f l. lk_map (sys_locks s) f = Some l \<Longrightarrow> LRelease f \<noteq> e \<Longrightarrow> lk_map lk f = Some l"
  shows "shares_lock (es @ [e]) (set_locks lk (set_phase i q s))"
proof -
  have "lk_map lk (t_file (sys_tasks s ! j)) = Some l"
    if j: "uses_lock (set_phase i q s) j l" "LRelease (t_file (sys_tasks s ! j)) \<notin> set (es @ [e])" for j l
  proof (cases "j = i")
    case True
    with j assms(2,3) show ?thesis by (simp add: uses_lock_def in_phase_set_phase)
  next
    case False
    with j(1) assms(2) have "uses_lock s j l" by (simp add: uses_lock_def in_phase_set_phase)
    with assms(1) j(2) have "lk_map (sys_locks s) (t_file (sys_tasks s ! j)) = Some l"
      by (simp add: shares_lock_def)
    with assms(4) j(2) show ?thesis by auto
  qed
  then show ?thesis by (simp add: shares_lock_def uses_lock_def)
qed

lemma shares_lock_step:
  assumes "shares_lock es s" "lock_step e s s'"
  shows "shares_lock (es @ [e]) s'"
  using assms(2)
proof (cases rule: lock_step.cases)
  case (st_hold i l lk)
  from st_hold(4) show ?thesis unfolding st_hold(2)
    by (cases rule: hold_file_lock_cases)
       (use st_hold assms(1) in \<open>auto intro!: shares_lock_move simp: in_phase_lt\<close>)
next
  case (st_taken i l)
  with assms(1) have "shares_lock (es @ [e]) (set_locks (sys_locks s) (set_phase i Finished s))"
    by (intro shares_lock_move) (auto simp: in_phase_lt)
  with st_taken show ?thesis by (simp add: set_locks_def set_phase_def)
next
  case (st_enter i l lk)
  have "LRelease (t_file (sys_tasks s ! i)) \<notin> set es \<Longrightarrow>
      lk_map (sys_locks s) (t_file (sys_tasks s ! i)) = Some l"
    using assms(1) st_enter(3) by (simp add: shares_lock_def uses_lock_def)
  with st_enter assms(1) show ?thesis
    by (auto intro!: shares_lock_move simp: in_phase_lt lk_map_try_drop)
qed (use assms(1) in \<open>auto intro!: shares_lock_move simp: in_phase_lt lk_map_try_drop release_file_lock_def
    split: if_splits\<close>)

interpretation sh: history_invariant "lock_start reqs" lock_step shares_lock for reqs
proof
  show "shares_lock [] (lock_start reqs)"
    by (simp add: shares_lock_def uses_lock_def in_phase_start)
qed (rule shares_lock_step)

text \<open>Two guards on one lock: both are readers, or it is one and the same.\<close>

lemma guards_exclude:
  assumes "lock_sound s l" "in_phase s i (Active l)" "in_phase s j (Active l)" "t_write (sys_tasks s ! i)"
  shows "i = j"
proof -
  have i: "i \<in> holders True l s" using assms by (simp add: holders_def)
  with assms(1) have "holders False l s = {}" "card (holders True l s) \<le> 1"
    by (auto simp: lock_sound_def)
  moreover from this assms(3) have "j \<in> holders True l s"
    by (auto simp: holders_def)
  ultimately show "i = j"
    using i card_le_Suc0_iff_eq [OF finite_holders] by auto
qed

section \<open>Mutual exclusion\<close>



text \<open>
  C36. Uploads exclude other requests on the same file, in every interleaving in which no request on
  that file has completed and removed the file's entry from the lock table.
\<close>

theorem upload_exclusive_until_release:
  assumes "lrun (lock_start reqs) lock_step es s" "LRelease f \<notin> set es"
    "in_phase s i (Active l)" "in_phase s j (Active l')"
    "t_file (sys_tasks s ! i) = f" "t_file (sys_tasks s ! j) = f" "t_write (sys_tasks s ! i)"
  shows "i = j"
proof -
  have "uses_lock s i l" "uses_lock s j l'" using assms(3,4) by (simp_all add: uses_lock_def)
  then have "lk_map (sys_locks s) f = Some l" "lk_map (sys_locks s) f = Some l'"
    using sh.run_hinv [OF assms(1)] assms(2,5,6) unfolding shares_lock_def by metis+
  then have "l = l'" by simp
  with lk.hist.run_hinv [OF assms(1)] assms show ?thesis
    by (auto simp: locks_inv_def intro: guards_exclude)
qed

theorem upload_exclusive_until_release_witness:
  "{j. \<exists>l. in_phase (demo_sched [(''f'', True), (''f'', False)] [0, 1, 0, 1]) j (Active l)} = {0}"
proof -
  let ?s = "demo_sched [(''f'', True), (''f'', False)] [0, 1, 0, 1]"
  have s: "in_phase ?s 0 (Active 0)" "t_write (sys_tasks ?s ! 0)" "t_file (sys_tasks ?s ! 0) = ''f''"
    "LRelease ''f'' \<notin> set (fst (schedule [0, 1, 0, 1] (lock_start [(''f'', True), (''f'', False)])))"
    by (simp_all add: sched_eval)
  have f: "t_file (sys_tasks ?s ! j) = ''f''" if "in_phase ?s j p" for j p
    using that by (auto simp: sched_eval less_Suc_eq)
  show ?thesis
    using upload_exclusive_until_release [OF demo_sched_run [of "[(''f'', True), (''f'', False)]" "[0, 1, 0, 1]"] s(4) s(1) _ s(3) f s(2)]
      s(1) by auto
qed


end
