(* ===== verification/Handshake.thy ===== *)
theory Handshake
  imports Wire
begin

text \<open>
  The handshake (\<^verbatim>\<open>server_handshake\<close> and \<^verbatim>\<open>client_handshake_helper\<close> of
  \<^verbatim>\<open>src/protocol_v1.rs\<close>): exchange of hellos in the clear, the client's decision whether to
  trust the server's key (\<^verbatim>\<open>AuthServerMap\<close> of \<^verbatim>\<open>src/lib.rs\<close> and the prompt), the server's
  challenge to the client, and the derivation of the session key on both sides.
\<close>

section \<open>The session key\<close>

definition HANDSHAKE_BYTES :: bytes where
  "HANDSHAKE_BYTES = as_bytes ''V1PROTOCOL_HANDSHAKE''"

definition salt_session_key :: "prims \<Rightarrow> bytes \<Rightarrow> bytes" where
  "salt_session_key P shared_key =
    (let key = replicate 148 0xF;
         key = buf_put 0 shared_key key;
         key = buf_put 64 shared_key key;
         key = buf_put 128 HANDSHAKE_BYTES key
     in sha256 P key)"

text \<open>What both sides sign or verify: the two nonces and the two ephemeral keys.\<close>

definition signed_transcript :: "bytes \<Rightarrow> bytes \<Rightarrow> bytes \<Rightarrow> bytes \<Rightarrow> bytes" where
  "signed_transcript client_nonce server_nonce client_x server_x =
    (let t = replicate 128 0;
         t = buf_put 0 client_nonce t;
         t = buf_put 32 server_nonce t;
         t = buf_put 64 client_x t
     in buf_put 96 server_x t)"

section \<open>The server's side\<close>

definition server_handshake :: "prims \<Rightarrow> bytes \<Rightarrow> bytes \<Rightarrow> ('a conn_scheme, bytes \<times> bytes) io" where
  "server_handshake P server_pri server_pub =
    seq (fill_bytes 32) (\<lambda>seed.
    seq (lift_res (generate_x25519_keypair P seed)) (\<lambda>(x25519_pri, x25519_pub).
    seq (timeout HANDSHAKE_TIMEOUT ''Handshake timed out reading client hello'' read_raw_data_into) (\<lambda>client_hello_data.
    seq (lift_res (deserialize (pc_ClientHello P) client_hello_data)) (\<lambda>client_hello.
    seq (fill_bytes 32) (\<lambda>nonce.
    seq (lift_res (of_sum id (ed_verifying_key P server_pub))) (\<lambda>ed22519_pub.
    let transcript = signed_transcript (ch_nonce client_hello) nonce (ch_x22519_key client_hello) x25519_pub;
        signature = ed_sign P server_pri (sha512 P transcript);
        server_hello = \<lparr>sh_ed25519_key = ed22519_pub, sh_x22519_key = x25519_pub,
                        sh_signature = signature, sh_nonce = nonce\<rparr>
    in seq (lift_res (serialize (pc_ServerHello P) server_hello)) (\<lambda>hello_bytes.
       seq (timeout WRITE_TIMEOUT deadline_elapsed (write_raw_frame_into hello_bytes)) (\<lambda>_.
       seq (fill_bytes 64) (\<lambda>seed2.
       let nonce = sha512 P seed2 in
       seq (write_raw_frame_into nonce) (\<lambda>_.
       seq flush (\<lambda>_.
       seq (timeout HANDSHAKE_TIMEOUT ''Handshake timed out reading client signature'' read_raw_data_into) (\<lambda>packet.
       if length packet < 64 then lift_res (Panic ''mid > len'')
       else
       seq (lift_res (of_sum (\<lambda>e. ''Failed to parse signature from client: '' @ e)
              (ed_signature P (take 64 packet)))) (\<lambda>signature.
       seq (lift_res (of_sum (\<lambda>e. ''Failed to construct client's Ed25519 public key from bytes: '' @ e)
              (ed_verifying_key P (drop 64 packet)))) (\<lambda>verify_key.
       seq (lift_res (of_sum (\<lambda>e. ''Failed to verify client's signature: '' @ e)
              (ed_verify P verify_key nonce signature))) (\<lambda>_.
       ret (x_dh P x25519_pri (ch_x22519_key client_hello), verify_key))))))))))))))))"

section \<open>The client's side\<close>

text \<open>
  The client's state adds \<^verbatim>\<open>server.map\<close> (absent, unreadable, or a map from addresses to keys),
  the lines the user will type, and the error, if any, of writing into the user's directory.
\<close>

record client_state = conn +
  cs_server_map :: "(string + (string \<rightharpoonup> string)) option"
  cs_stdin :: "string list"
  cs_dir_err :: "string option"

definition AuthServerMap_read_or_create :: "('a client_state_scheme, string \<rightharpoonup> string) io" where
  "AuthServerMap_read_or_create w =
    (case cs_dir_err w of Some e \<Rightarrow> (Err e, w)
     | None \<Rightarrow> (case cs_server_map w of
         None \<Rightarrow> (Ok Map.empty, w)
       | Some (Inl e) \<Rightarrow> (Err e, w)
       | Some (Inr m) \<Rightarrow> (Ok m, w)))"

definition AuthServerMap_write :: "(string \<rightharpoonup> string) \<Rightarrow> ('a client_state_scheme, unit) io" where
  "AuthServerMap_write m w =
    (case cs_dir_err w of Some e \<Rightarrow> (Err e, w)
     | None \<Rightarrow> (Ok (), w\<lparr>cs_server_map := Some (Inr m)\<rparr>))"

definition read_line :: "('a client_state_scheme, string) io" where
  "read_line w = (case cs_stdin w of [] \<Rightarrow> (Ok [], w) | l # ls \<Rightarrow> (Ok l, w\<lparr>cs_stdin := ls\<rparr>))"

definition says_yes :: "string \<Rightarrow> bool" where
  "says_yes input = (to_lowercase (trim input) = ''y'')"

text \<open>\<^verbatim>\<open>stream.shutdown(); drop(stream); bail!(msg)\<close>.\<close>

definition reject_server :: "string \<Rightarrow> ('a client_state_scheme, 'b) io" where
  "reject_server msg = seq (upd_state (\<lambda>w. w\<lparr>out_shut := True\<rparr>)) (\<lambda>_. fail msg)"

definition approve_server_key :: "prims \<Rightarrow> string \<Rightarrow> bytes \<Rightarrow> bool \<Rightarrow> ('a client_state_scheme, bytes) io" where
  "approve_server_key P server_ip ed25519_key should_trust =
    seq AuthServerMap_read_or_create (\<lambda>loaded.
    seq (lift_res (of_sum id (ed_verifying_key P ed25519_key))) (\<lambda>server_key.
    let server_key_hex = hex_encode P ed25519_key;
        server_key_fp = hex_encode P (sha256 P (as_bytes server_key_hex));
        authorized_server = (if should_trust then loaded(server_ip \<mapsto> server_key_hex) else loaded)
    in seq (if should_trust then AuthServerMap_write authorized_server else ret ()) (\<lambda>_.
       case authorized_server server_ip of
         Some existing_server_key_hex \<Rightarrow>
           if existing_server_key_hex \<noteq> server_key_hex then
             seq read_line (\<lambda>input.
             if \<not> says_yes input then reject_server ''User rejected rotated server key''
             else seq (AuthServerMap_write (authorized_server(server_ip \<mapsto> server_key_fp))) (\<lambda>_.
                  ret server_key))
           else
             seq (lift_res (of_sum id (hex_decode P existing_server_key_hex))) (\<lambda>key_bytes.
             if length key_bytes \<noteq> 32 then fail ''Failed to decode existing server 32bytes key''
             else lift_res (of_sum id (ed_verifying_key P key_bytes)))
       | None \<Rightarrow>
           seq read_line (\<lambda>input.
           if \<not> says_yes input then reject_server ''User rejected unknown server''
           else seq (AuthServerMap_write (authorized_server(server_ip \<mapsto> server_key_hex))) (\<lambda>_.
                ret server_key)))))"

text \<open>
  \<open>connect_result\<close> is the outcome of \<^verbatim>\<open>TcpStream::connect\<close> and \<^verbatim>\<open>peer_addr\<close>.
\<close>

definition client_handshake_helper ::
    "prims \<Rightarrow> string res \<Rightarrow> bytes \<Rightarrow> bool \<Rightarrow> ('a client_state_scheme, bytes) io" where
  "client_handshake_helper P connect_result signing_key should_trust =
    seq (lift_res connect_result) (\<lambda>server_ip.
    seq (fill_bytes 32) (\<lambda>seed.
    seq (lift_res (generate_x25519_keypair P seed)) (\<lambda>(x25519_pri, x25519_pub).
    seq (fill_bytes 32) (\<lambda>nonce.
    let client_hello = \<lparr>ch_x22519_key = x25519_pub, ch_nonce = nonce\<rparr> in
    seq (lift_res (serialize (pc_ClientHello P) client_hello)) (\<lambda>hello_bytes.
    seq (write_raw_frame_into hello_bytes) (\<lambda>_.
    seq read_raw_data_into (\<lambda>server_hello_data.
    seq (lift_res (deserialize (pc_ServerHello P) server_hello_data)) (\<lambda>server_hello.
    seq (approve_server_key P server_ip (sh_ed25519_key server_hello) should_trust) (\<lambda>approved_server_key.
    let transcript_signed = signed_transcript nonce (sh_nonce server_hello) x25519_pub (sh_x22519_key server_hello) in
    seq (lift_res (of_sum (\<lambda>e. ''Failed to verify server's signature: '' @ e)
           (ed_verify P approved_server_key (sha512 P transcript_signed) (sh_signature server_hello)))) (\<lambda>_.
    seq read_raw_data_into (\<lambda>challenge.
    let signature = ed_sign P signing_key challenge;
        pub_key = ed_public P signing_key;
        packet = buf_put 64 pub_key (buf_put 0 signature (replicate 96 0))
    in seq (write_raw_frame_into packet) (\<lambda>_.
       seq flush (\<lambda>_.
       ret (salt_session_key P (x_dh P x25519_pri (sh_x22519_key server_hello))))))))))))))))"

section \<open>What each side sends\<close>

definition take_rng :: "nat \<Rightarrow> (nat \<Rightarrow> byte) \<Rightarrow> bytes" where
  "take_rng n r = map r [0..<n]"

lemma length_take_rng [simp]: "length (take_rng n r) = n"
  by (simp add: take_rng_def)

lemma fill_bytes_run [run_simps]:
  "fill_bytes n w = (Ok (take_rng n (rng w)), w\<lparr>rng := skip_rng n (rng w)\<rparr>)"
  by (simp add: fill_bytes_def take_rng_def skip_rng_def fun_eq_iff)

definition client_hello_of :: "prims \<Rightarrow> (nat \<Rightarrow> byte) \<Rightarrow> ClientHello" where
  "client_hello_of P r = \<lparr>ch_x22519_key = x_public P (take_rng 32 r), ch_nonce = take_rng 32 (skip_rng 32 r)\<rparr>"

definition server_hello_of :: "prims \<Rightarrow> bytes \<Rightarrow> bytes \<Rightarrow> ClientHello \<Rightarrow> (nat \<Rightarrow> byte) \<Rightarrow> ServerHello" where
  "server_hello_of P pri pub ch r =
    (let x = x_public P (take_rng 32 r); n = take_rng 32 (skip_rng 32 r)
     in \<lparr>sh_ed25519_key = pub, sh_x22519_key = x,
         sh_signature = ed_sign P pri (sha512 P (signed_transcript (ch_nonce ch) n (ch_x22519_key ch) x)),
         sh_nonce = n\<rparr>)"

definition challenge_of :: "prims \<Rightarrow> (nat \<Rightarrow> byte) \<Rightarrow> bytes" where
  "challenge_of P r = sha512 P (take_rng 64 (skip_rng 32 (skip_rng 32 r)))"

definition client_packet :: "prims \<Rightarrow> bytes \<Rightarrow> bytes \<Rightarrow> bytes" where
  "client_packet P sk challenge = ed_sign P sk challenge @ ed_public P sk"

lemma packet_layout:
  assumes "length s = 64" "length k = 32"
  shows "buf_put 64 k (buf_put 0 s (replicate 96 0)) = s @ k"
  using assms by (simp add: buf_put_def)

text \<open>A hello the codec carries in one frame.\<close>

definition carried :: "'a codec \<Rightarrow> 'a \<Rightarrow> bool" where
  "carried c x \<longleftrightarrow> roundtrips c x \<and> raw_fits (encoding c x)"

text \<open>The server's state once the handshake is done.\<close>

definition after_handshake :: "prims \<Rightarrow> bytes \<Rightarrow> bytes \<Rightarrow> ClientHello \<Rightarrow> bytes \<Rightarrow> 'a conn_scheme \<Rightarrow> 'a conn_scheme" where
  "after_handshake P pri pub ch rest w =
    (let e = encoding (pc_ServerHello P) (server_hello_of P pri pub ch (rng w)) in
     w\<lparr>rng := skip_rng 64 (skip_rng 32 (skip_rng 32 (rng w))),
       out_sent := wire w @ raw_frame e @ raw_frame (challenge_of P (rng w)), out_buf := [],
       out_room := out_room w - (72 + (length (out_buf w) + length e)), inp := rest\<rparr>)"

lemma after_handshake_fields [simp]:
  "inp (after_handshake P pri pub ch rest w) = rest" "inp_end (after_handshake P pri pub ch rest w) = inp_end w"
  "out_buf (after_handshake P pri pub ch rest w) = []" "out_shut (after_handshake P pri pub ch rest w) = out_shut w"
  "clock (after_handshake P pri pub ch rest w) = clock w" "waited (after_handshake P pri pub ch rest w) = waited w"
  "disk (after_handshake P pri pub ch rest w) = disk w" "pool (after_handshake P pri pub ch rest w) = pool w"
  "conn.more (after_handshake P pri pub ch rest w) = conn.more w"
  "wire (after_handshake P pri pub ch rest w) = wire w @
     raw_frame (encoding (pc_ServerHello P) (server_hello_of P pri pub ch (rng w))) @ raw_frame (challenge_of P (rng w))"
  by (simp_all add: after_handshake_def Let_def wire_def)

lemma server_handshake_exact:
  assumes "ed_verifying_key P pub = Inr pub" "sha_ok P"
    and "carried (pc_ClientHello P) ch" "carried (pc_ServerHello P) (server_hello_of P pri pub ch (rng w))"
    and sig: "length sig = 64" "ed_signature P sig = Inr sig" "length pk = 32"
      "ed_verifying_key P pk = Inr pk" "ed_verify P pk (challenge_of P (rng w)) sig = Inr ()"
    and inp: "inp w = raw_frame (encoding (pc_ClientHello P) ch) @ raw_frame (sig @ pk) @ rest"
    and room: "writable (72 + length (encoding (pc_ServerHello P) (server_hello_of P pri pub ch (rng w)))) w"
  shows "server_handshake P pri pub w = (Ok (x_dh P (take_rng 32 (rng w)) (ch_x22519_key ch), pk), after_handshake P pri pub ch rest w)"
proof -
  let ?sh = "server_hello_of P pri pub ch (rng w)"
  let ?e = "encoding (pc_ServerHello P) ?sh" and ?c = "challenge_of P (rng w)"
  have lc: "length ?c = 64" using assms(2) by (simp add: challenge_of_def sha_lengths)
  have fits: "raw_fits (encoding (pc_ClientHello P) ch)" "raw_fits ?e" "raw_fits (sig @ pk)"
    "roundtrips (pc_ClientHello P) ch" "roundtrips (pc_ServerHello P) ?sh"
    using assms sig by (simp_all add: carried_def raw_fits_def)
  have sh: "\<lparr>sh_ed25519_key = pub, sh_x22519_key = x_public P (take_rng 32 (rng w)),
      sh_signature = ed_sign P pri (sha512 P (signed_transcript (ch_nonce ch) (take_rng 32 (skip_rng 32 (rng w)))
        (ch_x22519_key ch) (x_public P (take_rng 32 (rng w))))),
      sh_nonce = take_rng 32 (skip_rng 32 (rng w))\<rparr> = ?sh"
    by (simp add: server_hello_of_def Let_def)
  have c: "sha512 P (take_rng 64 (skip_rng 32 (skip_rng 32 (rng w)))) = ?c"
    by (simp add: challenge_of_def)
  have r1: "read_raw_data_into (w\<lparr>rng := skip_rng 32 (rng w)\<rparr>) =
      (Ok (encoding (pc_ClientHello P) ch), w\<lparr>rng := skip_rng 32 (rng w), inp := raw_frame (sig @ pk) @ rest\<rparr>)"
    using fits inp by (simp add: read_raw_ok)
  have small: "length ?e \<le> 16777216" using fits(2) by (simp add: raw_fits_def)
  show ?thesis
    using assms(1) r1 fits sig(2-5) room small lc
    by (simp add: server_handshake_def generate_x25519_keypair_def run_simps sh c writable_def wire_def
        sig(1) Let_def after_handshake_def)
qed

lemma server_handshake_run:
  assumes "ed_verifying_key P pub = Inr pub" "sha_ok P"
    and "carried (pc_ClientHello P) ch" "carried (pc_ServerHello P) (server_hello_of P pri pub ch (rng w))"
    and "length sig = 64" "ed_signature P sig = Inr sig" "length pk = 32"
      "ed_verifying_key P pk = Inr pk" "ed_verify P pk (challenge_of P (rng w)) sig = Inr ()"
    and "inp w = raw_frame (encoding (pc_ClientHello P) ch) @ raw_frame (sig @ pk) @ rest"
    and "writable (72 + length (encoding (pc_ServerHello P) (server_hello_of P pri pub ch (rng w)))) w"
  shows "\<exists>w'. server_handshake P pri pub w = (Ok (x_dh P (take_rng 32 (rng w)) (ch_x22519_key ch), pk), w') \<and>
     inp w' = rest \<and> wire w' = wire w @ raw_frame (encoding (pc_ServerHello P) (server_hello_of P pri pub ch (rng w)))
       @ raw_frame (challenge_of P (rng w))"
  using server_handshake_exact [OF assms] by simp

text \<open>A server whose key is on record is approved without a prompt.\<close>

lemma approve_trusted [run_simps]:
  assumes "hex_ok P" "ed_verifying_key P key = Inr key" "length key = 32"
    and "cs_dir_err w = None" "cs_server_map w = Some (Inr m)" "m ip = Some (hex_encode P key)"
  shows "approve_server_key P ip key False w = (Ok key, w)"
  using assms
  by (simp add: approve_server_key_def run_simps AuthServerMap_read_or_create_def hex_roundtrip Let_def)

text \<open>The client's state once the handshake is done.\<close>

definition client_after_handshake :: "prims \<Rightarrow> bytes \<Rightarrow> bytes \<Rightarrow> bytes \<Rightarrow> 'a conn_scheme \<Rightarrow> 'a conn_scheme" where
  "client_after_handshake P sk chal rest v =
    (let e = encoding (pc_ClientHello P) (client_hello_of P (rng v)) in
     v\<lparr>rng := skip_rng 32 (skip_rng 32 (rng v)),
       out_sent := wire v @ raw_frame e @ raw_frame (client_packet P sk chal), out_buf := [],
       out_room := out_room v - (104 + (length (out_buf v) + length e)), inp := rest\<rparr>)"

lemma client_after_fields [simp]:
  "inp (client_after_handshake P sk chal rest v) = rest" "inp_end (client_after_handshake P sk chal rest v) = inp_end v"
  "out_buf (client_after_handshake P sk chal rest v) = []" "out_shut (client_after_handshake P sk chal rest v) = out_shut v"
  "clock (client_after_handshake P sk chal rest v) = clock v" "waited (client_after_handshake P sk chal rest v) = waited v"
  "disk (client_after_handshake P sk chal rest v) = disk v" "conn.more (client_after_handshake P sk chal rest v) = conn.more v"
  "wire (client_after_handshake P sk chal rest v) = wire v @
     raw_frame (encoding (pc_ClientHello P) (client_hello_of P (rng v))) @ raw_frame (client_packet P sk chal)"
  by (simp_all add: client_after_handshake_def Let_def wire_def)

lemma client_handshake_exact:
  assumes keys: "hex_ok P" "ed_ok P" "ed_verifying_key P (sh_ed25519_key sh) = Inr (sh_ed25519_key sh)"
      "length (sh_ed25519_key sh) = 32"
    and trust: "cs_dir_err v = None" "cs_server_map v = Some (Inr m)" "m ip = Some (hex_encode P (sh_ed25519_key sh))"
    and msgs: "carried (pc_ClientHello P) (client_hello_of P (rng v))" "carried (pc_ServerHello P) sh" "raw_fits chal"
    and sig: "ed_verify P (sh_ed25519_key sh) (sha512 P (signed_transcript (ch_nonce (client_hello_of P (rng v)))
        (sh_nonce sh) (ch_x22519_key (client_hello_of P (rng v))) (sh_x22519_key sh))) (sh_signature sh) = Inr ()"
    and inp: "inp v = raw_frame (encoding (pc_ServerHello P) sh) @ raw_frame chal @ rest"
    and room: "writable (104 + length (encoding (pc_ClientHello P) (client_hello_of P (rng v)))) v"
  shows "client_handshake_helper P (Ok ip) sk False v =
    (Ok (salt_session_key P (x_dh P (take_rng 32 (rng v)) (sh_x22519_key sh))), client_after_handshake P sk chal rest v)"
proof -
  let ?ch = "client_hello_of P (rng v)"
  let ?e = "encoding (pc_ClientHello P) ?ch"
  have ch: "\<lparr>ch_x22519_key = ch_x22519_key ?ch, ch_nonce = ch_nonce ?ch\<rparr> = ?ch"
    by simp
  have sel: "take_rng 32 (skip_rng 32 (rng v)) = ch_nonce ?ch" "x_public P (take_rng 32 (rng v)) = ch_x22519_key ?ch"
    by (simp_all add: client_hello_of_def)
  have fits: "roundtrips (pc_ClientHello P) ?ch" "raw_fits ?e" "roundtrips (pc_ServerHello P) sh"
    "raw_fits (encoding (pc_ServerHello P) sh)"
    using msgs by (simp_all add: carried_def)
  have small: "length ?e \<le> 16777216" using fits(2) by (simp add: raw_fits_def)
  have lens: "length (ed_sign P sk chal) = 64" "length (ed_public P sk) = 32"
    using keys(2) by (simp_all add: ed_ok_def)
  show ?thesis
    using fits small trust keys(1,3,4) inp room lens sig msgs(3)
    by (simp add: client_handshake_helper_def generate_x25519_keypair_def run_simps ch sel writable_def wire_def
        Let_def packet_layout client_packet_def client_after_handshake_def)
qed

lemma client_handshake_run:
  assumes keys: "hex_ok P" "ed_ok P" "ed_verifying_key P (sh_ed25519_key sh) = Inr (sh_ed25519_key sh)"
      "length (sh_ed25519_key sh) = 32"
    and trust: "cs_dir_err v = None" "cs_server_map v = Some (Inr m)" "m ip = Some (hex_encode P (sh_ed25519_key sh))"
    and msgs: "carried (pc_ClientHello P) (client_hello_of P (rng v))" "carried (pc_ServerHello P) sh" "raw_fits chal"
    and sig: "ed_verify P (sh_ed25519_key sh) (sha512 P (signed_transcript (ch_nonce (client_hello_of P (rng v)))
        (sh_nonce sh) (ch_x22519_key (client_hello_of P (rng v))) (sh_x22519_key sh))) (sh_signature sh) = Inr ()"
    and inp: "inp v = raw_frame (encoding (pc_ServerHello P) sh) @ raw_frame chal @ rest"
    and room: "writable (104 + length (encoding (pc_ClientHello P) (client_hello_of P (rng v)))) v"
  shows "\<exists>v'. client_handshake_helper P (Ok ip) sk False v =
      (Ok (salt_session_key P (x_dh P (take_rng 32 (rng v)) (sh_x22519_key sh))), v') \<and>
    inp v' = rest \<and> wire v' = wire v @ raw_frame (encoding (pc_ClientHello P) (client_hello_of P (rng v)))
      @ raw_frame (client_packet P sk chal)"
  using client_handshake_exact [OF assms] by simp

section \<open>Properties\<close>

text \<open>
  C7. Both sides of the handshake agree. A client that has the server's key on record and a server
  with a matching key pair, each fed what the other sends, both finish; the client's session key is
  the salted form of the server's shared secret, the server learns the client's public key, and
  each side's output is exactly the input the other consumed.
\<close>

theorem handshake_agreement:
  fixes w :: "'a conn_scheme" and v :: "'b client_state_scheme"
  assumes ch_def: "ch = client_hello_of P (rng v)"
    and sh_def: "sh = server_hello_of P pri (ed_public P pri) ch (rng w)"
    and crates: "ed_ok P" "sha_ok P" "dh_ok P" "hex_ok P"
    and codecs: "carried (pc_ClientHello P) ch" "carried (pc_ServerHello P) sh"
    and trust: "cs_dir_err v = None" "cs_server_map v = Some (Inr m)" "m ip = Some (hex_encode P (ed_public P pri))"
    and room: "writable (72 + length (encoding (pc_ServerHello P) sh)) w"
      "writable (104 + length (encoding (pc_ClientHello P) ch)) v"
    and fresh: "wire w = []" "wire v = []"
    and inputs: "inp w = raw_frame (encoding (pc_ClientHello P) ch) @ raw_frame (client_packet P sk (challenge_of P (rng w)))"
      "inp v = raw_frame (encoding (pc_ServerHello P) sh) @ raw_frame (challenge_of P (rng w))"
  shows "\<exists>w' v' shared. server_handshake P pri (ed_public P pri) w = (Ok (shared, ed_public P sk), w') \<and>
    client_handshake_helper P (Ok ip) sk False v = (Ok (salt_session_key P shared), v') \<and>
    wire w' = inp v \<and> wire v' = inp w \<and> inp w' = [] \<and> inp v' = []"
proof -
  let ?c = "challenge_of P (rng w)"
  have lc: "length ?c = 64" using crates by (simp add: challenge_of_def sha_lengths)
  have ed: "ed_verifying_key P (ed_public P k) = Inr (ed_public P k)" "length (ed_public P k) = 32"
    "length (ed_sign P k x) = 64" "ed_signature P (ed_sign P k x) = Inr (ed_sign P k x)"
    "ed_verify P (ed_public P k) x (ed_sign P k x) = Inr ()" for k x
    using crates(1) by (simp_all add: ed_ok_def)
  have srv: "\<exists>w'. server_handshake P pri (ed_public P pri) w =
      (Ok (x_dh P (take_rng 32 (rng w)) (ch_x22519_key ch), ed_public P sk), w') \<and> inp w' = [] \<and>
      wire w' = wire w @ raw_frame (encoding (pc_ServerHello P) sh) @ raw_frame ?c"
    using assms ed unfolding ch_def sh_def client_packet_def
    by (intro server_handshake_run [where sig = "ed_sign P sk ?c"]) simp_all
  have sh: "sh_ed25519_key sh = ed_public P pri" "sh_x22519_key sh = x_public P (take_rng 32 (rng w))"
    by (simp_all add: sh_def server_hello_of_def Let_def)
  have sg: "ed_verify P (sh_ed25519_key sh) (sha512 P (signed_transcript (ch_nonce ch) (sh_nonce sh)
      (ch_x22519_key ch) (sh_x22519_key sh))) (sh_signature sh) = Inr ()"
    using ed by (simp add: sh_def ch_def server_hello_of_def Let_def)
  have cli: "\<exists>v'. client_handshake_helper P (Ok ip) sk False v =
      (Ok (salt_session_key P (x_dh P (take_rng 32 (rng v)) (sh_x22519_key sh))), v') \<and> inp v' = [] \<and>
      wire v' = wire v @ raw_frame (encoding (pc_ClientHello P) ch) @ raw_frame (client_packet P sk ?c)"
    using assms ed sg sh lc unfolding ch_def
    by (intro client_handshake_run [where m = m]) (simp_all add: raw_fits_def)
  have "x_dh P (take_rng 32 (rng v)) (sh_x22519_key sh) = x_dh P (take_rng 32 (rng w)) (ch_x22519_key ch)"
    using crates(3) by (simp add: sh ch_def client_hello_of_def dh_agree)
  with srv cli inputs fresh show ?thesis by auto
qed

text \<open>A concrete run: both sides draw constant random bytes.\<close>

definition demo_ch :: ClientHello where
  "demo_ch = client_hello_of demo (\<lambda>_. 1)"

definition demo_sh :: ServerHello where
  "demo_sh = server_hello_of demo [5] (pad 32 [5]) demo_ch (\<lambda>_. 2)"

definition demo_hs :: prims where
  "demo_hs = demo\<lparr>pc_ClientHello := table_codec [demo_ch], pc_ServerHello := table_codec [demo_sh]\<rparr>"

definition demo_server_conn :: conn where
  "demo_server_conn = \<lparr>inp = raw_frame [0] @ raw_frame (client_packet demo_hs [6] (challenge_of demo_hs (\<lambda>_. 2))),
     inp_end = Closed, out_buf = [], out_sent = [], out_room = 1000, out_end = Closed, out_shut = False,
     pool = [], rng = (\<lambda>_. 2), clock = (\<lambda>i. i), waited = 0, disk = []\<rparr>"

definition demo_client_conn :: client_state where
  "demo_client_conn = \<lparr>inp = raw_frame [0] @ raw_frame (challenge_of demo_hs (\<lambda>_. 2)),
     inp_end = Closed, out_buf = [], out_sent = [], out_room = 1000, out_end = Closed, out_shut = False,
     pool = [], rng = (\<lambda>_. 1), clock = (\<lambda>i. i), waited = 0, disk = [],
     cs_server_map = Some (Inr [''127.0.0.1:3000'' \<mapsto> hex_encode demo_hs (pad 32 [5])]), cs_stdin = [],
     cs_dir_err = None\<rparr>"

lemma table_codec_single: "roundtrips (table_codec [x]) x" "encoding (table_codec [x]) x = [0]"
  by (simp_all add: roundtrips_def encoding_def table_codec_def)

lemma demo_hs_laws: "ed_ok demo_hs" "sha_ok demo_hs" "dh_ok demo_hs" "hex_ok demo_hs"
  by (rule demo_laws; simp add: demo_hs_def)+

lemma demo_hs_hellos:
  "client_hello_of demo_hs (\<lambda>_. 1) = demo_ch"
  "server_hello_of demo_hs [5] (pad 32 [5]) demo_ch (\<lambda>_. 2) = demo_sh"
  by (simp_all add: demo_hs_def demo_ch_def demo_sh_def client_hello_of_def server_hello_of_def)

lemma demo_hs_codecs:
  "pc_ClientHello demo_hs = table_codec [demo_ch]" "pc_ServerHello demo_hs = table_codec [demo_sh]"
  "ed_public demo_hs = pad 32"
  by (simp_all add: demo_hs_def)

theorem handshake_agreement_witness:
  "\<exists>w' v' shared. server_handshake demo_hs [5] (ed_public demo_hs [5]) demo_server_conn =
      (Ok (shared, ed_public demo_hs [6]), w') \<and>
    client_handshake_helper demo_hs (Ok ''127.0.0.1:3000'') [6] False demo_client_conn =
      (Ok (salt_session_key demo_hs shared), v') \<and>
    wire w' = inp demo_client_conn \<and> wire v' = inp demo_server_conn \<and> inp w' = [] \<and> inp v' = []"
  by (rule handshake_agreement [where ch = demo_ch and sh = demo_sh
        and m = "[''127.0.0.1:3000'' \<mapsto> hex_encode demo_hs (pad 32 [5])]"])
     (simp_all add: demo_hs_hellos demo_hs_laws demo_hs_codecs table_codec_single carried_def raw_fits_def
        demo_server_conn_def demo_client_conn_def writable_def wire_def)

section \<open>What a completed handshake tells each side\<close>

text \<open>Framed I/O in the clear does not touch the random source.\<close>

lemma read_raw_rng: "read_raw_data_into w = (r, w') \<Longrightarrow> rng w' = rng w"
  by (auto simp: read_raw_data_into_def read_frame_length_def seq_def timeout_def wrap_err_def read_exact_def
      fail_def ret_def Let_def split: prod.splits res.splits if_splits)

lemma write_raw_rng: "write_raw_frame_into d w = (r, w') \<Longrightarrow> rng w' = rng w"
  by (auto simp: write_raw_frame_into_def write_all_def flush_def push_out_def seq_def fail_def ret_def
      get_state_def upd_state_def split: prod.splits res.splits if_splits)

lemma flush_rng: "flush w = (r, w') \<Longrightarrow> rng w' = rng w"
  by (auto simp: flush_def push_out_def split: prod.splits if_splits)

lemma timeout_raw_rng:
  "timeout d msg read_raw_data_into w = (r, w') \<Longrightarrow> rng w' = rng w"
  "timeout d msg (write_raw_frame_into b) w = (q, w') \<Longrightarrow> rng w' = rng w"
  by (auto simp: timeout_def split: prod.splits if_splits dest: read_raw_rng write_raw_rng)

lemmas clear_rng = read_raw_rng write_raw_rng flush_rng timeout_raw_rng

text \<open>What a read returns was next in the input; a write leaves the input alone.\<close>

lemma read_raw_received: "read_raw_data_into w = (Ok d, w') \<Longrightarrow> \<exists>h. inp w = h @ d @ inp w'"
proof -
  assume "read_raw_data_into w = (Ok d, w')"
  then obtain len w1 where l: "read_frame_length w = (Ok len, w1)" and r: "read_exact (unat len) w1 = (Ok d, w')"
    unfolding read_raw_data_into_def by (rule seq_OkE)
  from l have "\<exists>h. inp w = h @ inp w1"
    by (auto simp: read_frame_length_def seq_def timeout_def wrap_err_def read_exact_def fail_def ret_def Let_def
        split: prod.splits res.splits if_splits) (metis append_take_drop_id)
  with read_exact_OkD [OF r] show ?thesis by auto
qed

lemma timeout_raw_received: "timeout t msg read_raw_data_into w = (Ok d, w') \<Longrightarrow> \<exists>h. inp w = h @ d @ inp w'"
  by (rule read_raw_received) (auto simp: timeout_def split: prod.splits if_splits)

lemma raw_write_inp:
  "write_raw_frame_into b w = (r, w') \<Longrightarrow> inp w' = inp w"
  "timeout t msg (write_raw_frame_into b) w = (r, w') \<Longrightarrow> inp w' = inp w"
  "flush w = (r, w') \<Longrightarrow> inp w' = inp w"
  by (auto simp: timeout_def write_raw_frame_into_def write_all_def flush_def push_out_def seq_def fail_def ret_def
      get_state_def upd_state_def split: prod.splits res.splits if_splits)

lemma lift_res_OkE:
  assumes "lift_res r s = (Ok a, s')" obtains "r = Ok a" "s' = s"
  using assms by (simp add: lift_res_def)

lemma of_sum_OkE:
  assumes "of_sum f r = Ok a" obtains "r = Inr a"
  using assms by (cases r) simp_all

lemma server_handshake_signed:
  assumes "server_handshake P pri pub w = (Ok (shared, k), w')"
  shows "\<exists>before packet sig. inp w = before @ packet @ inp w' \<and> ed_signature P (take 64 packet) = Inr sig \<and>
    ed_verifying_key P (drop 64 packet) = Inr k \<and> ed_verify P k (challenge_of P (rng w)) sig = Inr ()"
proof -
  obtain d w1 w2 w3 w4 w5 b c packet sig where run:
    "timeout HANDSHAKE_TIMEOUT ''Handshake timed out reading client hello'' read_raw_data_into
       (w\<lparr>rng := skip_rng 32 (rng w)\<rparr>) = (Ok d, w1)"
    "timeout WRITE_TIMEOUT deadline_elapsed (write_raw_frame_into b) (w1\<lparr>rng := skip_rng 32 (rng w1)\<rparr>) = (Ok (), w2)"
    "write_raw_frame_into (sha512 P (take_rng 64 (rng w2))) (w2\<lparr>rng := skip_rng 64 (rng w2)\<rparr>) = (Ok (), w3)"
    "flush w3 = (Ok (), w4)"
    "timeout HANDSHAKE_TIMEOUT ''Handshake timed out reading client signature'' read_raw_data_into w4 = (Ok packet, w')"
    "ed_signature P (take 64 packet) = Inr sig" "ed_verifying_key P (drop 64 packet) = Inr k"
    "ed_verify P k (sha512 P (take_rng 64 (rng w2))) sig = Inr ()"
    using assms
    by (auto simp: server_handshake_def fill_bytes_run generate_x25519_keypair_def Let_def
        lift_res_def ret_def elim!: seq_OkE lift_res_OkE of_sum_OkE split: if_splits)
  from run(1,2) have ch: "sha512 P (take_rng 64 (rng w2)) = challenge_of P (rng w)"
    by (auto simp: challenge_of_def dest!: clear_rng)
  have "inp w4 = inp w1" using run(2-4) by (auto dest!: raw_write_inp)
  with timeout_raw_received [OF run(1)] timeout_raw_received [OF run(5)]
  obtain h1 h2 where "inp w = h1 @ d @ inp w1" "inp w1 = h2 @ packet @ inp w'" by auto
  with run(6-8) ch show ?thesis
    by - (intro exI [of _ "h1 @ d @ h2"] exI [of _ packet] exI [of _ sig], simp)
qed

text \<open>
  C8. A client the server accepts has signed the challenge of this very handshake: whenever
  \<open>server_handshake\<close> returns the client key \<open>k\<close>, the last frame the server received consists of
  a signature and that key, and the signature verifies under \<open>k\<close> over the challenge drawn in
  this run.
\<close>

theorem server_handshake_authenticates:
  assumes "server_handshake P pri pub w = (Ok (shared, k), w')"
  shows "\<exists>before packet sig. inp w = before @ packet @ inp w' \<and> ed_signature P (take 64 packet) = Inr sig \<and>
    ed_verifying_key P (drop 64 packet) = Inr k \<and> ed_verify P k (challenge_of P (rng w)) sig = Inr ()"
  using assms by (rule server_handshake_signed)

lemma demo_server_run:
  "\<exists>shared w'. server_handshake demo_hs [5] (pad 32 [5]) demo_server_conn = (Ok (shared, pad 32 [6]), w')"
proof -
  have "ed_verify demo_hs (pad 32 [6]) c (ed_sign demo_hs [6] c) = Inr ()"
    "ed_signature demo_hs (ed_sign demo_hs [6] c) = Inr (ed_sign demo_hs [6] c)"
    "length (ed_sign demo_hs [6] c) = 64" for c
    using demo_hs_laws(1) by (simp_all add: ed_ok_def demo_hs_codecs flip: demo_hs_codecs(3))
  then have "\<exists>w'. server_handshake demo_hs [5] (pad 32 [5]) demo_server_conn =
      (Ok (x_dh demo_hs (take_rng 32 (rng demo_server_conn)) (ch_x22519_key demo_ch), pad 32 [6]), w') \<and>
      inp w' = [] \<and> wire w' = wire demo_server_conn
        @ raw_frame (encoding (pc_ServerHello demo_hs) (server_hello_of demo_hs [5] (pad 32 [5]) demo_ch (rng demo_server_conn)))
        @ raw_frame (challenge_of demo_hs (rng demo_server_conn))"
    by (intro server_handshake_run [where sig = "ed_sign demo_hs [6] (challenge_of demo_hs (\<lambda>_. 2))"])
       (simp_all add: demo_hs_hellos demo_hs_laws demo_hs_codecs table_codec_single carried_def raw_fits_def
          demo_server_conn_def writable_def client_packet_def, simp_all add: demo_hs_def)
  then show ?thesis by blast
qed

theorem server_handshake_authenticates_witness:
  "\<exists>shared k w'. server_handshake demo_hs [5] (pad 32 [5]) demo_server_conn = (Ok (shared, k), w') \<and>
     (\<exists>before packet sig. inp demo_server_conn = before @ packet @ inp w' \<and> ed_signature demo_hs (take 64 packet) = Inr sig \<and>
       ed_verify demo_hs k (challenge_of demo_hs (rng demo_server_conn)) sig = Inr ())"
proof -
  obtain shared w' where r: "server_handshake demo_hs [5] (pad 32 [5]) demo_server_conn = (Ok (shared, pad 32 [6]), w')"
    using demo_server_run by blast
  from server_handshake_authenticates [OF this] obtain before packet sig where
    "inp demo_server_conn = before @ packet @ inp w'" "ed_signature demo_hs (take 64 packet) = Inr sig"
    "ed_verify demo_hs (pad 32 [6]) (challenge_of demo_hs (rng demo_server_conn)) sig = Inr ()" by blast
  with r show ?thesis
    by - (rule exI [of _ shared], rule exI [of _ "pad 32 [6]"], rule exI [of _ w'], metis)
qed

lemma says_yes_Nil [simp]: "\<not> says_yes []"
  by (simp add: says_yes_def trim_def to_lowercase_def)

lemma approve_sound:
  assumes "hex_ok P" "ed_parse_ok P" "approve_server_key P ip key False w = (Ok k, w')"
  shows "k = key \<and> ((\<exists>m. cs_server_map w = Some (Inr m) \<and> m ip = Some (hex_encode P key)) \<or>
    (\<exists>l ls. cs_stdin w = l # ls \<and> says_yes l))"
  using assms
  by (auto simp: approve_server_key_def AuthServerMap_read_or_create_def read_line_def reject_server_def
      Let_def ret_def fail_def upd_state_def lift_res_def seq_def hex_roundtrip ed_parse_ok_def of_sum_def
      split: prod.splits res.splits option.splits if_splits sum.splits list.splits)

text \<open>Framed I/O in the clear leaves what is not part of the connection alone.\<close>

lemma raw_io_client:
  fixes w w' :: "'a client_state_scheme"
  shows "read_raw_data_into w = (r, w') \<Longrightarrow> cs_server_map w' = cs_server_map w \<and> cs_stdin w' = cs_stdin w"
    and "write_raw_frame_into d w = (q, w') \<Longrightarrow> cs_server_map w' = cs_server_map w \<and> cs_stdin w' = cs_stdin w"
  by (auto simp: read_raw_data_into_def read_frame_length_def seq_def timeout_def wrap_err_def read_exact_def
      write_raw_frame_into_def write_all_def flush_def push_out_def get_state_def upd_state_def
      fail_def ret_def Let_def split: prod.splits res.splits if_splits)

text \<open>
  C9. The client only talks to a server it trusts. When the client's side of the handshake
  completes (without the flag that trusts blindly), the server's key was either on record for this
  address or confirmed by the user, and under that key the hello received from the server carries a
  signature over the client's own fresh nonce and ephemeral key.
\<close>

theorem client_handshake_authenticates:
  assumes "hex_ok P" "ed_parse_ok P"
    and "client_handshake_helper P (Ok ip) sk False v = (Ok key, v')"
  shows "\<exists>(sh :: ServerHello) before d rest. inp v = before @ d @ rest \<and> deserialize (pc_ServerHello P) d = Ok sh \<and>
     ed_verify P (sh_ed25519_key sh) (sha512 P (signed_transcript (ch_nonce (client_hello_of P (rng v)))
        (sh_nonce sh) (ch_x22519_key (client_hello_of P (rng v))) (sh_x22519_key sh))) (sh_signature sh) = Inr () \<and>
     key = salt_session_key P (x_dh P (take_rng 32 (rng v)) (sh_x22519_key sh)) \<and>
     ((\<exists>m. cs_server_map v = Some (Inr m) \<and> m ip = Some (hex_encode P (sh_ed25519_key sh))) \<or>
      (\<exists>l ls. cs_stdin v = l # ls \<and> says_yes l))"
proof -
  let ?ch = "client_hello_of P (rng v)"
  obtain b c d sh ak v1 v2 v3 v4 where
    wr: "write_raw_frame_into b (v\<lparr>rng := skip_rng 32 (skip_rng 32 (rng v))\<rparr>) = (Ok c, v1)"
    and rd: "read_raw_data_into v1 = (Ok d, v2)" and ds: "deserialize (pc_ServerHello P) d = Ok sh"
    and ap: "approve_server_key P ip (sh_ed25519_key sh) False v2 = (Ok ak, v3)"
    and "ed_verify P ak (sha512 P (signed_transcript (ch_nonce ?ch) (sh_nonce sh) (ch_x22519_key ?ch)
      (sh_x22519_key sh))) (sh_signature sh) = Inr ()"
    and "key = salt_session_key P (x_dh P (take_rng 32 (rng v)) (sh_x22519_key sh))"
    using assms(3)
    by (auto simp: client_handshake_helper_def fill_bytes_run generate_x25519_keypair_def client_hello_of_def
        Let_def lift_res_def ret_def elim!: seq_OkE lift_res_OkE of_sum_OkE)
  moreover from this have "cs_server_map v2 = cs_server_map v" "cs_stdin v2 = cs_stdin v"
    by (auto dest!: raw_io_client)
  moreover obtain h where "inp v = h @ d @ inp v2"
    using read_raw_received [OF rd] raw_write_inp(1) [OF wr] by auto
  ultimately show ?thesis
    using approve_sound [OF assms(1,2) ap] ds
    by - (intro exI [of _ sh] exI [of _ h] exI [of _ d] exI [of _ "inp v2"], auto)
qed

lemma demo_client_run:
  "\<exists>k v'. client_handshake_helper demo_hs (Ok ''127.0.0.1:3000'') [6] False demo_client_conn = (Ok k, v')"
proof -
  have sg: "ed_verify demo_hs (pad 32 [5]) c (ed_sign demo_hs [5] c) = Inr ()" for c
    using demo_hs_laws(1) by (simp add: ed_ok_def demo_hs_codecs)
  have sh: "sh_ed25519_key demo_sh = pad 32 [5]"
    by (simp add: demo_sh_def server_hello_of_def Let_def)
  have sig: "sh_signature demo_sh = ed_sign demo_hs [5] (sha512 demo_hs (signed_transcript (ch_nonce demo_ch)
      (sh_nonce demo_sh) (ch_x22519_key demo_ch) (sh_x22519_key demo_sh)))"
    by (simp add: demo_sh_def server_hello_of_def Let_def demo_hs_def)
  have "\<exists>v'. client_handshake_helper demo_hs (Ok ''127.0.0.1:3000'') [6] False demo_client_conn =
      (Ok (salt_session_key demo_hs (x_dh demo_hs (take_rng 32 (rng demo_client_conn)) (sh_x22519_key demo_sh))), v') \<and>
      inp v' = [] \<and> wire v' = wire demo_client_conn @ raw_frame (encoding (pc_ClientHello demo_hs) (client_hello_of demo_hs (rng demo_client_conn)))
      @ raw_frame (client_packet demo_hs [6] (challenge_of demo_hs (\<lambda>_. 2)))"
    by (intro client_handshake_run [where m = "[''127.0.0.1:3000'' \<mapsto> hex_encode demo_hs (pad 32 [5])]"])
       (simp_all add: demo_hs_hellos demo_hs_laws demo_hs_codecs table_codec_single carried_def raw_fits_def
          demo_client_conn_def writable_def sh sig sg challenge_of_def sha_lengths, simp_all add: demo_hs_def)
  then show ?thesis by blast
qed

theorem client_handshake_authenticates_witness:
  "\<exists>key v' (sh :: ServerHello). client_handshake_helper demo_hs (Ok ''127.0.0.1:3000'') [6] False demo_client_conn = (Ok key, v') \<and>
     key = salt_session_key demo_hs (x_dh demo_hs (take_rng 32 (rng demo_client_conn)) (sh_x22519_key sh))"
proof -
  have laws: "hex_ok demo_hs" "ed_parse_ok demo_hs"
    by (rule demo_laws; simp add: demo_hs_def)+
  obtain k v' where "client_handshake_helper demo_hs (Ok ''127.0.0.1:3000'') [6] False demo_client_conn = (Ok k, v')"
    using demo_client_run by blast
  with client_handshake_authenticates [OF laws this] show ?thesis by blast
qed

text \<open>
  C10. Accepting a changed server key does not stick. The branch for a rotated key stores the
  fingerprint of the new key where every other branch stores the key itself, so the very next
  handshake with the same server and the same key asks again, and fails for a user who does not
  answer.
\<close>

theorem rotated_key_asked_again:
  assumes "ed_verifying_key P key = Inr key" "hex_ok P" "sha256 P (as_bytes (hex_encode P key)) \<noteq> key"
    and "cs_dir_err w = None" "cs_server_map w = Some (Inr m)" "m ip = Some old" "old \<noteq> hex_encode P key"
    and "cs_stdin w = [answer]" "says_yes answer"
  shows "\<exists>w'. approve_server_key P ip key False w = (Ok key, w') \<and>
    cs_server_map w' = Some (Inr (m(ip \<mapsto> hex_encode P (sha256 P (as_bytes (hex_encode P key)))))) \<and>
    fst (approve_server_key P ip key False w') = Err ''User rejected rotated server key''"
proof -
  have "hex_encode P (sha256 P (as_bytes (hex_encode P key))) \<noteq> hex_encode P key"
    using assms(2,3) hex_inj by blast
  then show ?thesis
    using assms
    by (simp add: approve_server_key_def AuthServerMap_read_or_create_def AuthServerMap_write_def read_line_def
        reject_server_def run_simps Let_def)
qed

definition demo_rotated :: client_state where
  "demo_rotated = demo_client_conn\<lparr>cs_server_map := Some (Inr [''10.0.0.1:3000'' \<mapsto> ''00'']), cs_stdin := [''y'']\<rparr>"

lemma demo_fp_differs:
  "sha256 demo_hs (as_bytes (hex_encode demo_hs (replicate 32 7))) \<noteq> replicate 32 7"
proof -
  have r: "replicate 32 (7 :: byte) = 7 # replicate 31 7"
    by (simp add: numeral_eq_Suc)
  have "hex_byte 7 = ''07''"
    by (simp add: hex_byte_def hex_digits_def)
  then have "\<exists>x. as_bytes (hex_encode demo_hs (replicate 32 7)) = 48 # x"
    by (simp add: demo_hs_def r as_bytes_def)
  moreover have "pad 32 (48 # x) \<noteq> replicate 32 7" for x
    by (simp add: pad_def r)
  ultimately show ?thesis by (auto simp: demo_hs_def)
qed

lemma demo_old_differs: "''00'' \<noteq> hex_encode demo_hs (replicate 32 7)"
proof
  assume "''00'' = hex_encode demo_hs (replicate 32 7)"
  then have "length ''00'' = length (hex_encode demo_hs (replicate 32 7))" by (rule arg_cong)
  with demo_hs_laws(4) show False by (simp add: hex_ok_def)
qed

theorem rotated_key_asked_again_witness:
  "\<exists>w'. approve_server_key demo_hs ''10.0.0.1:3000'' (replicate 32 7) False demo_rotated = (Ok (replicate 32 7), w') \<and>
    cs_server_map w' = Some (Inr ([''10.0.0.1:3000'' \<mapsto> ''00''](''10.0.0.1:3000'' \<mapsto>
      hex_encode demo_hs (sha256 demo_hs (as_bytes (hex_encode demo_hs (replicate 32 7))))))) \<and>
    fst (approve_server_key demo_hs ''10.0.0.1:3000'' (replicate 32 7) False w') = Err ''User rejected rotated server key''"
  by (rule rotated_key_asked_again [where old = "''00''" and answer = "''y''"])
     (simp_all add: demo_hs_laws demo_fp_differs demo_old_differs demo_rotated_def demo_client_conn_def
        says_yes_def trim_def to_lowercase_def is_ws_def lower_char_def, simp add: demo_hs_def)

end
