(* ===== verification/Serve.thy ===== *)
theory Serve
  imports Rel Locks Handshake
begin

text \<open>
  What the server's handlers share: the state of one connection together with the process-wide
  state (locks, counters, rate limiter), the configuration, where an object is stored, and a lock
  guard that is dropped however its scope is left.
\<close>

record server_state = conn +
  sv_locks :: locks
  sv_tracker :: Tracker
  sv_limiter :: RateLimiter
  sv_wall :: "nat \<Rightarrow> int" \<comment> \<open>readings of the wall clock, nanoseconds\<close>

record config =
  cfg_home :: "path option"
  cfg_env :: env
  cfg_storage :: path
  cfg_pri_key :: bytes
  cfg_pub_key :: bytes
  cfg_rnd :: "rat \<Rightarrow> rat"
  cfg_start :: "int option" \<comment> \<open>\<^verbatim>\<open>START_TIME\<close>\<close>
  cfg_rfc3339 :: "int \<Rightarrow> string" \<comment> \<open>\<^verbatim>\<open>chrono\<close>\<close>

section \<open>Objects\<close>

text \<open>\<^verbatim>\<open><storage>/<sha512 of client key>/<sha256 of file key>/<sha256 of file id>\<close>.\<close>

definition user_dir :: "prims \<Rightarrow> path \<Rightarrow> bytes \<Rightarrow> string \<Rightarrow> path" where
  "user_dir P storage_path client_key file_key =
    path_join (path_join storage_path (hex_encode P (sha512 P client_key)))
      (hex_encode P (sha256 P (as_bytes file_key)))"

definition object_path :: "prims \<Rightarrow> path \<Rightarrow> bytes \<Rightarrow> string \<Rightarrow> string \<Rightarrow> string \<Rightarrow> path" where
  "object_path P storage_path client_key file_key file_id ext =
    path_join (user_dir P storage_path client_key file_key)
      (hex_encode P (sha256 P (as_bytes file_id)) @ ext)"

text \<open>An object on the disk: its contents and its metadata.\<close>

definition stores :: "prims \<Rightarrow> config \<Rightarrow> bytes \<Rightarrow> string \<Rightarrow> string \<Rightarrow> MetadataFile \<Rightarrow> bytes \<Rightarrow> fs \<Rightarrow> bool" where
  "stores P cfg ck fk fid m d f \<longleftrightarrow> path_exists f (user_dir P (cfg_storage cfg) ck fk) \<and>
     fs_get f (object_path P (cfg_storage cfg) ck fk fid ''.file'') = Some (FileNode d) \<and>
     fs_get f (object_path P (cfg_storage cfg) ck fk fid ''.meta'') = Some (FileNode (encoding (pc_MetadataFile P) m))"

section \<open>Errors and guards\<close>

definition reply_failed :: "prims \<Rightarrow> nat \<Rightarrow> string \<Rightarrow> bytes \<Rightarrow> ('a conn_scheme, unit) io" where
  "reply_failed P code msg session_key =
    send_failed P \<lparr>err_code = of_nat code, err_message = msg\<rparr> session_key"

definition lock_hold :: "string \<Rightarrow> ('a server_state_scheme, nat) io" where
  "lock_hold file_id w = (case hold_file_lock file_id (sv_locks w) of (l, lk) \<Rightarrow> (Ok l, w\<lparr>sv_locks := lk\<rparr>))"

definition lock_try :: "bool \<Rightarrow> nat \<Rightarrow> ('a server_state_scheme, bool) io" where
  "lock_try wr l w = (case try_lock wr l (sv_locks w) of None \<Rightarrow> (Ok False, w)
     | Some lk \<Rightarrow> (Ok True, w\<lparr>sv_locks := lk\<rparr>))"

text \<open>
  The scope of a guard: it is dropped when the scope ends, by a value, an error or a panic. A scope
  that is never left keeps it.
\<close>

definition guarded :: "bool \<Rightarrow> nat \<Rightarrow> ('a server_state_scheme, 'b) io \<Rightarrow> ('a server_state_scheme, 'b) io" where
  "guarded wr l m w = (case m w of (r, w') \<Rightarrow>
     if r = Pending then (r, w') else (r, w'\<lparr>sv_locks := drop_lock wr l (sv_locks w')\<rparr>))"

definition release_lock :: "string \<Rightarrow> ('a server_state_scheme, unit) io" where
  "release_lock file_id = upd_state (\<lambda>w. w\<lparr>sv_locks := release_file_lock file_id (sv_locks w)\<rparr>)"

text \<open>A guard can be had: no entry yet, or the entry's lock grants it.\<close>

definition lock_available :: "bool \<Rightarrow> string \<Rightarrow> locks \<Rightarrow> bool" where
  "lock_available wr file_id lk \<longleftrightarrow> (case lk_map lk file_id of None \<Rightarrow> True | Some l \<Rightarrow> try_lock wr l lk \<noteq> None)"

section \<open>Facts about object paths\<close>

lemma hex_plain: "hex_ok P \<Longrightarrow> b \<noteq> [] \<Longrightarrow> plain_name (hex_encode P b)"
proof -
  assume P: "hex_ok P" and b: "b \<noteq> []"
  have s: "set (hex_encode P b) \<subseteq> set hex_digits" and l: "length (hex_encode P b) = 2 * length b"
    using P by (auto simp: hex_ok_def)
  have "CHR ''/'' \<notin> set hex_digits" "CHR ''.'' \<notin> set hex_digits" by (simp_all add: hex_digits_def)
  with s have ns: "CHR ''/'' \<notin> set (hex_encode P b)" "CHR ''.'' \<notin> set (hex_encode P b)" by blast+
  moreover have "hex_encode P b \<noteq> []" using l b by auto
  moreover have "hex_encode P b \<noteq> ''.''" "hex_encode P b \<noteq> ''..''" using ns(2) by auto
  ultimately show ?thesis by (simp add: plain_name_def)
qed

lemma hex_ext_plain: "hex_ok P \<Longrightarrow> b \<noteq> [] \<Longrightarrow> ext \<in> {''.file'', ''.meta''} \<Longrightarrow> plain_name (hex_encode P b @ ext)"
  using hex_plain [of P b] by (auto simp: plain_name_def)

lemma sha_nonempty: "sha_ok P \<Longrightarrow> sha256 P x \<noteq> []" "sha_ok P \<Longrightarrow> sha512 P x \<noteq> []"
  using sha_lengths [of P x] by (force simp: sha_lengths)+

lemma user_dir_plain:
  assumes "hex_ok P" "sha_ok P"
  shows "user_dir P st ck fk = st @ [hex_encode P (sha512 P ck), hex_encode P (sha256 P (as_bytes fk))]"
  using assms by (simp add: user_dir_def hex_plain sha_nonempty)

lemma object_path_plain:
  assumes "hex_ok P" "sha_ok P" "ext \<in> {''.file'', ''.meta''}"
  shows "object_path P st ck fk fid ext = user_dir P st ck fk @ [hex_encode P (sha256 P (as_bytes fid)) @ ext]"
  using assms by (simp only: object_path_def path_join_plain [OF hex_ext_plain] sha_nonempty simp_thms)

section \<open>Evaluation lemmas\<close>

lemma server_after_frame [simp]:
  "sv_locks (after_frame P key m p w) = sv_locks w" "sv_tracker (after_frame P key m p w) = sv_tracker w"
  "sv_limiter (after_frame P key m p w) = sv_limiter w"
  by (simp_all add: after_frame_def)

lemma reply_failed_run:
  assumes "channel_ok P key" "error_deliverable P code msg w"
  obtains p where "reply_failed P code msg key w =
    (Ok (), (after_frame P key (error_payload P code msg) p w)\<lparr>out_shut := True\<rparr>)"
  using send_failed_run [OF assms] unfolding reply_failed_def by blast

lemma hex_not_continuation: "c \<in> set hex_digits \<Longrightarrow> \<not> 128 \<le> (of_char c :: nat)"
  by (auto simp: hex_digits_def)

lemma str_prefix_hash: "sha_ok P \<Longrightarrow> hex_ok P \<Longrightarrow> str_prefix 8 (content_hash P d) = Ok (take 8 (content_hash P d))"
proof -
  assume P: "sha_ok P" "hex_ok P"
  then have l: "length (content_hash P d) = 64" by (rule length_content_hash)
  then have "content_hash P d ! 8 \<in> set (content_hash P d)" by simp
  moreover have "set (content_hash P d) \<subseteq> set hex_digits" using P by (simp add: content_hash_def hex_ok_def)
  ultimately have "\<not> 128 \<le> (of_char (content_hash P d ! 8) :: nat)" using hex_not_continuation by blast
  with l show ?thesis by (simp add: str_prefix_def is_char_boundary_def)
qed

text \<open>A path below which nothing is in the way.\<close>

lemma create_dir_all_free: "\<not> list_ex (is_file f) (prefixes p) \<Longrightarrow> \<exists>f'. create_dir_all p f = Ok f'"
  by (simp add: create_dir_all_def)

lemma file_write_below:
  assumes "create_dir_all dir f = Ok f'" "p = dir @ [n]" "\<not> path_is_dir g p" "fs_get g dir = fs_get f' dir"
  shows "file_write p d g = Ok (fs_set p (FileNode d) g)"
proof (cases "dir = []")
  case False
  then have "fs_get f' dir = Some DirNode" using create_dir_all_is_dir [OF assms(1)] by simp
  with assms show ?thesis by (simp add: file_write_def path_is_dir_def)
qed (use assms in \<open>simp add: file_write_def\<close>)

lemma try_lock_map: "try_lock wr l lk = Some lk' \<Longrightarrow> lk_map lk' = lk_map lk"
  by (rule lk_map_try_drop)

lemma lock_enter:
  assumes "lock_available wr fid (sv_locks w)"
  obtains l lk lk' where "lock_hold fid w = (Ok l, w\<lparr>sv_locks := lk\<rparr>)"
    "lock_try wr l (w\<lparr>sv_locks := lk\<rparr>) = (Ok True, w\<lparr>sv_locks := lk'\<rparr>)"
    "lk_map lk' = (lk_map (sv_locks w))(fid \<mapsto> l)"
proof -
  obtain l lk where h: "hold_file_lock fid (sv_locks w) = (l, lk)" by force
  then have m: "lk_map lk = (lk_map (sv_locks w))(fid \<mapsto> l)" and t: "try_lock wr l lk \<noteq> None"
    using assms
    by (auto simp: hold_file_lock_def lock_available_def try_lock_def try_write_def try_read_def
        free_lock_def MAX_READS_def Let_def split: option.splits if_splits)
  then obtain lk' where lk': "try_lock wr l lk = Some lk'" by blast
  show thesis
    by (rule that [of l lk lk']) (use h m lk' in \<open>simp_all add: lock_hold_def lock_try_def try_lock_map\<close>)
qed

lemma lock_busy:
  assumes "\<not> lock_available wr fid (sv_locks w)"
  obtains l where "lock_hold fid w = (Ok l, w)" "lock_try wr l w = (Ok False, w)"
  using assms by (auto simp: lock_available_def lock_hold_def hold_file_lock_def lock_try_def split: option.splits)

text \<open>Locks, guards and counters do not touch the disk.\<close>

lemma steps_server:
  "steps (\<lambda>w w'. only_changes dir A (disk w) (disk w')) (lock_hold fid)"
  "steps (\<lambda>w w'. only_changes dir A (disk w) (disk w')) (lock_try wr l)"
  "steps (\<lambda>w w'. only_changes dir A (disk w) (disk w')) (release_lock fid)"
  "steps (\<lambda>w w'. only_changes dir A (disk w) (disk w')) (upd_state (\<lambda>w. w\<lparr>sv_tracker := g w\<rparr>))"
  by (auto simp: steps_def lock_hold_def lock_try_def release_lock_def upd_state_def split: prod.splits option.splits)

lemma steps_guarded:
  "steps (\<lambda>w w'. only_changes dir A (disk w) (disk w')) m \<Longrightarrow>
   steps (\<lambda>w w'. only_changes dir A (disk w) (disk w')) (guarded wr l m)"
  by (rule stepsI) (auto simp: guarded_def split: prod.splits if_splits dest: stepsD)

lemma steps_reply_failed: "steps (\<lambda>w w'. only_changes dir A (disk w) (disk w')) (reply_failed P c msg key)"
  unfolding reply_failed_def by (rule ds.steps_io)

lemmas server_steps = ds.steps_rules ds.steps_io ds.steps_timeout ds.steps_fs_query steps_server steps_guarded steps_reply_failed

section \<open>A concrete server\<close>

definition demo_key :: bytes where
  "demo_key = replicate 32 1"

definition demo_cfg :: config where
  "demo_cfg = \<lparr>cfg_home = None, cfg_env = (\<lambda>_. None), cfg_storage = [''s''], cfg_pri_key = [], cfg_pub_key = [], cfg_rnd = (\<lambda>x. x),
     cfg_start = None, cfg_rfc3339 = (\<lambda>_. ''t'')\<rparr>"

definition demo_sv :: "bytes \<Rightarrow> server_state" where
  "demo_sv i = \<lparr>inp = i, inp_end = Closed, out_buf = [], out_sent = [], out_room = 1000, out_end = Closed, out_shut = False,
     pool = [], rng = (\<lambda>_. 2), clock = (\<lambda>_. 0), waited = 0, disk = [],
     sv_locks = no_locks, sv_tracker = Tracker_default, sv_limiter = RateLimiter_init 20 10, sv_wall = (\<lambda>_. 0)\<rparr>"

end
