(* ===== verification/Upload.thy ===== *)
theory Upload
  imports Serve
begin

text \<open>
  \<^verbatim>\<open>handle_upload\<close> of \<^verbatim>\<open>src/protocol_v1.rs\<close>: take the file's write lock, create the client's
  directories, acknowledge, receive the file, compare its hash with the announced one, store the
  metadata, answer, give the lock back and count the upload.
\<close>

section \<open>The handler\<close>

text \<open>What runs while the guard is held; \<open>True\<close> when the end of the function is still to run.\<close>

definition upload_body :: "prims \<Rightarrow> config \<Rightarrow> UploadHeader \<Rightarrow> nat \<Rightarrow> bytes \<Rightarrow> bytes \<Rightarrow> ('a conn_scheme, bool) io" where
  "upload_body P cfg headers time_start session_key client_key =
    (let file_key_hash = hex_encode P (sha256 P (as_bytes (uh_file_key headers)));
         user_dir_path = user_dir P (cfg_storage cfg) client_key (uh_file_key headers);
         file_path = object_path P (cfg_storage cfg) client_key (uh_file_key headers) (uh_file_id headers) ''.file'';
         metadata_path = object_path P (cfg_storage cfg) client_key (uh_file_key headers) (uh_file_id headers) ''.meta''
     in
     seq (fs_do (create_dir_all user_dir_path)) (\<lambda>_.
     seq (lift_res (str_prefix 8 (uh_file_hash headers))) (\<lambda>_.
     seq (timeout WRITE_TIMEOUT deadline_elapsed (write_encrypt_frame_into P [1] session_key)) (\<lambda>_.
     seq instant_now (\<lambda>now.
     let network_elapsed = as_secs_f32 P (now - time_start) in
     seq (receive_file ''Upload timed out reading chunk'' id P session_key file_path (uh_file_size headers)) (\<lambda>computed_hash.
     if computed_hash \<noteq> uh_file_hash headers then
       seq (attempt (fs_do (remove_file file_path))) (\<lambda>_.
       seq (reply_failed P 406 ''File hash mismatch'' session_key) (\<lambda>_.
       ret False))
     else
       seq (fs_do (MetadataFile_save_to_disk P
              \<lparr>md_filename = uh_file_name headers, md_file_size = uh_file_size headers,
               md_file_hash = uh_file_hash headers, md_file_key_hash = file_key_hash\<rparr> metadata_path)) (\<lambda>_.
       seq (send_success P (pc_UploadResponse P)
              \<lparr>ur_file_id = uh_file_id headers, ur_file_hash = computed_hash, ur_network_time = network_elapsed\<rparr>
              session_key) (\<lambda>_.
       ret True))))))))"

definition handle_upload :: "prims \<Rightarrow> config \<Rightarrow> UploadHeader \<Rightarrow> nat \<Rightarrow> bytes \<Rightarrow> bytes \<Rightarrow> ('a server_state_scheme, unit) io" where
  "handle_upload P cfg headers time_start session_key client_key =
    seq (lock_hold (uh_file_id headers)) (\<lambda>l.
    seq (lock_try True l) (\<lambda>acquired.
    if \<not> acquired then reply_failed P 409 ''File is currently locked by another operation'' session_key
    else
      seq (guarded True l (upload_body P cfg headers time_start session_key client_key)) (\<lambda>completed.
      if completed then
        seq (release_lock (uh_file_id headers)) (\<lambda>_.
        upd_state (\<lambda>w. w\<lparr>sv_tracker := log_upload (cfg_rnd cfg) (uh_file_size headers) (sv_tracker w)\<rparr>))
      else ret ())))"

section \<open>The disk after an upload\<close>

text \<open>What an upload leaves at each path, given what is at the object's two files afterwards.\<close>

definition upload_disk :: "fs \<Rightarrow> path \<Rightarrow> path \<Rightarrow> node option \<Rightarrow> path \<Rightarrow> node option \<Rightarrow> fs \<Rightarrow> bool" where
  "upload_disk f dir file a meta b f' \<longleftrightarrow> (\<forall>q. fs_get f' q =
     (if q = file then a else if q = meta then b
      else if prefix q dir \<and> q \<noteq> [] \<and> fs_get f q = None then Some DirNode else fs_get f q))"

definition metadata_of :: "prims \<Rightarrow> UploadHeader \<Rightarrow> MetadataFile" where
  "metadata_of P h = \<lparr>md_filename = uh_file_name h, md_file_size = uh_file_size h,
     md_file_hash = uh_file_hash h, md_file_key_hash = hex_encode P (sha256 P (as_bytes (uh_file_key h)))\<rparr>"

definition upload_response :: "prims \<Rightarrow> UploadHeader \<Rightarrow> nat \<Rightarrow> UploadResponse" where
  "upload_response P h elapsed = \<lparr>ur_file_id = uh_file_id h, ur_file_hash = uh_file_hash h,
     ur_network_time = as_secs_f32 P elapsed\<rparr>"

text \<open>
  The crates behave, the directories can be made, and neither of the object's files is a directory:
  what an upload needs of its surroundings.
\<close>

definition storable :: "prims \<Rightarrow> config \<Rightarrow> bytes \<Rightarrow> string \<Rightarrow> string \<Rightarrow> fs \<Rightarrow> bool" where
  "storable P cfg ck fk fid f \<longleftrightarrow> sha_ok P \<and> hex_ok P \<and>
     \<not> list_ex (is_file f) (prefixes (user_dir P (cfg_storage cfg) ck fk)) \<and>
     \<not> path_is_dir f (object_path P (cfg_storage cfg) ck fk fid ''.file'') \<and>
     \<not> path_is_dir f (object_path P (cfg_storage cfg) ck fk fid ''.meta'')"

section \<open>A complete upload\<close>

lemma object_paths:
  assumes "sha_ok P" "hex_ok P"
  obtains n where "object_path P st ck fk fid ''.file'' = user_dir P st ck fk @ [n @ ''.file'']"
    "object_path P st ck fk fid ''.meta'' = user_dir P st ck fk @ [n @ ''.meta'']" "user_dir P st ck fk \<noteq> []"
  using object_path_plain [OF assms(2,1)] user_dir_plain [OF assms(2,1)] by simp

lemma upload_prepare:
  assumes "storable P cfg ck fk fid f"
  defines "dir \<equiv> user_dir P (cfg_storage cfg) ck fk"
    and "file \<equiv> object_path P (cfg_storage cfg) ck fk fid ''.file''"
    and "meta \<equiv> object_path P (cfg_storage cfg) ck fk fid ''.meta''"
  obtains f0 where "create_dir_all dir f = Ok f0" "file_write file [] f0 = Ok (fs_set file (FileNode []) f0)"
    "\<forall>g b c. (\<forall>q. fs_get g q = (if q = file then Some (FileNode b) else fs_get f0 q)) \<longrightarrow>
       file_write meta c g = Ok (fs_set meta (FileNode c) g)"
    "\<forall>q. fs_get f0 q = (if prefix q dir \<and> q \<noteq> [] \<and> fs_get f q = None then Some DirNode else fs_get f q)"
    "file \<noteq> meta" "\<not> prefix file dir" "\<not> prefix meta dir"
proof -
  have P: "sha_ok P" "hex_ok P" and s: "\<not> list_ex (is_file f) (prefixes dir)"
    "\<not> path_is_dir f file" "\<not> path_is_dir f meta"
    using assms by (simp_all add: storable_def)
  obtain n where n: "file = dir @ [n @ ''.file'']" "meta = dir @ [n @ ''.meta'']" "dir \<noteq> []"
    using object_paths [OF P, of "cfg_storage cfg" ck fk fid] unfolding dir_def file_def meta_def by blast
  obtain f0 where f0: "create_dir_all dir f = Ok f0" using create_dir_all_free [OF s(1)] by blast
  have g0: "fs_get f0 q = (if prefix q dir \<and> q \<noteq> [] \<and> fs_get f q = None then Some DirNode else fs_get f q)" for q
    using f0 by (rule create_dir_all_get)
  have np: "\<not> prefix file dir" "\<not> prefix meta dir" using n by (auto dest: prefix_length_le)
  have "file_write file [] f0 = Ok (fs_set file (FileNode []) f0)"
    using f0 n(1) np s(2) g0 by (intro file_write_below [where dir = dir and f = f and f' = f0]) (simp_all add: path_is_dir_def)
  moreover have "file_write meta c g = Ok (fs_set meta (FileNode c) g)"
    if "\<forall>q. fs_get g q = (if q = file then Some (FileNode b) else fs_get f0 q)" for g b c
    using f0 n np s(3) g0 that
    by (intro file_write_below [where dir = dir and f = f and f' = f0]) (auto simp: path_is_dir_def)
  ultimately show thesis using f0 g0 np n by (intro that) auto
qed

text \<open>The start of the body, up to the point where the file has been received.\<close>

definition upload_tail :: "prims \<Rightarrow> config \<Rightarrow> UploadHeader \<Rightarrow> nat \<Rightarrow> bytes \<Rightarrow> bytes \<Rightarrow> string \<Rightarrow> ('a conn_scheme, bool) io" where
  "upload_tail P cfg h elapsed session_key client_key computed_hash =
    (if computed_hash \<noteq> uh_file_hash h then
       seq (attempt (fs_do (remove_file (object_path P (cfg_storage cfg) client_key (uh_file_key h) (uh_file_id h) ''.file'')))) (\<lambda>_.
       seq (reply_failed P 406 ''File hash mismatch'' session_key) (\<lambda>_. ret False))
     else
       seq (fs_do (MetadataFile_save_to_disk P (metadata_of P h)
              (object_path P (cfg_storage cfg) client_key (uh_file_key h) (uh_file_id h) ''.meta''))) (\<lambda>_.
       seq (send_success P (pc_UploadResponse P)
              ((upload_response P h elapsed)\<lparr>ur_file_hash := computed_hash\<rparr>) session_key) (\<lambda>_. ret True)))"

lemma upload_body_received:
  fixes w :: "'a conn_scheme"
  assumes "channel_ok P key" "storable P cfg ck (uh_file_key h) (uh_file_id h) (disk w)"
    "str_prefix 8 (uh_file_hash h) = Ok x" "length d = unat (uh_file_size h)" "sealed_stream P key d (inp w) rest"
    "writable 33 w"
  defines "file \<equiv> object_path P (cfg_storage cfg) ck (uh_file_key h) (uh_file_id h) ''.file''"
    and "dir \<equiv> user_dir P (cfg_storage cfg) ck (uh_file_key h)"
  obtains p f0 f where "create_dir_all dir (disk w) = Ok f0"
    "\<forall>q. fs_get f q = (if q = file then Some (FileNode d) else fs_get f0 q)"
    "upload_body P cfg h ts key ck w = upload_tail P cfg h (clock w 0 - ts) key ck (content_hash P d)
      ((after_frame P key [1] p w)\<lparr>clock := (\<lambda>i. clock w (Suc i)), inp := rest, disk := f\<rparr>)"
proof -
  obtain f0 where f0: "create_dir_all dir (disk w) = Ok f0" "file_write file [] f0 = Ok (fs_set file (FileNode []) f0)"
    by (rule upload_prepare [OF assms(2), folded file_def dir_def])
  have fit: "sealed_fits [1 :: byte]" by (simp add: sealed_fits_def)
  let ?w0 = "w\<lparr>disk := f0\<rparr>"
  obtain p where "timeout WRITE_TIMEOUT deadline_elapsed (write_encrypt_frame_into P [1] key) ?w0 = (Ok (), after_frame P key [1] p ?w0)"
    using write_frame_timeout [OF assms(1) fit, of ?w0] assms(6) by (auto simp: writable_def)
  moreover have "after_frame P key [1] p ?w0 = (after_frame P key [1] p w)\<lparr>disk := f0\<rparr>"
    by (simp add: after_frame_def wire_def next_nonce_def)
  ultimately have ack: "timeout WRITE_TIMEOUT deadline_elapsed (write_encrypt_frame_into P [1] key) ?w0 =
      (Ok (), (after_frame P key [1] p w)\<lparr>disk := f0\<rparr>)" by simp
  let ?w1 = "(after_frame P key [1] p w)\<lparr>disk := f0, clock := (\<lambda>i. clock w (Suc i))\<rparr>"
  have now: "instant_now ((after_frame P key [1] p w)\<lparr>disk := f0\<rparr>) = (Ok (clock w 0), ?w1)"
    by (simp add: instant_now_def)
  have sha: "sha_ok P" using assms(2) by (simp add: storable_def)
  have dw: "disk ?w1 = f0" by simp
  have fw: "file_write file [] (disk ?w1) = Ok (fs_set file (FileNode []) f0)" using f0(2) by simp
  obtain f where f: "receive_file ''Upload timed out reading chunk'' id P key file (uh_file_size h) ?w1 =
      (Ok (content_hash P d), ?w1\<lparr>inp := rest, disk := f\<rparr>)"
    "\<And>q. fs_get f q = (if q = file then Some (FileNode d) else fs_get f0 q)"
    using receive_file_ok [OF assms(1) sha fw assms(4), of rest "''Upload timed out reading chunk''" id] assms(5)
    unfolding dw by auto
  have "upload_body P cfg h ts key ck w = upload_tail P cfg h (clock w 0 - ts) key ck (content_hash P d)
      ((after_frame P key [1] p w)\<lparr>clock := (\<lambda>i. clock w (Suc i)), inp := rest, disk := f\<rparr>)"
    using f0(1) ack now f(1) assms(3)
    by (simp add: upload_body_def Let_def dir_def [symmetric] file_def [symmetric] run_simps)
       (simp add: upload_tail_def metadata_of_def upload_response_def file_def)
  then show thesis by (rule that [OF f0(1) allI [OF f(2)]])
qed

text \<open>When the hash agrees, the metadata is stored and the response sent.\<close>

lemma upload_body_ok:
  fixes w :: "'a conn_scheme"
  assumes "channel_ok P key" "storable P cfg ck (uh_file_key h) (uh_file_id h) (disk w)"
    "uh_file_hash h = content_hash P d" "length d = unat (uh_file_size h)" "sealed_stream P key d (inp w) rest"
    "roundtrips (pc_MetadataFile P) (metadata_of P h)"
    "roundtrips (pc_UploadResponse P) (upload_response P h (clock w 0 - ts))"
    "sealed_fits (1 # encoding (pc_UploadResponse P) (upload_response P h (clock w 0 - ts)))"
    "writable (66 + length (encoding (pc_UploadResponse P) (upload_response P h (clock w 0 - ts)))) w"
  defines "file \<equiv> object_path P (cfg_storage cfg) ck (uh_file_key h) (uh_file_id h) ''.file''"
    and "meta \<equiv> object_path P (cfg_storage cfg) ck (uh_file_key h) (uh_file_id h) ''.meta''"
    and "dir \<equiv> user_dir P (cfg_storage cfg) ck (uh_file_key h)"
    and "rsp \<equiv> 1 # encoding (pc_UploadResponse P) (upload_response P h (clock w 0 - ts))"
  obtains p p' f where "upload_body P cfg h ts key ck w = (Ok True,
      (after_frame P key rsp p' ((after_frame P key [1] p w)\<lparr>clock := (\<lambda>i. clock w (Suc i)), inp := rest, disk := f\<rparr>))
        \<lparr>out_shut := True\<rparr>)"
    "upload_disk (disk w) dir file (Some (FileNode d)) meta (Some (FileNode (encoding (pc_MetadataFile P) (metadata_of P h)))) f"
proof -
  have P: "sha_ok P" "hex_ok P" using assms(2) by (simp_all add: storable_def)
  have sp: "str_prefix 8 (uh_file_hash h) = Ok (take 8 (uh_file_hash h))" using str_prefix_hash [OF P] assms(3) by simp
  have w33: "writable 33 w" using assms(9) by (simp add: writable_def)
  obtain p f0 f where f0: "create_dir_all dir (disk w) = Ok f0"
    and f: "\<forall>q. fs_get f q = (if q = file then Some (FileNode d) else fs_get f0 q)"
    and b: "upload_body P cfg h ts key ck w = upload_tail P cfg h (clock w 0 - ts) key ck (content_hash P d)
      ((after_frame P key [1] p w)\<lparr>clock := (\<lambda>i. clock w (Suc i)), inp := rest, disk := f\<rparr>)"
    by (rule upload_body_received [OF assms(1,2) sp assms(4,5) w33, of ts, folded file_def dir_def]) blast
  let ?m = "encoding (pc_MetadataFile P) (metadata_of P h)"
  let ?f = "fs_set meta (FileNode ?m) f"
  have mw: "file_write meta ?m f = Ok ?f \<and> file \<noteq> meta \<and> \<not> prefix meta dir \<and> \<not> prefix file dir \<and>
      (\<forall>q. fs_get f0 q = (if prefix q dir \<and> q \<noteq> [] \<and> fs_get (disk w) q = None then Some DirNode else fs_get (disk w) q))"
    by (rule upload_prepare [OF assms(2), folded file_def dir_def meta_def]) (use f f0 in \<open>auto simp: dir_def\<close>)
  then have u: "upload_disk (disk w) dir file (Some (FileNode d)) meta (Some (FileNode ?m)) ?f"
    using f by (auto simp: upload_disk_def)
  let ?w = "(after_frame P key [1] p w)\<lparr>clock := (\<lambda>i. clock w (Suc i)), inp := rest, disk := ?f\<rparr>"
  have "writable (33 + length (encoding (pc_UploadResponse P) (upload_response P h (clock w 0 - ts)))) ?w"
    using assms(9) by (simp add: writable_def)
  from send_success_run [OF assms(1,7,8) this] obtain p' where
    "send_success P (pc_UploadResponse P) (upload_response P h (clock w 0 - ts)) key ?w =
      (Ok (), (after_frame P key rsp p' ?w)\<lparr>out_shut := True\<rparr>)"
    unfolding rsp_def by blast
  moreover have "(upload_response P h (clock w 0 - ts))\<lparr>ur_file_hash := content_hash P d\<rparr> =
      upload_response P h (clock w 0 - ts)"
    using assms(3) by (simp add: upload_response_def)
  ultimately have "upload_body P cfg h ts key ck w = (Ok True, (after_frame P key rsp p' ?w)\<lparr>out_shut := True\<rparr>)"
    using b mw assms(3,6) by (simp add: upload_tail_def meta_def [symmetric] metadata_save run_simps)
  with u that show thesis by blast
qed

text \<open>When it does not, what was received is deleted and the client told; the metadata is not touched.\<close>

lemma upload_body_mismatch:
  fixes w :: "'a conn_scheme"
  assumes "channel_ok P key" "storable P cfg ck (uh_file_key h) (uh_file_id h) (disk w)"
    "str_prefix 8 (uh_file_hash h) = Ok x" "uh_file_hash h \<noteq> content_hash P d"
    "length d = unat (uh_file_size h)" "sealed_stream P key d (inp w) rest"
    "roundtrips (pc_ErrorHeader P) \<lparr>err_code = 406, err_message = ''File hash mismatch''\<rparr>"
    "sealed_fits (error_payload P 406 ''File hash mismatch'')"
    "writable (65 + length (error_payload P 406 ''File hash mismatch'')) w"
  defines "file \<equiv> object_path P (cfg_storage cfg) ck (uh_file_key h) (uh_file_id h) ''.file''"
    and "meta \<equiv> object_path P (cfg_storage cfg) ck (uh_file_key h) (uh_file_id h) ''.meta''"
    and "dir \<equiv> user_dir P (cfg_storage cfg) ck (uh_file_key h)"
  obtains p p' f where "upload_body P cfg h ts key ck w = (Ok False,
      (after_frame P key (error_payload P 406 ''File hash mismatch'') p'
        ((after_frame P key [1] p w)\<lparr>clock := (\<lambda>i. clock w (Suc i)), inp := rest, disk := f\<rparr>))\<lparr>out_shut := True\<rparr>)"
    "upload_disk (disk w) dir file None meta (fs_get (disk w) meta) f"
proof -
  have w33: "writable 33 w" using assms(9) by (simp add: writable_def)
  obtain p f0 f where f0: "create_dir_all dir (disk w) = Ok f0"
    and f: "\<forall>q. fs_get f q = (if q = file then Some (FileNode d) else fs_get f0 q)"
    and b: "upload_body P cfg h ts key ck w = upload_tail P cfg h (clock w 0 - ts) key ck (content_hash P d)
      ((after_frame P key [1] p w)\<lparr>clock := (\<lambda>i. clock w (Suc i)), inp := rest, disk := f\<rparr>)"
    by (rule upload_body_received [OF assms(1,2,3,5,6) w33, of ts, folded file_def dir_def]) blast
  have mw: "file \<noteq> meta \<and> \<not> prefix meta dir \<and> \<not> prefix file dir \<and>
      (\<forall>q. fs_get f0 q = (if prefix q dir \<and> q \<noteq> [] \<and> fs_get (disk w) q = None then Some DirNode else fs_get (disk w) q))"
    by (rule upload_prepare [OF assms(2), folded file_def dir_def meta_def]) (use f0 in \<open>auto simp: dir_def\<close>)
  let ?f = "AList.delete file f"
  have rm: "remove_file file f = Ok ?f" using f by (simp add: remove_file_def)
  then have u: "upload_disk (disk w) dir file None meta (fs_get (disk w) meta) ?f"
    using f mw remove_file_get [OF rm] by (auto simp: upload_disk_def)
  let ?w = "(after_frame P key [1] p w)\<lparr>clock := (\<lambda>i. clock w (Suc i)), inp := rest, disk := ?f\<rparr>"
  have "error_deliverable P 406 ''File hash mismatch'' ?w"
    using assms(7-9) by (simp add: error_deliverable_def writable_def)
  then obtain p' where "reply_failed P 406 ''File hash mismatch'' key ?w =
      (Ok (), (after_frame P key (error_payload P 406 ''File hash mismatch'') p' ?w)\<lparr>out_shut := True\<rparr>)"
    by (rule reply_failed_run [OF assms(1)])
  then have "upload_body P cfg h ts key ck w = (Ok False,
      (after_frame P key (error_payload P 406 ''File hash mismatch'') p' ?w)\<lparr>out_shut := True\<rparr>)"
    using b rm assms(4) by (simp add: upload_tail_def file_def [symmetric] run_simps)
  then show thesis by (rule that [OF _ u])
qed

section \<open>The whole handler\<close>

text \<open>
  With the lock free, the handler is its body followed by the release and the counters when the
  body ran to its end.
\<close>

lemma handle_upload_completed:
  fixes w :: "'a server_state_scheme"
  assumes "lock_available True (uh_file_id h) (sv_locks w)"
    "\<And>lk. \<exists>w'. upload_body P cfg h ts key ck (w\<lparr>sv_locks := lk\<rparr>) = (Ok completed, w') \<and> sv_locks w' = lk \<and> Q w' \<and> sv_tracker w' = sv_tracker w"
    "\<And>w' lk tr. Q w' \<Longrightarrow> Q (w'\<lparr>sv_locks := lk\<rparr>)" "\<And>w' lk tr. Q w' \<Longrightarrow> Q (w'\<lparr>sv_tracker := tr\<rparr>)"
  obtains w' l where "handle_upload P cfg h ts key ck w = (Ok (), w')" "Q w'"
    "lk_map (sv_locks w') = (lk_map (sv_locks w))(uh_file_id h := (if completed then None else Some l))"
    "sv_tracker w' = (if completed then log_upload (cfg_rnd cfg) (uh_file_size h) (sv_tracker w) else sv_tracker w)"
proof -
  obtain l lk lk' where l: "lock_hold (uh_file_id h) w = (Ok l, w\<lparr>sv_locks := lk\<rparr>)"
    "lock_try True l (w\<lparr>sv_locks := lk\<rparr>) = (Ok True, w\<lparr>sv_locks := lk'\<rparr>)"
    "lk_map lk' = (lk_map (sv_locks w))(uh_file_id h \<mapsto> l)"
    by (rule lock_enter [OF assms(1)])
  obtain w1 where w1: "upload_body P cfg h ts key ck (w\<lparr>sv_locks := lk'\<rparr>) = (Ok completed, w1)" "sv_locks w1 = lk'" "Q w1"
    "sv_tracker w1 = sv_tracker w"
    using assms(2) by blast
  let ?w2 = "w1\<lparr>sv_locks := drop_lock True l lk'\<rparr>"
  have g: "guarded True l (upload_body P cfg h ts key ck) (w\<lparr>sv_locks := lk'\<rparr>) = (Ok completed, ?w2)"
    using w1(1,2) by (simp add: guarded_def)
  have q: "Q ?w2" using assms(3) w1(3) by blast
  show thesis
  proof (cases completed)
    case True
    let ?w3 = "?w2\<lparr>sv_locks := release_file_lock (uh_file_id h) (drop_lock True l lk')\<rparr>"
    let ?w4 = "?w3\<lparr>sv_tracker := log_upload (cfg_rnd cfg) (uh_file_size h) (sv_tracker ?w3)\<rparr>"
    have "Q ?w3" using q by (rule assms(3))
    then have "Q ?w4" by (rule assms(4))
    moreover have "handle_upload P cfg h ts key ck w = (Ok (), ?w4)"
      using l g True by (simp add: handle_upload_def release_lock_def run_simps)
    ultimately show thesis
      using l(3) w1(4) True by (intro that [of ?w4 l]) (simp_all add: release_file_lock_def lk_map_try_drop)
  next
    case False
    then have "handle_upload P cfg h ts key ck w = (Ok (), ?w2)"
      using l g by (simp add: handle_upload_def run_simps)
    with q False l(3) w1(4) show thesis by (intro that [of ?w2 l]) (simp_all add: lk_map_try_drop)
  qed
qed

section \<open>What an upload does\<close>

text \<open>
  The request has reached the handler and its file is on the wire: the channel works, the file's
  lock is free, the object can be stored, and the input is the sealed chunks of \<open>d\<close>, as many bytes
  as the header announces.
\<close>

definition upload_arrives :: "prims \<Rightarrow> config \<Rightarrow> bytes \<Rightarrow> bytes \<Rightarrow> UploadHeader \<Rightarrow> bytes \<Rightarrow> bytes \<Rightarrow> 'a server_state_scheme \<Rightarrow> bool" where
  "upload_arrives P cfg key ck h d rest w \<longleftrightarrow> channel_ok P key \<and>
     storable P cfg ck (uh_file_key h) (uh_file_id h) (disk w) \<and>
     lock_available True (uh_file_id h) (sv_locks w) \<and>
     length d = unat (uh_file_size h) \<and> sealed_stream P key d (inp w) rest"

text \<open>The paths of the object, and the disk afterwards.\<close>

definition object_left :: "prims \<Rightarrow> config \<Rightarrow> bytes \<Rightarrow> UploadHeader \<Rightarrow> fs \<Rightarrow> node option \<Rightarrow> node option \<Rightarrow> fs \<Rightarrow> bool" where
  "object_left P cfg ck h f a b f' \<longleftrightarrow> upload_disk f (user_dir P (cfg_storage cfg) ck (uh_file_key h))
     (object_path P (cfg_storage cfg) ck (uh_file_key h) (uh_file_id h) ''.file'') a
     (object_path P (cfg_storage cfg) ck (uh_file_key h) (uh_file_id h) ''.meta'') b f'"

lemma object_left_stores:
  assumes "sha_ok P" "hex_ok P"
    "object_left P cfg ck h f (Some (FileNode d)) (Some (FileNode (encoding (pc_MetadataFile P) m))) f'"
  shows "stores P cfg ck (uh_file_key h) (uh_file_id h) m d f'"
proof -
  obtain n where n: "object_path P (cfg_storage cfg) ck (uh_file_key h) (uh_file_id h) ''.file'' = user_dir P (cfg_storage cfg) ck (uh_file_key h) @ [n @ ''.file'']"
    "object_path P (cfg_storage cfg) ck (uh_file_key h) (uh_file_id h) ''.meta'' = user_dir P (cfg_storage cfg) ck (uh_file_key h) @ [n @ ''.meta'']"
    "user_dir P (cfg_storage cfg) ck (uh_file_key h) \<noteq> []"
    by (rule object_paths [OF assms(1,2)])
  with assms(3) show ?thesis
    by (auto simp: object_left_def upload_disk_def stores_def path_exists_def)
qed

lemma handle_upload_stores:
  fixes w :: "'a server_state_scheme"
  assumes "upload_arrives P cfg key ck h d rest w" "uh_file_hash h = content_hash P d"
    "roundtrips (pc_MetadataFile P) (metadata_of P h)"
    "roundtrips (pc_UploadResponse P) (upload_response P h (clock w 0 - ts))"
    "sealed_fits (1 # encoding (pc_UploadResponse P) (upload_response P h (clock w 0 - ts)))"
    "writable (66 + length (encoding (pc_UploadResponse P) (upload_response P h (clock w 0 - ts)))) w"
  shows "\<exists>w'. handle_upload P cfg h ts key ck w = (Ok (), w') \<and>
    object_left P cfg ck h (disk w) (Some (FileNode d)) (Some (FileNode (encoding (pc_MetadataFile P) (metadata_of P h)))) (disk w') \<and>
    wire w' = wire w @ sealed_frame P key (next_nonce w) [1]
      @ sealed_frame P key (next_nonce (w\<lparr>rng := skip_rng 12 (rng w)\<rparr>)) (1 # encoding (pc_UploadResponse P) (upload_response P h (clock w 0 - ts))) \<and>
    inp w' = rest \<and> out_shut w' \<and> out_buf w' = [] \<and>
    lk_map (sv_locks w') = (lk_map (sv_locks w))(uh_file_id h := None) \<and>
    sv_tracker w' = log_upload (cfg_rnd cfg) (uh_file_size h) (sv_tracker w)"
proof -
  let ?rsp = "1 # encoding (pc_UploadResponse P) (upload_response P h (clock w 0 - ts))"
  let ?Q = "\<lambda>w'. object_left P cfg ck h (disk w) (Some (FileNode d)) (Some (FileNode (encoding (pc_MetadataFile P) (metadata_of P h)))) (disk w') \<and>
    wire w' = wire w @ sealed_frame P key (next_nonce w) [1] @ sealed_frame P key (next_nonce (w\<lparr>rng := skip_rng 12 (rng w)\<rparr>)) ?rsp \<and> inp w' = rest \<and> out_shut w' \<and> out_buf w' = []"
  have a: "channel_ok P key" "storable P cfg ck (uh_file_key h) (uh_file_id h) (disk w)"
    "lock_available True (uh_file_id h) (sv_locks w)" "length d = unat (uh_file_size h)" "sealed_stream P key d (inp w) rest"
    using assms(1) by (simp_all add: upload_arrives_def)
  have "\<exists>w'. upload_body P cfg h ts key ck (w\<lparr>sv_locks := lk\<rparr>) = (Ok True, w') \<and> sv_locks w' = lk \<and> ?Q w' \<and> sv_tracker w' = sv_tracker w" for lk
    by (rule upload_body_ok [where w = "w\<lparr>sv_locks := lk\<rparr>" and ts = ts, OF a(1) _ assms(2) a(4) _ assms(3)])
       (use a assms(4-6) in \<open>auto simp: writable_def object_left_def wire_def next_nonce_def\<close>)
  moreover have "?Q (w'\<lparr>sv_locks := lk\<rparr>)" "?Q (w'\<lparr>sv_tracker := tr\<rparr>)" if "?Q w'" for w' lk tr
    using that by (auto simp: wire_def)
  ultimately obtain w' where "handle_upload P cfg h ts key ck w = (Ok (), w')" "?Q w'"
    "lk_map (sv_locks w') = (lk_map (sv_locks w))(uh_file_id h := (if True then None else Some undefined))"
    "sv_tracker w' = (if True then log_upload (cfg_rnd cfg) (uh_file_size h) (sv_tracker w) else sv_tracker w)"
    by (rule handle_upload_completed [where Q = ?Q and completed = True, OF a(3)]) auto
  then show ?thesis by auto
qed

text \<open>A one-byte upload on an empty disk.\<close>

definition demo_header :: "string \<Rightarrow> UploadHeader" where
  "demo_header hash = \<lparr>uh_file_id = ''id'', uh_file_name = ''n'', uh_file_size = 1, uh_file_hash = hash, uh_file_key = ''k''\<rparr>"

definition demo_up :: prims where
  "demo_up = demo\<lparr>pc_MetadataFile := table_codec [metadata_of demo (demo_header (content_hash demo [7]))],
     pc_UploadResponse := table_codec [upload_response demo (demo_header (content_hash demo [7])) 0],
     pc_ErrorHeader := table_codec [\<lparr>err_code = 406, err_message = ''File hash mismatch''\<rparr>]\<rparr>"

lemma demo_up_laws: "channel_ok demo_up demo_key" "sha_ok demo_up" "hex_ok demo_up"
  by (simp add: channel_ok_def demo_key_def demo_up_def demo_laws) (rule demo_laws; simp add: demo_up_def)+

lemma demo_up_arrives:
  assumes "uh_file_id h = ''id''" "uh_file_size h = 1"
  shows "upload_arrives demo_up demo_cfg demo_key [9] h [7] [] (demo_sv (sealed demo_up demo_key (replicate 12 0) [7]))"
proof -
  have "sealed_stream demo_up demo_key [7] (sealed demo_up demo_key (replicate 12 0) [7]) []"
    unfolding sealed_stream_def by (rule exI [of _ "[replicate 12 0]"]) (simp add: chunks_small READ_CHUNK_SIZE_def)
  moreover have "storable demo_up demo_cfg [9] (uh_file_key h) ''id'' []"
    by (simp add: storable_def demo_up_laws is_file_def path_is_dir_def fs_get_def list_ex_iff)
  ultimately show ?thesis
    using assms by (simp add: upload_arrives_def demo_up_laws lock_available_def demo_sv_def no_locks_def)
qed

lemma demo_up_codecs:
  "content_hash demo_up = content_hash demo" "metadata_of demo_up = metadata_of demo"
  "upload_response demo_up = upload_response demo"
  "pc_MetadataFile demo_up = table_codec [metadata_of demo (demo_header (content_hash demo [7]))]"
  "pc_UploadResponse demo_up = table_codec [upload_response demo (demo_header (content_hash demo [7])) 0]"
  "pc_ErrorHeader demo_up = table_codec [\<lparr>err_code = 406, err_message = ''File hash mismatch''\<rparr>]"
  by (simp_all add: demo_up_def content_hash_def metadata_of_def upload_response_def fun_eq_iff)

lemma handle_upload_mismatch:
  fixes w :: "'a server_state_scheme"
  assumes "upload_arrives P cfg key ck h d rest w" "str_prefix 8 (uh_file_hash h) = Ok x" "uh_file_hash h \<noteq> content_hash P d"
    "roundtrips (pc_ErrorHeader P) \<lparr>err_code = 406, err_message = ''File hash mismatch''\<rparr>"
    "sealed_fits (error_payload P 406 ''File hash mismatch'')"
    "writable (65 + length (error_payload P 406 ''File hash mismatch'')) w"
  shows "\<exists>w' r. handle_upload P cfg h ts key ck w = (Ok (), w') \<and>
    object_left P cfg ck h (disk w) None
      (fs_get (disk w) (object_path P (cfg_storage cfg) ck (uh_file_key h) (uh_file_id h) ''.meta'')) (disk w') \<and>
    wire w' = wire w @ sealed_frame P key (next_nonce w) [1] @ sealed_frame P key r (error_payload P 406 ''File hash mismatch'') \<and>
    inp w' = rest \<and> sv_tracker w' = sv_tracker w"
proof -
  let ?e = "error_payload P 406 ''File hash mismatch''"
  let ?Q = "\<lambda>w'. object_left P cfg ck h (disk w) None
      (fs_get (disk w) (object_path P (cfg_storage cfg) ck (uh_file_key h) (uh_file_id h) ''.meta'')) (disk w') \<and>
    (\<exists>r. wire w' = wire w @ sealed_frame P key (next_nonce w) [1] @ sealed_frame P key r ?e) \<and> inp w' = rest"
  have a: "channel_ok P key" "storable P cfg ck (uh_file_key h) (uh_file_id h) (disk w)"
    "lock_available True (uh_file_id h) (sv_locks w)" "length d = unat (uh_file_size h)" "sealed_stream P key d (inp w) rest"
    using assms(1) by (simp_all add: upload_arrives_def)
  have "\<exists>w'. upload_body P cfg h ts key ck (w\<lparr>sv_locks := lk\<rparr>) = (Ok False, w') \<and> sv_locks w' = lk \<and> ?Q w' \<and> sv_tracker w' = sv_tracker w" for lk
    by (rule upload_body_mismatch [where w = "w\<lparr>sv_locks := lk\<rparr>" and ts = ts, OF a(1) _ assms(2,3) a(4) _ assms(4,5)])
       (use a assms(6) in \<open>auto simp: writable_def object_left_def wire_def next_nonce_def\<close>)
  then obtain w' where "handle_upload P cfg h ts key ck w = (Ok (), w') \<and> ?Q w' \<and> sv_tracker w' = sv_tracker w"
    by (rule handle_upload_completed [where Q = ?Q, OF a(3)]) (auto simp: wire_def)
  then show ?thesis by auto
qed

text \<open>
  C15. An upload whose contents do not have the announced hash is refused with error 406: nothing is
  counted and no metadata is written, but the object's file is gone afterwards, even when an
  earlier upload had stored it under the same name, and the metadata of that earlier upload stays.
\<close>

theorem upload_mismatch_discards:
  fixes w :: "'a server_state_scheme"
  assumes "upload_arrives P cfg key ck h d rest w" "str_prefix 8 (uh_file_hash h) = Ok x" "uh_file_hash h \<noteq> content_hash P d"
    "roundtrips (pc_ErrorHeader P) \<lparr>err_code = 406, err_message = ''File hash mismatch''\<rparr>"
    "sealed_fits (error_payload P 406 ''File hash mismatch'')"
    "writable (65 + length (error_payload P 406 ''File hash mismatch'')) w"
  shows "\<exists>w' r. handle_upload P cfg h ts key ck w = (Ok (), w') \<and>
    object_left P cfg ck h (disk w) None
      (fs_get (disk w) (object_path P (cfg_storage cfg) ck (uh_file_key h) (uh_file_id h) ''.meta'')) (disk w') \<and>
    wire w' = wire w @ sealed_frame P key (next_nonce w) [1] @ sealed_frame P key r (error_payload P 406 ''File hash mismatch'') \<and>
    inp w' = rest \<and> sv_tracker w' = sv_tracker w"
  using assms by (rule handle_upload_mismatch)

theorem upload_mismatch_discards_witness:
  "\<exists>w' r. handle_upload demo_up demo_cfg (demo_header ''00000000'') 0 demo_key [9]
      (demo_sv (sealed demo_up demo_key (replicate 12 0) [7])) = (Ok (), w') \<and>
    object_left demo_up demo_cfg [9] (demo_header ''00000000'') [] None None (disk w') \<and>
    sv_tracker w' = Tracker_default"
proof -
  let ?h = "demo_header ''00000000''" and ?w = "demo_sv (sealed demo_up demo_key (replicate 12 0) [7])"
  have "upload_arrives demo_up demo_cfg demo_key [9] ?h [7] [] ?w"
    by (rule demo_up_arrives) (simp_all add: demo_header_def)
  moreover have "length ''00000000'' \<noteq> length (content_hash demo_up [7])"
    using length_content_hash demo_up_laws by simp
  then have "''00000000'' \<noteq> content_hash demo_up [7]" by metis
  ultimately show ?thesis
    using upload_mismatch_discards [of demo_up demo_cfg demo_key "[9]" ?h "[7]" "[]" ?w "''00000000''" 0]
    by (auto simp: demo_up_codecs error_payload_def table_codec_single demo_header_def demo_sv_def sealed_fits_def writable_def
        str_prefix_def is_char_boundary_def fs_get_def)
qed

text \<open>The connection ends before the first chunk is complete.\<close>

definition upload_cut :: "prims \<Rightarrow> config \<Rightarrow> bytes \<Rightarrow> bytes \<Rightarrow> UploadHeader \<Rightarrow> 'a conn_scheme \<Rightarrow> bool" where
  "upload_cut P cfg key ck h w \<longleftrightarrow> channel_ok P key \<and>
     storable P cfg ck (uh_file_key h) (uh_file_id h) (disk w) \<and> (\<exists>x. str_prefix 8 (uh_file_hash h) = Ok x) \<and>
     0 < uh_file_size h \<and> inp_end w = Closed \<and> length (inp w) < 28 + chunk_len (uh_file_size h) 0 \<and> writable 33 w"

lemma upload_body_cut:
  fixes w :: "'a conn_scheme"
  assumes "upload_cut P cfg key ck h w"
  defines "file \<equiv> object_path P (cfg_storage cfg) ck (uh_file_key h) (uh_file_id h) ''.file''"
    and "dir \<equiv> user_dir P (cfg_storage cfg) ck (uh_file_key h)"
  obtains p f where "upload_body P cfg h ts key ck w = (Err ''early eof'',
      (after_frame P key [1] p w)\<lparr>disk := f, clock := (\<lambda>i. clock w (Suc i)), inp := []\<rparr>)"
    "\<forall>q. fs_get f q = (if q = file then Some (FileNode [])
       else if prefix q dir \<and> q \<noteq> [] \<and> fs_get (disk w) q = None then Some DirNode else fs_get (disk w) q)"
proof -
  obtain x where a: "channel_ok P key" "storable P cfg ck (uh_file_key h) (uh_file_id h) (disk w)" "str_prefix 8 (uh_file_hash h) = Ok x"
    "0 < uh_file_size h" "inp_end w = Closed" "length (inp w) < 28 + chunk_len (uh_file_size h) 0" "writable 33 w"
    using assms(1) by (auto simp: upload_cut_def)
  obtain f0 where f0: "create_dir_all dir (disk w) = Ok f0" "file_write file [] f0 = Ok (fs_set file (FileNode []) f0)"
    "\<forall>q. fs_get f0 q = (if prefix q dir \<and> q \<noteq> [] \<and> fs_get (disk w) q = None then Some DirNode else fs_get (disk w) q)"
    by (rule upload_prepare [OF a(2), folded file_def dir_def])
  have fit: "sealed_fits [1 :: byte]" "writable (32 + length [1 :: byte]) (w\<lparr>disk := f0\<rparr>)"
    using a(7) by (simp_all add: sealed_fits_def writable_def)
  obtain p where ack: "timeout WRITE_TIMEOUT deadline_elapsed (write_encrypt_frame_into P [1] key) (w\<lparr>disk := f0\<rparr>) =
      (Ok (), after_frame P key [1] p (w\<lparr>disk := f0\<rparr>))"
    by (rule write_frame_timeout [OF a(1) fit])
  let ?f = "fs_set file (FileNode []) f0"
  let ?w = "(after_frame P key [1] p w)\<lparr>disk := f0, clock := (\<lambda>i. clock w (Suc i))\<rparr>"
  have now: "instant_now (after_frame P key [1] p (w\<lparr>disk := f0\<rparr>)) = (Ok (clock w 0), ?w)"
    by (simp add: instant_now_def after_frame_def wire_def next_nonce_def)
  have "recv_chunk msg id P key file (chunk_len (uh_file_size h) 0) [] (?w\<lparr>disk := ?f\<rparr>) =
      (Err ''early eof'', ?w\<lparr>disk := ?f, inp := []\<rparr>)" for msg
    using a(5,6) by (simp add: recv_chunk_def run_simps end_result_def NONCE_LEN_def TAG_LEN_def)
  then have "recv_file msg id P key file (uh_file_size h) 0 (hasher_new P) [] (?w\<lparr>disk := ?f\<rparr>) =
      (Err ''early eof'', ?w\<lparr>disk := ?f, inp := []\<rparr>)" for msg
    using a(4) by (subst recv_file.simps) simp
  then have "receive_file msg id P key file (uh_file_size h) ?w = (Err ''early eof'', ?w\<lparr>disk := ?f, inp := []\<rparr>)" for msg
    using f0(2) by (simp add: receive_file_def run_simps)
  then have "upload_body P cfg h ts key ck w = (Err ''early eof'', ?w\<lparr>disk := ?f, inp := []\<rparr>)"
    using f0(1) ack now a(3)
    by (simp add: upload_body_def Let_def dir_def [symmetric] file_def [symmetric] run_simps)
  then show thesis
    by (intro that [where p = p and f = ?f]) (simp_all add: f0(3))
qed

lemma handle_upload_cut:
  fixes w :: "'a server_state_scheme"
  assumes "upload_cut P cfg key ck h w" "lock_available True (uh_file_id h) (sv_locks w)"
  shows "\<exists>w' l. handle_upload P cfg h ts key ck w = (Err ''early eof'', w') \<and>
    object_left P cfg ck h (disk w) (Some (FileNode []))
      (fs_get (disk w) (object_path P (cfg_storage cfg) ck (uh_file_key h) (uh_file_id h) ''.meta'')) (disk w') \<and>
    lk_map (sv_locks w') = (lk_map (sv_locks w))(uh_file_id h \<mapsto> l) \<and> sv_tracker w' = sv_tracker w"
proof -
  obtain l lk lk' where l: "lock_hold (uh_file_id h) w = (Ok l, w\<lparr>sv_locks := lk\<rparr>)"
    "lock_try True l (w\<lparr>sv_locks := lk\<rparr>) = (Ok True, w\<lparr>sv_locks := lk'\<rparr>)"
    "lk_map lk' = (lk_map (sv_locks w))(uh_file_id h \<mapsto> l)"
    by (rule lock_enter [OF assms(2)])
  let ?w = "w\<lparr>sv_locks := lk'\<rparr>"
  let ?dir = "user_dir P (cfg_storage cfg) ck (uh_file_key h)"
  have c: "upload_cut P cfg key ck h ?w" using assms(1) by (simp add: upload_cut_def writable_def)
  obtain p f where b: "upload_body P cfg h ts key ck ?w = (Err ''early eof'',
      (after_frame P key [1] p ?w)\<lparr>disk := f, clock := (\<lambda>i. clock ?w (Suc i)), inp := []\<rparr>)"
    "\<forall>q. fs_get f q = (if q = object_path P (cfg_storage cfg) ck (uh_file_key h) (uh_file_id h) ''.file'' then Some (FileNode [])
       else if prefix q ?dir \<and> q \<noteq> [] \<and> fs_get (disk ?w) q = None then Some DirNode else fs_get (disk ?w) q)"
    by (rule upload_body_cut [OF c])
  have "storable P cfg ck (uh_file_key h) (uh_file_id h) (disk w)" using assms(1) by (simp add: upload_cut_def)
  then have "object_path P (cfg_storage cfg) ck (uh_file_key h) (uh_file_id h) ''.file'' \<noteq>
      object_path P (cfg_storage cfg) ck (uh_file_key h) (uh_file_id h) ''.meta'' \<and>
      \<not> prefix (object_path P (cfg_storage cfg) ck (uh_file_key h) (uh_file_id h) ''.meta'') ?dir"
    by (rule upload_prepare) blast
  with b(2) have o: "object_left P cfg ck h (disk w) (Some (FileNode []))
      (fs_get (disk w) (object_path P (cfg_storage cfg) ck (uh_file_key h) (uh_file_id h) ''.meta'')) f"
    by (auto simp: object_left_def upload_disk_def)
  have "handle_upload P cfg h ts key ck w = (Err ''early eof'',
      (after_frame P key [1] p ?w)\<lparr>disk := f, clock := (\<lambda>i. clock ?w (Suc i)), inp := [], sv_locks := drop_lock True l lk'\<rparr>)"
    using l(1,2) b(1) by (simp add: handle_upload_def guarded_def run_simps)
  with o l(3) show ?thesis by (auto simp: lk_map_try_drop)
qed

definition demo_up_meta :: MetadataFile where
  "demo_up_meta = metadata_of demo (demo_header (content_hash demo [7]))"

definition demo_stored :: fs where
  "demo_stored = [(user_dir demo_up [''s''] [9] ''k'', DirNode),
     (object_path demo_up [''s''] [9] ''k'' ''id'' ''.file'', FileNode [5]),
     (object_path demo_up [''s''] [9] ''k'' ''id'' ''.meta'', FileNode [0])]"

text \<open>
  C17. A connection that breaks off before the first chunk has arrived destroys the object: the handler
  fails, the previous version of the file is gone (an empty file is left), the metadata still
  describes the previous version, and the file's entry stays in the lock table.
\<close>

theorem upload_cut_truncates:
  fixes w :: "'a server_state_scheme"
  assumes "upload_cut P cfg key ck h w" "lock_available True (uh_file_id h) (sv_locks w)"
    "stores P cfg ck (uh_file_key h) (uh_file_id h) m d (disk w)"
  shows "\<exists>w' l. handle_upload P cfg h ts key ck w = (Err ''early eof'', w') \<and>
    stores P cfg ck (uh_file_key h) (uh_file_id h) m [] (disk w') \<and>
    lk_map (sv_locks w') = (lk_map (sv_locks w))(uh_file_id h \<mapsto> l)"
proof -
  obtain w' l where w': "handle_upload P cfg h ts key ck w = (Err ''early eof'', w')"
    "object_left P cfg ck h (disk w) (Some (FileNode []))
      (fs_get (disk w) (object_path P (cfg_storage cfg) ck (uh_file_key h) (uh_file_id h) ''.meta'')) (disk w')"
    "lk_map (sv_locks w') = (lk_map (sv_locks w))(uh_file_id h \<mapsto> l)"
    using handle_upload_cut [OF assms(1,2)] by blast
  have "sha_ok P" "hex_ok P" using assms(1) by (simp_all add: upload_cut_def storable_def)
  with w'(2) assms(3) have "stores P cfg ck (uh_file_key h) (uh_file_id h) m [] (disk w')"
    by (intro object_left_stores) (simp_all add: stores_def)
  with w' show ?thesis by blast
qed

theorem upload_cut_truncates_witness:
  "\<exists>w' l. handle_upload demo_up demo_cfg (demo_header ''00000000'') 0 demo_key [9]
      ((demo_sv [1, 2])\<lparr>disk := demo_stored\<rparr>) = (Err ''early eof'', w') \<and>
    stores demo_up demo_cfg [9] ''k'' ''id'' demo_up_meta [] (disk w') \<and>
    lk_map (sv_locks w') = [''id'' \<mapsto> l]"
proof -
  let ?h = "demo_header ''00000000''" and ?w = "(demo_sv [1, 2])\<lparr>disk := demo_stored\<rparr>"
  note paths = object_path_plain [OF demo_up_laws(3,2)] user_dir_plain [OF demo_up_laws(3,2)]
  have st: "stores demo_up demo_cfg [9] ''k'' ''id'' demo_up_meta [5] demo_stored"
    by (simp add: stores_def demo_cfg_def demo_stored_def fs_get_def path_exists_def paths demo_up_codecs demo_up_meta_def table_codec_single)
  have "storable demo_up demo_cfg [9] ''k'' ''id'' demo_stored"
    by (simp add: storable_def demo_up_laws demo_cfg_def demo_stored_def list_ex_iff is_file_def path_is_dir_def fs_get_def paths prefix_def)
  then have "upload_cut demo_up demo_cfg demo_key [9] ?h ?w"
    by (simp add: upload_cut_def demo_up_laws demo_header_def demo_sv_def str_prefix_def is_char_boundary_def chunk_len_def
        READ_CHUNK_SIZE_def writable_def)
  moreover have "lock_available True (uh_file_id ?h) (sv_locks ?w)"
    by (simp add: lock_available_def demo_sv_def no_locks_def)
  ultimately show ?thesis
    using st upload_cut_truncates [of demo_up demo_cfg demo_key "[9]" ?h ?w demo_up_meta "[5]" 0]
    by (auto simp: demo_header_def demo_sv_def no_locks_def)
qed

text \<open>A disk that is related to the old one by every change an upload makes.\<close>

definition upload_scope :: "prims \<Rightarrow> config \<Rightarrow> bytes \<Rightarrow> UploadHeader \<Rightarrow> path set" where
  "upload_scope P cfg ck h =
    {object_path P (cfg_storage cfg) ck (uh_file_key h) (uh_file_id h) ''.file'',
     object_path P (cfg_storage cfg) ck (uh_file_key h) (uh_file_id h) ''.meta''}"

lemma upload_body_scope:
  "steps (\<lambda>w w'. only_changes (user_dir P (cfg_storage cfg) ck (uh_file_key h)) (upload_scope P cfg ck h) (disk w) (disk w'))
     (upload_body P cfg h ts key ck)"
  unfolding upload_body_def Let_def
  by (intro server_steps steps_fs_changes steps_receive_changes; (erule only_changes_intros)?; simp add: upload_scope_def)

lemma handle_upload_scope:
  "steps (\<lambda>(w :: 'a server_state_scheme) w'. only_changes (user_dir P (cfg_storage cfg) ck (uh_file_key h)) (upload_scope P cfg ck h) (disk w) (disk w'))
     (handle_upload P cfg h ts key ck)"
  unfolding handle_upload_def by (intro server_steps upload_body_scope)

end
