(* ===== verification/Download.thy ===== *)
theory Download
  imports Serve
begin

text \<open>
  \<^verbatim>\<open>handle_download\<close> of \<^verbatim>\<open>src/protocol_v1.rs\<close>: take the file's read lock, look the object up
  under the client's own directory, send its metadata and then its contents in sealed chunks, give
  the lock back and count the download.
\<close>

section \<open>The handler\<close>

text \<open>What runs while the guard is held; the size of the file when the end is still to run.\<close>

definition download_body :: "prims \<Rightarrow> config \<Rightarrow> DownloadHeader \<Rightarrow> nat \<Rightarrow> bytes \<Rightarrow> bytes \<Rightarrow> ('a conn_scheme, u64 option) io" where
  "download_body P cfg headers time_start session_key client_key =
    (let user_dir_path = user_dir P (cfg_storage cfg) client_key (dh_file_key headers);
         file_path = object_path P (cfg_storage cfg) client_key (dh_file_key headers) (dh_file_id headers) ''.file'';
         meta_path = object_path P (cfg_storage cfg) client_key (dh_file_key headers) (dh_file_id headers) ''.meta''
     in
     seq (get_state (\<lambda>w. path_exists (disk w) user_dir_path)) (\<lambda>dir_exists.
     if \<not> dir_exists then
       seq (reply_failed P 404 ''File not found'' session_key) (\<lambda>_. ret None)
     else
     seq (get_state (\<lambda>w. path_exists (disk w) meta_path)) (\<lambda>meta_exists.
     if \<not> meta_exists then
       seq (reply_failed P 404 ''Metadata File not found'' session_key) (\<lambda>_. ret None)
     else
     seq (attempt (fs_query (MetadataFile_read_from_disk P meta_path))) (\<lambda>r. case r of
       Inl e \<Rightarrow> seq (reply_failed P 500 ''Failed to read metadata'' session_key) (\<lambda>_. ret None)
     | Inr metadata \<Rightarrow>
         seq (lift_res (str_prefix 8 (md_file_hash metadata))) (\<lambda>_.
         seq instant_now (\<lambda>now.
         seq (lift_res (serialize (pc_DownloadResponse P)
                \<lparr>dr_file_name = md_filename metadata, dr_file_size = md_file_size metadata,
                 dr_file_hash = md_file_hash metadata, dr_network_time = as_secs_f32 P (now - time_start)\<rparr>)) (\<lambda>header.
         seq (timeout WRITE_TIMEOUT deadline_elapsed (write_encrypt_frame_into P (1 # header) session_key)) (\<lambda>_.
         seq (fs_query (file_read file_path)) (\<lambda>contents.
         seq (send_chunks ''Download timed out writing chunk'' id P session_key (chunks READ_CHUNK_SIZE contents)) (\<lambda>_.
         seq flush (\<lambda>_.
         seq shutdown (\<lambda>_.
         ret (Some (md_file_size metadata))))))))))))))"

definition handle_download :: "prims \<Rightarrow> config \<Rightarrow> DownloadHeader \<Rightarrow> nat \<Rightarrow> bytes \<Rightarrow> bytes \<Rightarrow> ('a server_state_scheme, unit) io" where
  "handle_download P cfg headers time_start session_key client_key =
    seq (lock_hold (dh_file_id headers)) (\<lambda>l.
    seq (lock_try False l) (\<lambda>acquired.
    if \<not> acquired then reply_failed P 409 ''File is currently being uploaded or modified'' session_key
    else
      seq (guarded False l (download_body P cfg headers time_start session_key client_key)) (\<lambda>completed.
      case completed of
        None \<Rightarrow> ret ()
      | Some file_size \<Rightarrow>
          seq (release_lock (dh_file_id headers)) (\<lambda>_.
          upd_state (\<lambda>w. w\<lparr>sv_tracker := log_download (cfg_rnd cfg) file_size (sv_tracker w)\<rparr>)))))"

section \<open>The disk is only read\<close>

lemma download_body_reads: "steps (\<lambda>w w'. disk w' = disk w) (download_body P cfg h ts key ck)"
  unfolding download_body_def Let_def reply_failed_def
  by (intro rd.steps_rules rd.steps_io rd.steps_timeout rd.steps_fs_query)

lemma handle_download_reads: "steps (\<lambda>(w :: 'a server_state_scheme) w'. disk w' = disk w) (handle_download P cfg h ts key ck)"
proof -
  have "steps (\<lambda>(w :: 'a server_state_scheme) w'. disk w' = disk w) (guarded False l (download_body P cfg h ts key ck))" for l
    by (rule stepsI) (auto simp: guarded_def split: prod.splits if_splits dest: stepsD [OF download_body_reads])
  moreover have "steps (\<lambda>(w :: 'a server_state_scheme) w'. disk w' = disk w) (lock_hold fid)"
    "steps (\<lambda>(w :: 'a server_state_scheme) w'. disk w' = disk w) (lock_try b l)"
    "steps (\<lambda>(w :: 'a server_state_scheme) w'. disk w' = disk w) (release_lock fid)" for fid b l
    by (auto simp: steps_def lock_hold_def lock_try_def release_lock_def upd_state_def split: prod.splits option.splits)
  ultimately have "steps (\<lambda>(w :: 'a server_state_scheme) w'. disk w' = disk w) (handle_download P cfg h ts key ck)"
    unfolding handle_download_def reply_failed_def
    by (intro rd.steps_rules rd.steps_io run_rel_option [OF rd.run_rel_axioms] rd.steps_upd) auto
  then show ?thesis .
qed

section \<open>A complete download\<close>

definition download_response :: "prims \<Rightarrow> MetadataFile \<Rightarrow> nat \<Rightarrow> DownloadResponse" where
  "download_response P m elapsed = \<lparr>dr_file_name = md_filename m, dr_file_size = md_file_size m,
     dr_file_hash = md_file_hash m, dr_network_time = as_secs_f32 P elapsed\<rparr>"

definition download_payload :: "prims \<Rightarrow> MetadataFile \<Rightarrow> nat \<Rightarrow> bytes" where
  "download_payload P m elapsed = 1 # encoding (pc_DownloadResponse P) (download_response P m elapsed)"

text \<open>
  The request can be served: the object is there, its lock can be shared, and the response and \<open>n\<close>
  further bytes can be sent.
\<close>

definition download_ready :: "prims \<Rightarrow> config \<Rightarrow> bytes \<Rightarrow> bytes \<Rightarrow> DownloadHeader \<Rightarrow> MetadataFile \<Rightarrow> bytes \<Rightarrow> nat \<Rightarrow> nat \<Rightarrow> 'a conn_scheme \<Rightarrow> bool" where
  "download_ready P cfg key ck h m d elapsed n w \<longleftrightarrow> channel_ok P key \<and>
     stores P cfg ck (dh_file_key h) (dh_file_id h) m d (disk w) \<and> roundtrips (pc_MetadataFile P) m \<and>
     (\<exists>x. str_prefix 8 (md_file_hash m) = Ok x) \<and>
     roundtrips (pc_DownloadResponse P) (download_response P m elapsed) \<and>
     sealed_fits (download_payload P m elapsed) \<and> writable (32 + length (download_payload P m elapsed) + n) w"

text \<open>The body up to the point where the chunks are sent.\<close>

lemma download_body_header:
  fixes w :: "'a conn_scheme"
  assumes "download_ready P cfg key ck h m d (clock w 0 - ts) n w"
  obtains p where "download_body P cfg h ts key ck w =
      seq (send_chunks ''Download timed out writing chunk'' id P key (chunks READ_CHUNK_SIZE d)) (\<lambda>_.
      seq flush (\<lambda>_. seq shutdown (\<lambda>_. ret (Some (md_file_size m)))))
      (after_frame P key (download_payload P m (clock w 0 - ts)) p (w\<lparr>clock := (\<lambda>i. clock w (Suc i))\<rparr>))"
proof -
  let ?dir = "user_dir P (cfg_storage cfg) ck (dh_file_key h)" and ?w = "w\<lparr>clock := (\<lambda>i. clock w (Suc i))\<rparr>"
  let ?meta = "object_path P (cfg_storage cfg) ck (dh_file_key h) (dh_file_id h) ''.meta''"
    and ?file = "object_path P (cfg_storage cfg) ck (dh_file_key h) (dh_file_id h) ''.file''"
  have r: "channel_ok P key" "stores P cfg ck (dh_file_key h) (dh_file_id h) m d (disk w)"
    "roundtrips (pc_MetadataFile P) m" "roundtrips (pc_DownloadResponse P) (download_response P m (clock w 0 - ts))"
    "sealed_fits (download_payload P m (clock w 0 - ts))"
    "writable (32 + length (download_payload P m (clock w 0 - ts))) ?w"
    using assms by (auto simp: download_ready_def writable_def)
  obtain x where x: "str_prefix 8 (md_file_hash m) = Ok x" using assms by (auto simp: download_ready_def)
  have ex: "path_exists (disk w) ?dir" "path_exists (disk w) ?meta" and fr: "file_read ?file (disk w) = Ok d"
    using r(2) by (simp_all add: stores_def path_exists_def file_read_def)
  have md: "MetadataFile_read_from_disk P ?meta (disk w) = Ok m"
    using r(2,3) by (intro metadata_read_saved) (simp_all add: stores_def)
  have now: "instant_now w = (Ok (clock w 0), ?w)" by (simp add: instant_now_def)
  obtain p where "timeout WRITE_TIMEOUT deadline_elapsed (write_encrypt_frame_into P (download_payload P m (clock w 0 - ts)) key) ?w
      = (Ok (), after_frame P key (download_payload P m (clock w 0 - ts)) p ?w)"
    by (rule write_frame_timeout [OF r(1,5,6)])
  then show thesis
    using ex fr md now x serialize_roundtrips [OF r(4)]
    by (intro that [of p]) (simp add: download_body_def Let_def run_simps download_payload_def download_response_def)
qed

lemma flush_shutdown: "writable 0 w \<Longrightarrow>
    seq flush (\<lambda>_. seq shutdown (\<lambda>_. ret a)) w = (Ok a, w\<lparr>out_sent := wire w, out_buf := [],
       out_room := out_room w - length (out_buf w), out_shut := True\<rparr>)"
  by (simp add: run_simps writable_def wire_def)

lemma download_body_ok:
  fixes w :: "'a conn_scheme"
  assumes "download_ready P cfg key ck h m d (clock w 0 - ts) (length (chunks READ_CHUNK_SIZE d) * SEALED_CHUNK) w"
    "READ_CHUNK_SIZE dvd length d"
  shows "\<exists>w' s. download_body P cfg h ts key ck w = (Ok (Some (md_file_size m)), w') \<and>
    wire w' = wire w @ sealed_frame P key (next_nonce w) (download_payload P m (clock w 0 - ts)) @ s \<and>
    sealed_stream P key d s [] \<and> out_buf w' = [] \<and> out_shut w' \<and> conn.more w' = conn.more w"
proof -
  let ?m = "download_payload P m (clock w 0 - ts)" and ?w = "w\<lparr>clock := (\<lambda>i. clock w (Suc i))\<rparr>" and ?cs = "chunks READ_CHUNK_SIZE d"
  obtain p where b: "download_body P cfg h ts key ck w =
      seq (send_chunks ''Download timed out writing chunk'' id P key ?cs) (\<lambda>_.
      seq flush (\<lambda>_. seq shutdown (\<lambda>_. ret (Some (md_file_size m))))) (after_frame P key ?m p ?w)"
    by (rule download_body_header [OF assms(1)])
  let ?v = "after_frame P key ?m p ?w"
  have key: "channel_ok P key" and wr: "writable (length ?cs * SEALED_CHUNK) ?v"
    using assms(1) by (auto simp: download_ready_def writable_def)
  have full: "\<forall>c \<in> set ?cs. length c = READ_CHUNK_SIZE" using chunks_full [OF assms(2)] by blast
  obtain w1 rs where s: "send_chunks ''Download timed out writing chunk'' id P key ?cs ?v = (Ok (), w1)"
    "wrote (concat (map2 (sealed P key) rs ?cs)) ?v w1" "length rs = length ?cs" "\<forall>r \<in> set rs. length r = 12"
    using send_chunks_ok [OF key full wr, of "''Download timed out writing chunk''" id] by blast
  have len: "length (concat (map2 (sealed P key) rs ?cs)) = length ?cs * SEALED_CHUNK"
    using key full s(3,4) by (rule length_sealed_chunks)
  have w0: "writable 0 w1" using wrote_room [OF s(2)] wr len by simp
  let ?w2 = "w1\<lparr>out_sent := wire w1, out_buf := [], out_room := out_room w1 - length (out_buf w1), out_shut := True\<rparr>"
  have "download_body P cfg h ts key ck w = (Ok (Some (md_file_size m)), ?w2)"
    using b s(1) flush_shutdown [OF w0] by (simp add: seq_Ok)
  moreover have "wire ?w2 = wire w @ sealed_frame P key (next_nonce w) ?m @ concat (map2 (sealed P key) rs ?cs)"
    using s(2) by (simp add: wrote_def wire_def next_nonce_def)
  moreover have "sealed_stream P key d (concat (map2 (sealed P key) rs ?cs)) []"
    using s(3,4) by (auto simp: sealed_stream_def)
  moreover have "conn.more ?w2 = conn.more w" using s(2) by (auto simp: wrote_def after_frame_def)
  ultimately show ?thesis
    by (intro exI [of _ ?w2] exI [of _ "concat (map2 (sealed P key) rs ?cs)"]) simp
qed

text \<open>The lock around the body.\<close>

lemma handle_download_guarded:
  fixes w :: "'a server_state_scheme"
  assumes "lock_available False (dh_file_id h) (sv_locks w)"
  obtains l lk where "lk_map lk = (lk_map (sv_locks w))(dh_file_id h \<mapsto> l)"
    "\<And>r w'. download_body P cfg h ts key ck (w\<lparr>sv_locks := lk\<rparr>) = (Ok (Some n), w') \<Longrightarrow>
       handle_download P cfg h ts key ck w = (Ok (), w'\<lparr>sv_locks := release_file_lock (dh_file_id h) (drop_lock False l (sv_locks w')),
         sv_tracker := log_download (cfg_rnd cfg) n (sv_tracker w')\<rparr>)"
    "\<And>w'. download_body P cfg h ts key ck (w\<lparr>sv_locks := lk\<rparr>) = (Ok None, w') \<Longrightarrow>
       handle_download P cfg h ts key ck w = (Ok (), w'\<lparr>sv_locks := drop_lock False l (sv_locks w')\<rparr>)"
    "\<And>q w'. download_body P cfg h ts key ck (w\<lparr>sv_locks := lk\<rparr>) = (Panic q, w') \<Longrightarrow>
       handle_download P cfg h ts key ck w = (Panic q, w'\<lparr>sv_locks := drop_lock False l (sv_locks w')\<rparr>)"
proof -
  obtain l lk lk' where l: "lock_hold (dh_file_id h) w = (Ok l, w\<lparr>sv_locks := lk\<rparr>)"
    "lock_try False l (w\<lparr>sv_locks := lk\<rparr>) = (Ok True, w\<lparr>sv_locks := lk'\<rparr>)"
    "lk_map lk' = (lk_map (sv_locks w))(dh_file_id h \<mapsto> l)"
    by (rule lock_enter [OF assms])
  show thesis
    by (rule that [OF l(3)]) (simp_all add: handle_download_def l(1,2) guarded_def seq_def release_lock_def upd_state_def ret_def)
qed

lemma handle_download_delivers:
  fixes w :: "'a server_state_scheme"
  assumes "download_ready P cfg key ck h m d (clock w 0 - ts) (length (chunks READ_CHUNK_SIZE d) * SEALED_CHUNK) w"
    "lock_available False (dh_file_id h) (sv_locks w)" "READ_CHUNK_SIZE dvd length d"
  shows "\<exists>w' s. handle_download P cfg h ts key ck w = (Ok (), w') \<and>
    out_sent w' = wire w @ sealed_frame P key (next_nonce w) (download_payload P m (clock w 0 - ts)) @ s \<and>
    sealed_stream P key d s [] \<and> out_buf w' = [] \<and> out_shut w' \<and>
    lk_map (sv_locks w') = (lk_map (sv_locks w))(dh_file_id h := None) \<and>
    sv_tracker w' = log_download (cfg_rnd cfg) (md_file_size m) (sv_tracker w)"
proof -
  obtain l lk where l: "lk_map lk = (lk_map (sv_locks w))(dh_file_id h \<mapsto> l)"
    and run: "\<And>r w'. download_body P cfg h ts key ck (w\<lparr>sv_locks := lk\<rparr>) = (Ok (Some (md_file_size m)), w') \<Longrightarrow>
       handle_download P cfg h ts key ck w = (Ok (), w'\<lparr>sv_locks := release_file_lock (dh_file_id h) (drop_lock False l (sv_locks w')),
         sv_tracker := log_download (cfg_rnd cfg) (md_file_size m) (sv_tracker w')\<rparr>)"
    by (rule handle_download_guarded [OF assms(2), where P = P and cfg = cfg and ts = ts and key = key and ck = ck and n = "md_file_size m"]) blast
  let ?w = "w\<lparr>sv_locks := lk\<rparr>"
  have "download_ready P cfg key ck h m d (clock ?w 0 - ts) (length (chunks READ_CHUNK_SIZE d) * SEALED_CHUNK) ?w"
    using assms(1) by (simp add: download_ready_def writable_def)
  then obtain w' s where b: "download_body P cfg h ts key ck ?w = (Ok (Some (md_file_size m)), w')"
    "wire w' = wire ?w @ sealed_frame P key (next_nonce ?w) (download_payload P m (clock ?w 0 - ts)) @ s"
    "sealed_stream P key d s []" "out_buf w' = []" "out_shut w'" "conn.more w' = conn.more ?w"
    using download_body_ok [OF _ assms(3)] by blast
  from b(6) have "sv_locks w' = lk" "sv_tracker w' = sv_tracker w" by (cases w'; cases w; simp)+
  with run [OF b(1)] b(2-5) l show ?thesis
    by (auto simp: wire_def next_nonce_def release_file_lock_def lk_map_try_drop)
qed

text \<open>A stored object of one full chunk.\<close>

definition demo_meta :: MetadataFile where
  "demo_meta = \<lparr>md_filename = ''n'', md_file_size = 65536, md_file_hash = ''0123456789'', md_file_key_hash = ''x''\<rparr>"

definition demo_down :: prims where
  "demo_down = demo\<lparr>pc_MetadataFile := table_codec [demo_meta],
     pc_DownloadResponse := table_codec [download_response demo demo_meta 0],
     pc_ErrorHeader := table_codec [\<lparr>err_code = 404, err_message = ''File not found''\<rparr>]\<rparr>"

definition demo_request :: DownloadHeader where
  "demo_request = \<lparr>dh_file_id = ''id'', dh_file_key = ''k''\<rparr>"

definition demo_disk :: "bytes \<Rightarrow> fs" where
  "demo_disk d = [(user_dir demo_down [''s''] [9] ''k'', DirNode),
     (object_path demo_down [''s''] [9] ''k'' ''id'' ''.file'', FileNode d),
     (object_path demo_down [''s''] [9] ''k'' ''id'' ''.meta'', FileNode [0])]"

lemma demo_down_laws: "channel_ok demo_down demo_key" "sha_ok demo_down" "hex_ok demo_down"
  by (simp add: channel_ok_def demo_key_def demo_down_def demo_laws) (rule demo_laws; simp add: demo_down_def)+

lemma demo_down_codecs:
  "download_response demo_down = download_response demo"
  "pc_MetadataFile demo_down = table_codec [demo_meta]"
  "pc_DownloadResponse demo_down = table_codec [download_response demo demo_meta 0]"
  "pc_ErrorHeader demo_down = table_codec [\<lparr>err_code = 404, err_message = ''File not found''\<rparr>]"
  by (simp_all add: demo_down_def download_response_def fun_eq_iff)

lemma demo_stores: "stores demo_down demo_cfg [9] ''k'' ''id'' demo_meta d (demo_disk d)"
proof -
  note paths = object_path_plain [OF demo_down_laws(3,2)] user_dir_plain [OF demo_down_laws(3,2)]
  show ?thesis
    by (simp add: stores_def demo_cfg_def demo_disk_def fs_get_def path_exists_def paths demo_down_codecs table_codec_single)
qed

lemma demo_ready:
  assumes "n \<le> 70000"
  shows "download_ready demo_down demo_cfg demo_key [9] demo_request demo_meta d 0 n ((demo_sv [])\<lparr>disk := demo_disk d, out_room := 80000\<rparr>)"
  using assms
  by (simp add: download_ready_def demo_stores demo_down_laws demo_down_codecs table_codec_single download_payload_def
      demo_request_def sealed_fits_def writable_def demo_sv_def)
     (simp add: demo_meta_def str_prefix_def is_char_boundary_def)



end
