(* ===== verification/AuthKeys.thy ===== *)
theory AuthKeys
  imports Serve
begin

text \<open>
  \<^verbatim>\<open>handle_auth_keys\<close> of \<^verbatim>\<open>src/protocol_v1.rs\<close>: registration of a client key and rotation to a
  new one. A registered client has a directory named after the hash of its key in hexadecimal
  under \<^verbatim>\<open>authorized_keys\<close> and one named after the hash of the raw key under \<^verbatim>\<open>storage\<close>.
\<close>

section \<open>The handler\<close>

text \<open>\<^verbatim>\<open>slice::split_at\<close>, which panics when the slice is too short.\<close>

definition split_at :: "nat \<Rightarrow> bytes \<Rightarrow> (bytes \<times> bytes) res" where
  "split_at n b = (if length b < n then Panic ''mid > len'' else Ok (take n b, drop n b))"

definition key_dir_name :: "prims \<Rightarrow> bytes \<Rightarrow> string" where
  "key_dir_name P pub_key = hex_encode P (sha256 P (as_bytes (hex_encode P pub_key)))"

definition storage_dir_name :: "prims \<Rightarrow> bytes \<Rightarrow> string" where
  "storage_dir_name P pub_key = hex_encode P (sha512 P pub_key)"

definition not_authorized :: string where
  "not_authorized = ''Client not authorized, please contact the admin, provider or ssh into the server''"

text \<open>Registration, once the signature has been accepted.\<close>

definition register_client :: "prims \<Rightarrow> config \<Rightarrow> bytes \<Rightarrow> bytes \<Rightarrow> ('a conn_scheme, unit) io" where
  "register_client P cfg session_key pub_key =
    (let pub_key_hash256 = key_dir_name P pub_key in
     seq (lift_res (get_authorized_client_dir (cfg_home cfg))) (\<lambda>auth_dir.
     let user_key_path = path_join auth_dir pub_key_hash256 in
     seq (lift_res (str_prefix 16 pub_key_hash256)) (\<lambda>_.
     seq (get_state (\<lambda>w. (path_exists (disk w) user_key_path, path_is_dir (disk w) user_key_path))) (\<lambda>(key_exists, key_is_dir).
     if \<not> ENABLE_CLIENT_WHITELIST (cfg_env cfg) \<and> \<not> key_exists then
       reply_failed P 403 not_authorized session_key
     else if key_exists \<and> \<not> key_is_dir then
       reply_failed P 500 ''Auth key path exists but is not a directory, skipping user storage dir creation'' session_key
     else
     seq (lift_res (get_storage_dir (cfg_home cfg))) (\<lambda>storage_dir.
     let user_storage_dir = path_join storage_dir (storage_dir_name P pub_key) in
     seq (get_state (\<lambda>w. path_exists (disk w) user_storage_dir \<and> path_exists (disk w) user_key_path)) (\<lambda>known.
     if known then
       send_warn P \<lparr>warn_code = 409, warn_message = ''Client Auth & Storage directory already exists, not required''\<rparr> session_key
     else
     seq (attempt (fs_do (create_dir_all user_key_path))) (\<lambda>r1.
     seq (attempt (fs_do (create_dir_all user_storage_dir))) (\<lambda>r2.
     case (r1, r2) of
       (Inr _, Inr _) \<Rightarrow> timeout WRITE_TIMEOUT deadline_elapsed (write_encrypt_frame_into P [1] session_key)
     | _ \<Rightarrow> seq (lift_res (str_prefix 32 pub_key_hash256)) (\<lambda>_.
            reply_failed P 500 ''Failed to create auth key or user storage directory, try again later'' session_key)))))))))"

definition auth_new :: "prims \<Rightarrow> config \<Rightarrow> bytes \<Rightarrow> ('a conn_scheme, unit) io" where
  "auth_new P cfg session_key =
    seq (read_encrypt_data_into P session_key) (\<lambda>header_bytes.
    seq (lift_res (split_at 64 header_bytes)) (\<lambda>(nonce, signature_new_key).
    seq (lift_res (split_at 64 signature_new_key)) (\<lambda>(signature, new_key).
    seq (attempt (lift_res (validate_signature P new_key signature nonce))) (\<lambda>r. case r of
      Inr pub_key \<Rightarrow> register_client P cfg session_key pub_key
    | Inl e \<Rightarrow> reply_failed P 401 (''Invalid signature: '' @ e) session_key))))"

text \<open>Rotation, once the old key's signature has been accepted.\<close>

definition rotate_client :: "prims \<Rightarrow> config \<Rightarrow> bytes \<Rightarrow> bytes \<Rightarrow> bytes \<Rightarrow> ('a conn_scheme, unit) io" where
  "rotate_client P cfg session_key old_pub_key new_key =
    seq (lift_res (of_sum (\<lambda>e. ''Failed to construct new public key from bytes: '' @ e) (ed_verifying_key P new_key))) (\<lambda>new_pub_key.
    seq (lift_res (get_authorized_client_dir (cfg_home cfg))) (\<lambda>auth_keys_path.
    seq (lift_res (get_storage_dir (cfg_home cfg))) (\<lambda>storage_dir.
    let new_user_path = path_join storage_dir (storage_dir_name P new_pub_key);
        old_user_path = path_join storage_dir (storage_dir_name P old_pub_key)
    in
    seq (get_state (\<lambda>w. path_exists (disk w) old_user_path)) (\<lambda>registered.
    if \<not> registered then fail ''User not registered, not found''
    else
    seq (attempt (fs_do (fs_rename (path_join auth_keys_path (key_dir_name P old_pub_key))
                                   (path_join auth_keys_path (key_dir_name P new_pub_key))))) (\<lambda>r1.
    seq (attempt (fs_do (fs_rename old_user_path new_user_path))) (\<lambda>r2.
    case (r1, r2) of
      (Inr _, Inr _) \<Rightarrow> timeout WRITE_TIMEOUT deadline_elapsed (write_encrypt_frame_into P [1] session_key)
    | _ \<Rightarrow> reply_failed P 500 ''Failed to rotate keys, try again later'' session_key))))))"

definition auth_rotate :: "prims \<Rightarrow> config \<Rightarrow> bytes \<Rightarrow> ('a conn_scheme, unit) io" where
  "auth_rotate P cfg session_key =
    seq (read_encrypt_data_into P session_key) (\<lambda>header_bytes.
    seq (lift_res (split_at 64 header_bytes)) (\<lambda>(nonce, signature_new_key_old_key).
    seq (lift_res (split_at 64 signature_new_key_old_key)) (\<lambda>(signature, new_key_old_key).
    seq (lift_res (split_at 32 new_key_old_key)) (\<lambda>(old_key, new_key).
    seq (attempt (lift_res (validate_signature P old_key signature nonce))) (\<lambda>r. case r of
      Inr old_pub_key \<Rightarrow> rotate_client P cfg session_key old_pub_key new_key
    | Inl e \<Rightarrow> reply_failed P 401 (''Invalid signature: '' @ e) session_key)))))"

definition handle_auth_keys :: "prims \<Rightarrow> config \<Rightarrow> u8 \<Rightarrow> bytes \<Rightarrow> ('a conn_scheme, unit) io" where
  "handle_auth_keys P cfg flag session_key =
    seq (fill_bytes 64) (\<lambda>seed.
    let nonce = sha512 P seed in
    seq (timeout WRITE_TIMEOUT deadline_elapsed (write_encrypt_frame_into P nonce session_key)) (\<lambda>_.
    if flag = 1 then auth_new P cfg session_key
    else if flag = 2 then auth_rotate P cfg session_key
    else reply_failed P 400 ''Invalid flag value'' session_key))"

section \<open>Paths\<close>

lemma plain_rdrive: "plain_name ''.rdrive''" "plain_name ''storage''" "plain_name ''authorized_keys''"
  by (simp_all add: plain_name_def)

lemma auth_dirs [simp]:
  "get_authorized_client_dir (Some h) = Ok (h @ [''.rdrive'', ''authorized_keys''])"
  "get_storage_dir (Some h) = Ok (h @ [''.rdrive'', ''storage''])"
  by (simp_all add: get_authorized_client_dir_def get_storage_dir_def home_sub_def plain_rdrive)

definition key_path :: "prims \<Rightarrow> path \<Rightarrow> bytes \<Rightarrow> path" where
  "key_path P h k = h @ [''.rdrive'', ''authorized_keys'', key_dir_name P k]"

definition space_path :: "prims \<Rightarrow> path \<Rightarrow> bytes \<Rightarrow> path" where
  "space_path P h k = h @ [''.rdrive'', ''storage'', storage_dir_name P k]"

lemma join_paths:
  assumes "sha_ok P" "hex_ok P"
  shows "path_join (h @ [''.rdrive'', ''authorized_keys'']) (key_dir_name P k) = key_path P h k"
    "path_join (h @ [''.rdrive'', ''storage'']) (storage_dir_name P k) = space_path P h k"
  using assms by (simp_all add: key_path_def space_path_def key_dir_name_def storage_dir_name_def hex_plain sha_nonempty)

lemma key_name_prefix:
  assumes "sha_ok P" "hex_ok P" "n < 64"
  shows "str_prefix n (key_dir_name P k) = Ok (take n (key_dir_name P k))"
proof -
  let ?s = "key_dir_name P k"
  have l: "length ?s = 64" using assms(1,2) by (simp add: key_dir_name_def hex_ok_def sha_lengths)
  then have "?s ! n \<in> set ?s" using assms(3) by simp
  moreover have "set ?s \<subseteq> set hex_digits" using assms(2) by (simp add: key_dir_name_def hex_ok_def)
  ultimately have "\<not> 128 \<le> (of_char (?s ! n) :: nat)" using hex_not_continuation by blast
  with l assms(3) show ?thesis by (simp add: str_prefix_def is_char_boundary_def)
qed

section \<open>The challenge and the header\<close>

definition auth_challenge :: "prims \<Rightarrow> 'a conn_scheme \<Rightarrow> bytes" where
  "auth_challenge P w = sha512 P (take_rng 64 (rng w))"

text \<open>The nonce its frame is sealed under.\<close>

definition auth_nonce :: "'a conn_scheme \<Rightarrow> bytes" where
  "auth_nonce w = map (rng w) [64..<76]"

text \<open>
  After the challenge has gone out and the client's sealed header has come in, the registration or
  the rotation continues from a state that differs only in the connection.
\<close>

definition auth_state :: "prims \<Rightarrow> bytes \<Rightarrow> bytes \<Rightarrow> bytes \<Rightarrow> bytes \<Rightarrow> 'a conn_scheme \<Rightarrow> 'a conn_scheme" where
  "auth_state P key rest p q w =
    (after_frame P key (auth_challenge P w) p (w\<lparr>rng := skip_rng 64 (rng w)\<rparr>))\<lparr>inp := rest, pool := q\<rparr>"

lemma auth_state_fields [simp]:
  "disk (auth_state P key rest p q w) = disk w" "conn.more (auth_state P key rest p q w) = conn.more w"
  "inp (auth_state P key rest p q w) = rest" "out_buf (auth_state P key rest p q w) = []"
  "waited (auth_state P key rest p q w) = waited w"
  by (simp_all add: auth_state_def after_frame_def)

lemma auth_state_wire [simp]:
  "out_sent (auth_state P key rest p q w) = wire w @ sealed_frame P key (auth_nonce w) (auth_challenge P w)"
proof -
  have "next_nonce (w\<lparr>rng := skip_rng 64 (rng w)\<rparr>) = auth_nonce w"
    by (simp add: next_nonce_def skip_rng_def auth_nonce_def upt_rec)
  then show ?thesis by (simp add: auth_state_def wire_def after_frame_def)
qed

lemma auth_state_room:
  "sha_ok P \<Longrightarrow> writable (96 + n) w \<Longrightarrow> writable n (auth_state P key rest p q w)"
  by (simp add: auth_state_def writable_def after_frame_def auth_challenge_def sha_lengths)

lemma auth_header_read:
  fixes w :: "'a conn_scheme"
  assumes "channel_ok P key" "sha_ok P" "length r = 12" "sealed_fits hb"
    "inp w = sealed_frame P key r hb @ rest" "writable 96 w"
  obtains p q where "handle_auth_keys P cfg flag key w =
      (if flag = 1 \<or> flag = 2 then
         (if flag = 1 then auth_new P cfg key else auth_rotate P cfg key)
           ((auth_state P key rest p q w)\<lparr>inp := inp w\<rparr>)
       else reply_failed P 400 ''Invalid flag value'' key ((auth_state P key rest p q w)\<lparr>inp := inp w\<rparr>))"
    "\<exists>q'. read_encrypt_data_into P key ((auth_state P key rest p q w)\<lparr>inp := inp w\<rparr>) = (Ok hb, auth_state P key rest p q' w)"
proof -
  let ?w = "w\<lparr>rng := skip_rng 64 (rng w)\<rparr>" and ?c = "auth_challenge P w"
  have c: "sealed_fits ?c" "writable (32 + length ?c) ?w"
    using assms(2,6) by (simp_all add: auth_challenge_def sha_lengths sealed_fits_def writable_def)
  obtain p where p: "timeout WRITE_TIMEOUT deadline_elapsed (write_encrypt_frame_into P ?c key) ?w = (Ok (), after_frame P key ?c p ?w)"
    by (rule write_frame_timeout [OF assms(1) c])
  let ?v = "after_frame P key ?c p ?w"
  have v: "?v = (auth_state P key rest p p w)\<lparr>inp := inp w\<rparr>" by (simp add: auth_state_def after_frame_def)
  have "inp ?v = sealed_frame P key r hb @ rest" using assms(5) by simp
  with assms(1,3,4) obtain q' where "read_encrypt_data_into P key ?v = (Ok hb, ?v\<lparr>inp := rest, pool := q'\<rparr>)"
    using read_encrypt_ok [of P key r hb ?v rest] unfolding channel_ok_def by blast
  moreover have "?v\<lparr>inp := rest, pool := q'\<rparr> = auth_state P key rest p q' w" by (simp add: auth_state_def)
  moreover have "handle_auth_keys P cfg flag key w = (if flag = 1 \<or> flag = 2 then
         (if flag = 1 then auth_new P cfg key else auth_rotate P cfg key) ?v
       else reply_failed P 400 ''Invalid flag value'' key ?v)"
    using p by (simp add: handle_auth_keys_def fill_bytes_run seq_Ok auth_challenge_def)
  ultimately show thesis using that [of p p] v by metis
qed

text \<open>
  A request with a header that has been sealed under the session key: what the client presents is a
  nonce, a signature and one or two keys.
\<close>

definition auth_arrives :: "prims \<Rightarrow> bytes \<Rightarrow> bytes \<Rightarrow> bytes \<Rightarrow> 'a conn_scheme \<Rightarrow> bool" where
  "auth_arrives P key hb rest w \<longleftrightarrow> channel_ok P key \<and> sha_ok P \<and> hex_ok P \<and> sealed_fits hb \<and>
     (\<exists>r. length r = 12 \<and> inp w = sealed_frame P key r hb @ rest)"

lemma split_at_append [simp]: "length a = n \<Longrightarrow> split_at n (a @ b) = Ok (a, b)"
  by (simp add: split_at_def)

lemma auth_new_run:
  fixes w :: "'a conn_scheme"
  assumes "auth_arrives P key (n @ sg @ k) rest w" "length n = 64" "length sg = 64" "writable 96 w"
    "validate_signature P k sg n = Ok k"
  obtains p q where "handle_auth_keys P cfg 1 key w = register_client P cfg key k (auth_state P key rest p q w)"
proof -
  obtain r where r: "length r = 12" "inp w = sealed_frame P key r (n @ sg @ k) @ rest"
    and a: "channel_ok P key" "sha_ok P" "sealed_fits (n @ sg @ k)"
    using assms(1) by (auto simp: auth_arrives_def)
  obtain p q q' where "handle_auth_keys P cfg 1 key w = auth_new P cfg key ((auth_state P key rest p q w)\<lparr>inp := inp w\<rparr>)"
    "read_encrypt_data_into P key ((auth_state P key rest p q w)\<lparr>inp := inp w\<rparr>) = (Ok (n @ sg @ k), auth_state P key rest p q' w)"
    by (rule auth_header_read [OF a(1,2) r(1) a(3) r(2) assms(4), of cfg 1]) auto
  then show thesis using assms(2,3,5) by (intro that [of p q']) (simp add: auth_new_def run_simps)
qed

lemma auth_rotate_run:
  fixes w :: "'a conn_scheme"
  assumes "auth_arrives P key (n @ sg @ old @ new) rest w" "length n = 64" "length sg = 64" "length old = 32" "writable 96 w"
    "validate_signature P old sg n = Ok old"
  obtains p q where "handle_auth_keys P cfg 2 key w = rotate_client P cfg key old new (auth_state P key rest p q w)"
proof -
  obtain r where r: "length r = 12" "inp w = sealed_frame P key r (n @ sg @ old @ new) @ rest"
    and a: "channel_ok P key" "sha_ok P" "sealed_fits (n @ sg @ old @ new)"
    using assms(1) by (auto simp: auth_arrives_def)
  obtain p q q' where "handle_auth_keys P cfg 2 key w = auth_rotate P cfg key ((auth_state P key rest p q w)\<lparr>inp := inp w\<rparr>)"
    "read_encrypt_data_into P key ((auth_state P key rest p q w)\<lparr>inp := inp w\<rparr>) = (Ok (n @ sg @ old @ new), auth_state P key rest p q' w)"
    by (rule auth_header_read [OF a(1,2) r(1) a(3) r(2) assms(5), of cfg 2]) auto
  then show thesis using assms(2,3,4,6) by (intro that [of p q']) (simp add: auth_rotate_def run_simps)
qed

section \<open>Registration\<close>

lemma handle_auth_registers:
  fixes w :: "'a conn_scheme"
  assumes "auth_arrives P key (n @ sg @ k) rest w" "length n = 64" "length sg = 64" "validate_signature P k sg n = Ok k"
    "cfg_home cfg = Some h" "ENABLE_CLIENT_WHITELIST (cfg_env cfg)" "\<not> path_exists (disk w) (key_path P h k)"
    "\<not> list_ex (is_file (disk w)) (prefixes (key_path P h k))" "\<not> list_ex (is_file (disk w)) (prefixes (space_path P h k))"
    "writable 129 w"
  shows "\<exists>w' r. handle_auth_keys P cfg 1 key w = (Ok (), w') \<and>
    fs_get (disk w') (key_path P h k) = Some DirNode \<and> fs_get (disk w') (space_path P h k) = Some DirNode \<and>
    wire w' = wire w @ sealed_frame P key (auth_nonce w) (auth_challenge P w) @ sealed_frame P key r [1] \<and>
    length r = 12 \<and> inp w' = rest \<and> out_buf w' = []"
proof -
  have a: "channel_ok P key" "sha_ok P" "hex_ok P" using assms(1) by (auto simp: auth_arrives_def)
  have wr: "writable 96 w" using assms(10) by (simp add: writable_def)
  obtain p q where run: "handle_auth_keys P cfg 1 key w = register_client P cfg key k (auth_state P key rest p q w)"
    by (rule auth_new_run [OF assms(1,2,3) wr assms(4), of cfg])
  let ?s = "auth_state P key rest p q w"
  obtain f1 where f1: "create_dir_all (key_path P h k) (disk w) = Ok f1" using create_dir_all_free [OF assms(8)] by blast
  have "\<not> is_file f1 x" if "prefix x (space_path P h k)" for x
    using that assms(9) create_dir_all_get [OF f1, of x] by (auto simp: list_ex_iff is_file_def split: option.splits node.splits if_splits)
  then have "\<not> list_ex (is_file f1) (prefixes (space_path P h k))" by (auto simp: list_ex_iff)
  then obtain f2 where f2: "create_dir_all (space_path P h k) f1 = Ok f2" using create_dir_all_free by blast
  have ne: "key_path P h k \<noteq> []" "space_path P h k \<noteq> []" by (simp_all add: key_path_def space_path_def)
  have g: "fs_get f2 (key_path P h k) = Some DirNode" "fs_get f2 (space_path P h k) = Some DirNode"
    using create_dir_all_is_dir [OF f1, of "key_path P h k"] create_dir_all_is_dir [OF f2, of "space_path P h k"] ne
      create_dir_all_get [OF f2] by auto
  have "writable 33 (?s\<lparr>disk := f2\<rparr>)"
    using auth_state_room [OF a(2), of 33 w key rest p q] assms(10) by (simp add: writable_def)
  then have fits: "sealed_fits [1 :: byte]" "writable (32 + length [1 :: byte]) (?s\<lparr>disk := f2\<rparr>)" by (simp_all add: sealed_fits_def)
  obtain p' where "timeout WRITE_TIMEOUT deadline_elapsed (write_encrypt_frame_into P [1] key) (?s\<lparr>disk := f2\<rparr>) =
      (Ok (), after_frame P key [1] p' (?s\<lparr>disk := f2\<rparr>))"
    by (rule write_frame_timeout [OF a(1) fits])
  then have "handle_auth_keys P cfg 1 key w = (Ok (), after_frame P key [1] p' (?s\<lparr>disk := f2\<rparr>))"
    using assms(5-7) f1 f2 a(2,3)
    by (simp add: run register_client_def Let_def join_paths key_name_prefix run_simps path_is_dir_def)
  with g show ?thesis
    by (intro exI [of _ "after_frame P key [1] p' (?s\<lparr>disk := f2\<rparr>)"] exI [of _ "next_nonce (?s\<lparr>disk := f2\<rparr>)"])
       (simp add: wire_def next_nonce_def)
qed

text \<open>
  C19. Who is admitted. A client whose key has no directory yet and that presents a nonce of 64 bytes,
  signed with its key, is admitted when \<^verbatim>\<open>ENABLE_CLIENT_WHITELIST\<close> is on: both its directories exist
  afterwards and it receives the acknowledgement. Which nonce it signed does not matter, in
  particular not whether it is the challenge that this run of the handler has just sent.
\<close>

theorem unknown_key_admitted:
  fixes w :: "'a conn_scheme"
  assumes "auth_arrives P key (n @ sg @ k) rest w" "length n = 64" "length sg = 64" "validate_signature P k sg n = Ok k"
    "cfg_home cfg = Some h" "ENABLE_CLIENT_WHITELIST (cfg_env cfg)" "\<not> path_exists (disk w) (key_path P h k)"
    "\<not> list_ex (is_file (disk w)) (prefixes (key_path P h k))" "\<not> list_ex (is_file (disk w)) (prefixes (space_path P h k))"
    "writable 129 w"
  shows "\<exists>w' r. handle_auth_keys P cfg 1 key w = (Ok (), w') \<and>
    fs_get (disk w') (key_path P h k) = Some DirNode \<and> fs_get (disk w') (space_path P h k) = Some DirNode \<and>
    wire w' = wire w @ sealed_frame P key (auth_nonce w) (auth_challenge P w) @ sealed_frame P key r [1]"
  using handle_auth_registers [OF assms] by blast

text \<open>A client with the key 6, 0, 0, ... and a server whose home is \<^verbatim>\<open>/h\<close>.\<close>

definition demo_auth :: prims where
  "demo_auth = demo\<lparr>pc_ErrorHeader := table_codec [\<lparr>err_code = 403, err_message = not_authorized\<rparr>]\<rparr>"

definition demo_k :: "byte \<Rightarrow> bytes" where
  "demo_k b = pad 32 [b]"

definition demo_auth_cfg :: "env \<Rightarrow> config" where
  "demo_auth_cfg e = demo_cfg\<lparr>cfg_home := Some [''h''], cfg_env := e\<rparr>"

definition demo_auth_frame :: "bytes \<Rightarrow> bytes" where
  "demo_auth_frame ks = replicate 64 0 @ demo_sign (demo_k 6) (replicate 64 0) @ ks"

definition demo_auth_conn :: "bytes \<Rightarrow> fs \<Rightarrow> server_state" where
  "demo_auth_conn ks f = (demo_sv (sealed_frame demo_auth demo_key (replicate 12 0) (demo_auth_frame ks)))\<lparr>disk := f\<rparr>"

lemma demo_auth_laws: "channel_ok demo_auth demo_key" "sha_ok demo_auth" "hex_ok demo_auth"
  by (simp add: channel_ok_def demo_key_def demo_auth_def demo_laws) (rule demo_laws; simp add: demo_auth_def)+

lemma demo_auth_lengths: "length (demo_sign a b) = 64" "length (demo_k c) = 32"
  by (simp_all add: demo_sign_def demo_k_def)

lemma demo_auth_arrives:
  assumes "length ks \<le> 64"
  shows "auth_arrives demo_auth demo_key (replicate 64 0 @ demo_sign (demo_k 6) (replicate 64 0) @ ks) [] (demo_auth_conn ks f)"
proof -
  have "inp (demo_auth_conn ks f) = sealed_frame demo_auth demo_key (replicate 12 0)
      (replicate 64 0 @ demo_sign (demo_k 6) (replicate 64 0) @ ks) @ []"
    by (simp add: demo_auth_conn_def demo_sv_def demo_auth_frame_def)
  moreover have "length (replicate 12 (0 :: byte)) = 12" by simp
  moreover have "sealed_fits (replicate 64 0 @ demo_sign (demo_k 6) (replicate 64 0) @ ks)"
    using assms by (simp add: sealed_fits_def demo_auth_lengths)
  ultimately show ?thesis
    unfolding auth_arrives_def using demo_auth_laws by blast
qed

lemma demo_auth_valid: "validate_signature demo_auth (demo_k 6) (demo_sign (demo_k 6) n) n = Ok (demo_k 6)"
  by (simp add: validate_signature_def demo_auth_def demo_verify_def demo_auth_lengths)

lemma demo_auth_room: "n \<le> 1000 \<Longrightarrow> writable n (demo_auth_conn ks f)"
  by (simp add: demo_auth_conn_def demo_sv_def writable_def)

theorem unknown_key_admitted_witness:
  "\<exists>w'. handle_auth_keys demo_auth (demo_auth_cfg (\<lambda>_. None)) 1 demo_key (demo_auth_conn (demo_k 6) []) = (Ok (), w') \<and>
    fs_get (disk w') (space_path demo_auth [''h''] (demo_k 6)) = Some DirNode"
proof -
  have "disk (demo_auth_conn (demo_k 6) []) = []" by (simp add: demo_auth_conn_def)
  with unknown_key_admitted [OF demo_auth_arrives _ _ demo_auth_valid, of "demo_auth_cfg (\<lambda>_. None)" "[''h'']" "[]"]
  show ?thesis
    by (auto simp: demo_auth_lengths demo_auth_cfg_def ENABLE_CLIENT_WHITELIST_def env_or_def path_exists_def
        is_file_def fs_get_def list_ex_iff demo_auth_room)
qed

text \<open>
  C20. The same client is turned away with error 403 when \<^verbatim>\<open>ENABLE_CLIENT_WHITELIST\<close> is off: nothing
  is created.
\<close>

theorem unknown_key_rejected:
  fixes w :: "'a conn_scheme"
  assumes "auth_arrives P key (n @ sg @ k) rest w" "length n = 64" "length sg = 64" "validate_signature P k sg n = Ok k"
    "cfg_home cfg = Some h" "\<not> ENABLE_CLIENT_WHITELIST (cfg_env cfg)" "\<not> path_exists (disk w) (key_path P h k)"
    "roundtrips (pc_ErrorHeader P) \<lparr>err_code = 403, err_message = not_authorized\<rparr>"
    "sealed_fits (error_payload P 403 not_authorized)" "writable (128 + length (error_payload P 403 not_authorized)) w"
  shows "\<exists>w' r. handle_auth_keys P cfg 1 key w = (Ok (), w') \<and> disk w' = disk w \<and>
    wire w' = wire w @ sealed_frame P key (auth_nonce w) (auth_challenge P w) @ sealed_frame P key r
      (error_payload P 403 not_authorized)"
proof -
  have a: "channel_ok P key" "sha_ok P" "hex_ok P" using assms(1) by (auto simp: auth_arrives_def)
  have wr: "writable 96 w" using assms(10) by (simp add: writable_def)
  obtain p q where run: "handle_auth_keys P cfg 1 key w = register_client P cfg key k (auth_state P key rest p q w)"
    by (rule auth_new_run [OF assms(1,2,3) wr assms(4), of cfg])
  let ?s = "auth_state P key rest p q w" and ?m = not_authorized
  have "writable (32 + length (error_payload P 403 ?m)) ?s"
    using auth_state_room [OF a(2), of "32 + length (error_payload P 403 ?m)" w] assms(10) by simp
  then have d: "error_deliverable P 403 ?m ?s" using assms(8,9) by (simp add: error_deliverable_def)
  obtain p' where "reply_failed P 403 ?m key ?s = (Ok (), (after_frame P key (error_payload P 403 ?m) p' ?s)\<lparr>out_shut := True\<rparr>)"
    by (rule reply_failed_run [OF a(1) d])
  then have "handle_auth_keys P cfg 1 key w = (Ok (), (after_frame P key (error_payload P 403 ?m) p' ?s)\<lparr>out_shut := True\<rparr>)"
    using assms(5-7) a(2,3) by (simp add: run register_client_def Let_def join_paths key_name_prefix run_simps)
  then show ?thesis by (auto simp: wire_def)
qed

theorem unknown_key_rejected_witness:
  "\<exists>w'. handle_auth_keys demo_auth (demo_auth_cfg [''ENABLE_CLIENT_WHITELIST'' \<mapsto> ''false'']) 1 demo_key
      (demo_auth_conn (demo_k 6) []) = (Ok (), w') \<and> disk w' = []"
proof -
  have "disk (demo_auth_conn (demo_k 6) []) = []" by (simp add: demo_auth_conn_def)
  moreover have c: "pc_ErrorHeader demo_auth = table_codec [\<lparr>err_code = 403, err_message = not_authorized\<rparr>]" by (simp add: demo_auth_def)
  ultimately show ?thesis
    using unknown_key_rejected [OF demo_auth_arrives _ _ demo_auth_valid,
        of "demo_auth_cfg [''ENABLE_CLIENT_WHITELIST'' \<mapsto> ''false'']" "[''h'']" "[]"]
    by (auto simp: demo_auth_lengths demo_auth_cfg_def ENABLE_CLIENT_WHITELIST_def env_or_def parse_bool_def path_exists_def
        fs_get_def error_payload_def c table_codec_single sealed_fits_def demo_auth_room)
qed

section \<open>Rotation\<close>

lemma path_parts:
  "prefix (key_path P h k) (key_path P h k') \<longleftrightarrow> key_dir_name P k = key_dir_name P k'"
  "prefix (space_path P h k) (space_path P h k') \<longleftrightarrow> storage_dir_name P k = storage_dir_name P k'"
  "\<not> prefix (key_path P h k) (space_path P h k' @ r)" "\<not> prefix (space_path P h k) (key_path P h k' @ r)"
  "butlast (key_path P h k) = h @ [''.rdrive'', ''authorized_keys'']"
  "butlast (space_path P h k) = h @ [''.rdrive'', ''storage'']"
  by (auto simp: key_path_def space_path_def prefix_def butlast_append)

text \<open>Both renamings of a rotation, on the disk alone.\<close>

definition rotated :: "prims \<Rightarrow> path \<Rightarrow> bytes \<Rightarrow> bytes \<Rightarrow> fs \<Rightarrow> fs \<Rightarrow> bool" where
  "rotated P h old new f f' \<longleftrightarrow>
    (\<forall>r. fs_get f' (space_path P h new @ r) = fs_get f (space_path P h old @ r)) \<and>
    (\<forall>r. fs_get f' (space_path P h old @ r) = None) \<and>
    (\<forall>r. fs_get f' (key_path P h new @ r) = fs_get f (key_path P h old @ r)) \<and>
    (\<forall>r. fs_get f' (key_path P h old @ r) = None) \<and>
    (\<forall>q. \<not> prefix (space_path P h old) q \<and> \<not> prefix (space_path P h new) q \<and>
         \<not> prefix (key_path P h old) q \<and> \<not> prefix (key_path P h new) q \<longrightarrow> fs_get f' q = fs_get f q)"

lemma rotation_renames:
  assumes "fs_get f (key_path P h old) = Some DirNode" "fs_get f (space_path P h old) = Some DirNode"
    "fs_get f (key_path P h new) = None" "\<not> has_children f (key_path P h new)"
    "fs_get f (space_path P h new) = None" "\<not> has_children f (space_path P h new)"
    "path_is_dir f (h @ [''.rdrive'', ''authorized_keys''])" "path_is_dir f (h @ [''.rdrive'', ''storage''])"
  obtains f1 f2 where "fs_rename (key_path P h old) (key_path P h new) f = Ok f1"
    "fs_rename (space_path P h old) (space_path P h new) f1 = Ok f2" "rotated P h old new f f2"
proof -
  let ?ko = "key_path P h old" and ?kn = "key_path P h new" and ?so = "space_path P h old" and ?sn = "space_path P h new"
  have names: "key_dir_name P old \<noteq> key_dir_name P new" "storage_dir_name P old \<noteq> storage_dir_name P new"
    using assms(1-5) by (auto simp: key_path_def space_path_def)
  then have np: "\<not> prefix ?ko ?kn" "\<not> prefix ?kn ?ko" "\<not> prefix ?so ?sn" "\<not> prefix ?sn ?so"
    by (simp_all add: path_parts)
  let ?f1 = "move_tree ?ko ?kn f"
  let ?f2 = "move_tree ?so ?sn ?f1"
  note g1 = move_tree_get [OF assms(4) np(2,1)]
  have r1: "fs_rename ?ko ?kn f = Ok ?f1"
    using assms(1,3,7) np by (intro fs_rename_fresh) (simp_all add: path_parts)
  have sp: "\<not> prefix ?ko (?so @ r)" "\<not> prefix ?kn (?so @ r)" "\<not> prefix ?ko (?sn @ r)" "\<not> prefix ?kn (?sn @ r)" for r
    by (simp_all add: path_parts)
  have f1s: "fs_get ?f1 (?so @ r) = fs_get f (?so @ r)" "fs_get ?f1 (?sn @ r) = fs_get f (?sn @ r)" for r
    using sp [of r] by (simp_all add: g1(2))
  have nc: "\<not> has_children ?f1 ?sn"
    using assms(6) has_children_move [of ?ko ?kn f ?sn] by (auto simp: strict_prefix_def path_parts)
  note g2 = move_tree_get [OF nc np(4,3)]
  have sd: "fs_get ?f1 (h @ [''.rdrive'', ''storage'']) = fs_get f (h @ [''.rdrive'', ''storage''])"
    by (subst g1(2)) (auto simp: key_path_def prefix_def)
  have r2: "fs_rename ?so ?sn ?f1 = Ok ?f2"
    using assms(2,5,8) f1s [of "[]"] sd np by (intro fs_rename_fresh) (simp_all add: path_parts path_is_dir_def)
  have kp: "\<not> prefix ?so (?ko @ r)" "\<not> prefix ?sn (?ko @ r)" "\<not> prefix ?so (?kn @ r)" "\<not> prefix ?sn (?kn @ r)" for r
    by (simp_all add: path_parts)
  have knp: "\<not> prefix ?kn (?ko @ r)" "\<not> prefix ?sn (?so @ r)" for r
    using names by (auto simp: key_path_def space_path_def prefix_def)
  have "fs_get ?f2 (?sn @ r) = fs_get f (?so @ r)" "fs_get ?f2 (?so @ r) = None"
    "fs_get ?f2 (?kn @ r) = fs_get f (?ko @ r)" "fs_get ?f2 (?ko @ r) = None" for r
    using kp [of r] knp [of r] by (simp_all add: g2 f1s g1)
  moreover have "fs_get ?f2 q = fs_get f q" if "\<not> prefix ?so q" "\<not> prefix ?sn q" "\<not> prefix ?ko q" "\<not> prefix ?kn q" for q
    using that by (simp add: g2(2) g1(2))
  ultimately have "rotated P h old new f ?f2" by (simp add: rotated_def)
  with r1 r2 show thesis by (rule that)
qed

text \<open>
  C21. Rotation keeps every object. When a registered client presents a nonce signed with its old key,
  and the new key is unknown to the server, then afterwards everything that was stored in the old
  key's space is found at the same place in the new key's space, the old key has neither space nor
  registration left, the new key has the old one's registration, and all other paths are unchanged.
  The signature covers only the nonce, not the new key.
\<close>

theorem rotation_moves_objects:
  fixes w :: "'a conn_scheme"
  assumes "auth_arrives P key (n @ sg @ old @ new) rest w" "length n = 64" "length sg = 64" "length old = 32"
    "validate_signature P old sg n = Ok old" "ed_verifying_key P new = Inr new"
    "cfg_home cfg = Some h" "writable 129 w"
    "fs_get (disk w) (key_path P h old) = Some DirNode" "fs_get (disk w) (space_path P h old) = Some DirNode"
    "fs_get (disk w) (key_path P h new) = None" "\<not> has_children (disk w) (key_path P h new)"
    "fs_get (disk w) (space_path P h new) = None" "\<not> has_children (disk w) (space_path P h new)"
    "path_is_dir (disk w) (h @ [''.rdrive'', ''authorized_keys''])" "path_is_dir (disk w) (h @ [''.rdrive'', ''storage''])"
  shows "\<exists>w'. handle_auth_keys P cfg 2 key w = (Ok (), w') \<and>
    (\<forall>r. fs_get (disk w') (space_path P h new @ r) = fs_get (disk w) (space_path P h old @ r)) \<and>
    (\<forall>r. fs_get (disk w') (space_path P h old @ r) = None) \<and>
    (\<forall>r. fs_get (disk w') (key_path P h new @ r) = fs_get (disk w) (key_path P h old @ r)) \<and>
    (\<forall>r. fs_get (disk w') (key_path P h old @ r) = None) \<and>
    (\<forall>q. \<not> prefix (space_path P h old) q \<and> \<not> prefix (space_path P h new) q \<and>
         \<not> prefix (key_path P h old) q \<and> \<not> prefix (key_path P h new) q \<longrightarrow> fs_get (disk w') q = fs_get (disk w) q)"
proof -
  have a: "channel_ok P key" "sha_ok P" "hex_ok P" using assms(1) by (auto simp: auth_arrives_def)
  have wr: "writable 96 w" using assms(8) by (simp add: writable_def)
  obtain p q where run: "handle_auth_keys P cfg 2 key w = rotate_client P cfg key old new (auth_state P key rest p q w)"
    by (rule auth_rotate_run [OF assms(1-4) wr assms(5), of cfg])
  let ?s = "auth_state P key rest p q w"
  obtain f1 f2 where f: "fs_rename (key_path P h old) (key_path P h new) (disk w) = Ok f1"
    "fs_rename (space_path P h old) (space_path P h new) f1 = Ok f2" "rotated P h old new (disk w) f2"
    by (rule rotation_renames [OF assms(9-16)])
  have "writable 33 (?s\<lparr>disk := f2\<rparr>)"
    using auth_state_room [OF a(2), of 33 w key rest p q] assms(8) by (simp add: writable_def)
  then have fits: "sealed_fits [1 :: byte]" "writable (32 + length [1 :: byte]) (?s\<lparr>disk := f2\<rparr>)" by (simp_all add: sealed_fits_def)
  obtain p' where "timeout WRITE_TIMEOUT deadline_elapsed (write_encrypt_frame_into P [1] key) (?s\<lparr>disk := f2\<rparr>) =
      (Ok (), after_frame P key [1] p' (?s\<lparr>disk := f2\<rparr>))"
    by (rule write_frame_timeout [OF a(1) fits])
  then have "handle_auth_keys P cfg 2 key w = (Ok (), after_frame P key [1] p' (?s\<lparr>disk := f2\<rparr>))"
    using assms(6,7,10) f(1,2) a(2,3)
    by (simp add: run rotate_client_def Let_def join_paths run_simps path_exists_def)
  with f(3) show ?thesis by (simp add: rotated_def)
qed

definition demo_auth_disk :: fs where
  "demo_auth_disk = [([''h'', ''.rdrive'', ''authorized_keys''], DirNode), ([''h'', ''.rdrive'', ''storage''], DirNode),
     (key_path demo_auth [''h''] (demo_k 6), DirNode), (space_path demo_auth [''h''] (demo_k 6), DirNode),
     (space_path demo_auth [''h''] (demo_k 6) @ [''x''], FileNode [1])]"

lemma demo_names_differ:
  "key_dir_name demo_auth (demo_k 6) \<noteq> key_dir_name demo_auth (demo_k 8)"
  "storage_dir_name demo_auth (demo_k 6) \<noteq> storage_dir_name demo_auth (demo_k 8)"
proof -
  have p: "pad 32 (b # x) = b # take 31 (x @ replicate 32 0)" "pad 64 (b # x) = b # take 63 (x @ replicate 64 0)" for b x
    by (simp_all add: pad_def)
  have k: "demo_k b = b # replicate 31 0" for b by (simp add: demo_k_def p)
  have h: "hex_encode demo_auth (b # x) = hex_byte b @ hex_encode demo_auth x" for b x by (simp add: demo_auth_def)
  have hb: "hex_byte 6 = ''06''" "hex_byte 8 = ''08''" by (simp_all add: hex_byte_def hex_digits_def)
  show "storage_dir_name demo_auth (demo_k 6) \<noteq> storage_dir_name demo_auth (demo_k 8)"
    by (simp add: storage_dir_name_def k demo_auth_def p hb)
  have hx: "hex_byte (48 :: byte) = ''30''" "hex_byte (54 :: byte) = ''36''" "hex_byte (56 :: byte) = ''38''"
    by (simp_all add: hex_byte_def hex_digits_def)
  have sh: "sha256 demo_auth (x # y # z) = x # y # take 30 (z @ replicate 32 0)" for x y z
    by (simp add: demo_auth_def pad_def numeral_eq_Suc [of "num.Bit0 num.One"])
  have ab: "as_bytes (''06'' @ z) = 48 # 54 # as_bytes z" "as_bytes (''08'' @ z) = 48 # 56 # as_bytes z" for z
    by (simp_all add: as_bytes_def)
  show "key_dir_name demo_auth (demo_k 6) \<noteq> key_dir_name demo_auth (demo_k 8)"
    unfolding key_dir_name_def k h hb ab sh by (simp add: hx)
qed

theorem rotation_moves_objects_witness:
  "\<exists>w'. handle_auth_keys demo_auth (demo_auth_cfg (\<lambda>_. None)) 2 demo_key (demo_auth_conn (demo_k 6 @ demo_k 8) demo_auth_disk) = (Ok (), w') \<and>
    fs_get (disk w') (space_path demo_auth [''h''] (demo_k 8) @ [''x'']) = Some (FileNode [1]) \<and>
    fs_get (disk w') (space_path demo_auth [''h''] (demo_k 6) @ [''x'']) = None"
proof -
  let ?w = "demo_auth_conn (demo_k 6 @ demo_k 8) demo_auth_disk"
  have d: "disk ?w = demo_auth_disk" by (simp add: demo_auth_conn_def)
  note ps = key_path_def space_path_def demo_names_differ demo_names_differ [symmetric]
  have f: "fs_get demo_auth_disk (key_path demo_auth [''h''] (demo_k 6)) = Some DirNode"
    "fs_get demo_auth_disk (space_path demo_auth [''h''] (demo_k 6)) = Some DirNode"
    "fs_get demo_auth_disk (key_path demo_auth [''h''] (demo_k 8)) = None" "\<not> has_children demo_auth_disk (key_path demo_auth [''h''] (demo_k 8))"
    "fs_get demo_auth_disk (space_path demo_auth [''h''] (demo_k 8)) = None" "\<not> has_children demo_auth_disk (space_path demo_auth [''h''] (demo_k 8))"
    "path_is_dir demo_auth_disk ([''h''] @ [''.rdrive'', ''authorized_keys''])" "path_is_dir demo_auth_disk ([''h''] @ [''.rdrive'', ''storage''])"
    "fs_get demo_auth_disk (space_path demo_auth [''h''] (demo_k 6) @ [''x'']) = Some (FileNode [1])"
    by (simp_all add: demo_auth_disk_def fs_get_def has_children_def path_is_dir_def ps)
  have v: "ed_verifying_key demo_auth (demo_k 8) = Inr (demo_k 8)" by (simp add: demo_auth_def demo_auth_lengths)
  have ar: "auth_arrives demo_auth demo_key (replicate 64 0 @ demo_sign (demo_k 6) (replicate 64 0) @ demo_k 6 @ demo_k 8) [] ?w"
    by (rule demo_auth_arrives) (simp add: demo_auth_lengths)
  from rotation_moves_objects [OF ar _ _ _ demo_auth_valid v, where cfg = "demo_auth_cfg (\<lambda>_. None)" and h = "[''h'']"]
  obtain w' where w': "handle_auth_keys demo_auth (demo_auth_cfg (\<lambda>_. None)) 2 demo_key ?w = (Ok (), w')"
    "\<forall>r. fs_get (disk w') (space_path demo_auth [''h''] (demo_k 8) @ r) = fs_get demo_auth_disk (space_path demo_auth [''h''] (demo_k 6) @ r)"
    "\<forall>r. fs_get (disk w') (space_path demo_auth [''h''] (demo_k 6) @ r) = None"
    unfolding d using f by (auto simp: demo_auth_lengths demo_auth_cfg_def demo_auth_room)
  with f(9) show ?thesis by auto
qed

text \<open>
  A header shorter than a nonce and a signature is not refused: whatever it contains, the
  handler panics when it takes the header apart.
\<close>

lemma short_auth_header_panics:
  fixes w :: "'a conn_scheme"
  assumes "auth_arrives P key hb rest w" "length hb < 128" "flag = 1 \<or> flag = 2" "writable 96 w"
  shows "\<exists>w'. handle_auth_keys P cfg flag key w = (Panic ''mid > len'', w')"
proof -
  obtain r where r: "length r = 12" "inp w = sealed_frame P key r hb @ rest"
    and a: "channel_ok P key" "sha_ok P" "sealed_fits hb"
    using assms(1) by (auto simp: auth_arrives_def)
  obtain p q q' where run: "handle_auth_keys P cfg flag key w =
      (if flag = 1 then auth_new P cfg key else auth_rotate P cfg key) ((auth_state P key rest p q w)\<lparr>inp := inp w\<rparr>)"
    "read_encrypt_data_into P key ((auth_state P key rest p q w)\<lparr>inp := inp w\<rparr>) = (Ok hb, auth_state P key rest p q' w)"
    by (rule auth_header_read [OF a(1,2) r(1) a(3) r(2) assms(4), of cfg flag]) (use assms(3) in auto)
  show ?thesis
  proof (cases "length hb < 64")
    case True
    with run show ?thesis by (simp add: auth_new_def auth_rotate_def split_at_def run_simps)
  next
    case False
    with assms(2) have "\<not> length hb < 64" "length hb - 64 < 64" by simp_all
    then have "split_at 64 hb = Ok (take 64 hb, drop 64 hb)" "split_at 64 (drop 64 hb) = Panic ''mid > len''"
      by (simp_all add: split_at_def)
    with run show ?thesis by (simp add: auth_new_def auth_rotate_def run_simps)
  qed
qed

end
