(* ===== verification/Echo.thy ===== *)
theory Echo
  imports Rel
begin

text \<open>
  \<^verbatim>\<open>handle_echo_perf\<close> of \<^verbatim>\<open>src/protocol_v1.rs\<close>: read a sealed payload, answer with its length, its
  hash and the time it took, until the client says goodbye, disconnects or goes silent.
\<close>

section \<open>The loop\<close>

text \<open>\<^verbatim>\<open>match timeout(d, m).await\<close> with three arms: \<open>None\<close> is the expiry.\<close>

definition timeout_opt :: "nat \<Rightarrow> ('a conn_scheme, 'b) io \<Rightarrow> ('a conn_scheme, (string + 'b) option) io" where
  "timeout_opt d m w = (case attempt m w of (r, w') \<Rightarrow>
     if r = Pending \<or> waited w' > waited w + d then (Ok None, w'\<lparr>waited := waited w + d\<rparr>)
     else (map_res Some r, w'))"

definition echo_ends :: "string list" where
  "echo_ends = [''eof'', ''early eof'', ''unexpected eof'', ''forcibly closed'', ''connection reset'',
     ''closed by the remote'', ''connection aborted'', ''broken pipe'']"

definition echo_quits :: "bytes list" where
  "echo_quits = [[], as_bytes '' '', as_bytes ''q'', as_bytes ''quit'', as_bytes ''exit'']"

text \<open>\<^verbatim>\<open>Duration::as_millis\<close>.\<close>

definition as_millis :: "nat \<Rightarrow> u128" where
  "as_millis ns = of_nat (ns div 1000000)"

definition echo_header :: "prims \<Rightarrow> bytes \<Rightarrow> nat \<Rightarrow> EchoDebugHeader" where
  "echo_header P payload elapsed = \<lparr>eh_payload_len = of_nat (length payload),
     eh_payload_hash = sha256 P payload, eh_process_ms = as_millis elapsed\<rparr>"

text \<open>One iteration; \<open>False\<close> when the loop returns.\<close>

definition echo_turn :: "prims \<Rightarrow> bytes \<Rightarrow> ('a conn_scheme, bool) io" where
  "echo_turn P session_key =
    seq instant_now (\<lambda>server_process_ms.
    seq (timeout_opt CHUNK_TIMEOUT (read_encrypt_data_into P session_key)) (\<lambda>r. case r of
      None \<Rightarrow> ret False
    | Some (Inl e) \<Rightarrow> if list_ex (str_contains (to_lowercase e)) echo_ends then ret False else fail e
    | Some (Inr payload) \<Rightarrow>
        if payload \<in> set echo_quits then ret False
        else
          seq instant_now (\<lambda>now.
          seq (lift_res (serialize (pc_EchoDebugHeader P) (echo_header P payload (now - server_process_ms)))) (\<lambda>echo.
          seq (timeout WRITE_TIMEOUT deadline_elapsed (write_encrypt_frame_into P echo session_key)) (\<lambda>_.
          ret True)))))"

text \<open>Every iteration that goes on has consumed a frame, so the loop ends.\<close>

interpretation used: run_rel "\<lambda>w w'. length (inp w') \<le> length (inp w)"
  by unfold_locales auto

lemma used_timeout:
  "steps (\<lambda>w w'. length (inp w') \<le> length (inp w)) m \<Longrightarrow>
   steps (\<lambda>w w'. length (inp w') \<le> length (inp w)) (timeout d msg m)"
  by (rule stepsI) (auto simp: timeout_def split: prod.splits if_splits dest: stepsD)

lemma used_conn:
  "steps (\<lambda>w w'. length (inp w') \<le> length (inp w)) (read_exact n)"
  "steps (\<lambda>w w'. length (inp w') \<le> length (inp w)) (push_out d)"
  "steps (\<lambda>w w'. length (inp w') \<le> length (inp w)) flush"
  "steps (\<lambda>w w'. length (inp w') \<le> length (inp w)) (fill_bytes n)"
  "steps (\<lambda>w w'. length (inp w') \<le> length (inp w)) instant_now"
  "steps (\<lambda>w w'. length (inp w') \<le> length (inp w)) (ensure_pool n)"
  "(\<And>w. inp (g w) = inp w) \<Longrightarrow> steps (\<lambda>w w'. length (inp w') \<le> length (inp w)) (upd_state g)"
  by (auto simp: steps_def read_exact_def push_out_def flush_def fill_bytes_def instant_now_def
      ensure_pool_def upd_state_def split: if_splits prod.splits)

lemma used_write: "steps (\<lambda>w w'. length (inp w') \<le> length (inp w)) (write_encrypt_frame_into P d key)"
  by (auto simp: write_encrypt_frame_into_def write_all_def Let_def intro!: used.steps_rules used_conn)

lemma read_frame_length_uses: "read_frame_length w = (Ok n, w') \<Longrightarrow> length (inp w') + 4 \<le> length (inp w)"
  by (auto simp: read_frame_length_def Let_def fail_def ret_def elim!: seq_OkE
      dest!: timeout_OkD wrap_err_OkD read_exact_OkD split: if_splits)

lemma seq_uses:
  assumes "seq m f w = (Ok b, w')" "\<And>a. steps (\<lambda>w w'. length (inp w') \<le> length (inp w)) (f a)"
    "\<And>a w1. m w = (Ok a, w1) \<Longrightarrow> length (inp w1) + n \<le> length (inp w)"
  shows "length (inp w') + n \<le> length (inp w)"
proof -
  obtain a w1 where a: "m w = (Ok a, w1)" "f a w1 = (Ok b, w')" using assms(1) by (rule seq_OkE)
  have "length (inp w') \<le> length (inp w1)" by (rule stepsD [OF assms(2) a(2)])
  with assms(3) [OF a(1)] show ?thesis by simp
qed

lemma read_encrypt_uses: "read_encrypt_data_into P key w = (Ok m, w') \<Longrightarrow> length (inp w') + 4 \<le> length (inp w)"
  unfolding read_encrypt_data_into_def
  by (erule seq_uses) (auto simp: Let_def intro!: used.steps_rules used_conn intro: read_frame_length_uses)

lemma timeout_opt_Inr: "timeout_opt d m w = (Ok (Some (Inr a)), w') \<Longrightarrow> m w = (Ok a, w')"
  by (auto simp: timeout_opt_def attempt_def split: prod.splits res.splits if_splits)

lemma echo_turn_uses:
  assumes "echo_turn P key w = (Ok True, w')"
  shows "length (inp w') < length (inp w)"
proof -
  let ?w = "w\<lparr>clock := (\<lambda>i. clock w (Suc i))\<rparr>"
  obtain p w1 now b w2 where p: "timeout_opt CHUNK_TIMEOUT (read_encrypt_data_into P key) ?w = (Ok (Some (Inr p)), w1)"
    and n: "instant_now w1 = (Ok now, w2)"
    and t: "timeout WRITE_TIMEOUT deadline_elapsed (write_encrypt_frame_into P b key) w2 = (Ok (), w')"
    using assms unfolding echo_turn_def
    by (auto simp: instant_now_def ret_def fail_def lift_res_def elim!: seq_OkE split: option.splits sum.splits if_splits)
  have "length (inp w') \<le> length (inp w2)" by (rule stepsD [OF used_timeout [OF used_write] t])
  also have "inp w2 = inp w1" using n by (auto simp: instant_now_def)
  also have "length (inp w1) + 4 \<le> length (inp ?w)" by (rule read_encrypt_uses [OF timeout_opt_Inr [OF p]])
  finally show ?thesis by simp
qed

function handle_echo_perf :: "prims \<Rightarrow> bytes \<Rightarrow> ('a conn_scheme, unit) io" where
  "handle_echo_perf P session_key w = (case echo_turn P session_key w of
     (Ok True, w') \<Rightarrow> handle_echo_perf P session_key w'
   | (Ok False, w') \<Rightarrow> (Ok (), w')
   | (Err e, w') \<Rightarrow> (Err e, w') | (Panic p, w') \<Rightarrow> (Panic p, w') | (Pending, w') \<Rightarrow> (Pending, w'))"
  by pat_completeness auto

termination
  by (relation "measure (\<lambda>(P, k, w). length (inp w))") (simp_all add: echo_turn_uses)

declare handle_echo_perf.simps [simp del]

section \<open>The loop always comes back\<close>

lemma timeout_opt_never_pending: "fst (timeout_opt d m w) \<noteq> Pending"
  by (auto simp: timeout_opt_def attempt_def split: prod.split res.split)

text \<open>A computation that always returns.\<close>

definition returns :: "('s, 'b) io \<Rightarrow> bool" where
  "returns m \<longleftrightarrow> (\<forall>w. fst (m w) \<noteq> Pending)"

lemma returns_timeout: "returns (timeout d msg m)" "returns (timeout_opt d m)"
  by (simp_all add: returns_def timeout_never_pending timeout_opt_never_pending)

lemma returns_rules:
  "returns (ret a)" "returns (fail e)" "returns instant_now" "r \<noteq> Pending \<Longrightarrow> returns (lift_res r)"
  "returns m \<Longrightarrow> returns n \<Longrightarrow> returns (if b then m else n)"
  "(\<And>e. returns (g e)) \<Longrightarrow> (\<And>a. returns (h a)) \<Longrightarrow> returns (case x of Inl e \<Rightarrow> g e | Inr a \<Rightarrow> h a)"
  "returns m \<Longrightarrow> (\<And>y. returns (k y)) \<Longrightarrow> returns (case z of None \<Rightarrow> m | Some y \<Rightarrow> k y)"
  by (auto simp: returns_def ret_def fail_def instant_now_def lift_res_def split: sum.split option.split)

lemma returnsD: "returns m \<Longrightarrow> fst (m w) \<noteq> Pending"
  by (simp add: returns_def)

lemma returns_seq:
  assumes "returns m" "\<And>a. returns (f a)"
  shows "returns (seq m f)"
proof -
  have "m w \<noteq> (Pending, w')" for w w' using assms(1) by (metis fst_conv returns_def)
  with assms(2) show ?thesis by (auto simp: returns_def seq_def split: prod.split res.split)
qed

lemma serialize_returns: "serialize c x \<noteq> Pending"
  by (simp add: serialize_def split: sum.split)

lemma echo_turn_returns: "returns (echo_turn P key)"
  unfolding echo_turn_def by (intro returns_rules returns_seq returns_timeout serialize_returns)


section \<open>What it answers\<close>

lemma echo_read:
  assumes "channel_ok P key" "sealed_fits m" "length r = 12" "inp w = sealed_frame P key r m @ rest"
  obtains q where "timeout_opt d (read_encrypt_data_into P key) w = (Ok (Some (Inr m)), w\<lparr>inp := rest, pool := q\<rparr>)"
proof -
  obtain q where "read_encrypt_data_into P key w = (Ok m, w\<lparr>inp := rest, pool := q\<rparr>)"
    using read_encrypt_ok assms unfolding channel_ok_def by blast
  then show thesis by (intro that [of q]) (simp add: timeout_opt_def attempt_Ok)
qed

text \<open>An answer that can be sent, within \<open>n\<close> bytes.\<close>

definition echo_fits :: "prims \<Rightarrow> nat \<Rightarrow> bytes \<Rightarrow> bool" where
  "echo_fits P n p \<longleftrightarrow> p \<notin> set echo_quits \<and> sealed_fits p \<and>
     (\<forall>t. serialize (pc_EchoDebugHeader P) (echo_header P p t) = Ok (encoding (pc_EchoDebugHeader P) (echo_header P p t)) \<and>
          sealed_fits (encoding (pc_EchoDebugHeader P) (echo_header P p t)) \<and>
          length (encoding (pc_EchoDebugHeader P) (echo_header P p t)) \<le> n)"

lemma echo_turn_answers:
  assumes "channel_ok P key" "echo_fits P n p" "length r = 12" "inp w = sealed_frame P key r p @ rest" "writable (32 + n) w"
  obtains w' t where "echo_turn P key w = (Ok True, w')" "inp w' = rest"
    "wire w' = wire w @ sealed_frame P key (next_nonce w) (encoding (pc_EchoDebugHeader P) (echo_header P p t))"
    "\<forall>k. writable (32 + n + k) w \<longrightarrow> writable k w'" "t = clock w 1 - clock w 0"
proof -
  let ?w = "w\<lparr>clock := (\<lambda>i. clock w (Suc i))\<rparr>" and ?t = "clock w 1 - clock w 0"
  let ?e = "encoding (pc_EchoDebugHeader P) (echo_header P p ?t)"
  have e: "sealed_fits p" "p \<notin> set echo_quits" "serialize (pc_EchoDebugHeader P) (echo_header P p ?t) = Ok ?e" "sealed_fits ?e" "length ?e \<le> n"
    using assms(2) by (simp_all add: echo_fits_def)
  obtain q where q: "timeout_opt CHUNK_TIMEOUT (read_encrypt_data_into P key) ?w = (Ok (Some (Inr p)), ?w\<lparr>inp := rest, pool := q\<rparr>)"
    by (rule echo_read [OF assms(1) e(1) assms(3), of ?w rest]) (simp_all add: assms(4))
  let ?w2 = "w\<lparr>inp := rest, pool := q, clock := (\<lambda>i. clock w (Suc (Suc i)))\<rparr>"
  have "writable (32 + length ?e) ?w2" using assms(5) e(5) by (simp add: writable_def)
  then obtain p' where f: "timeout WRITE_TIMEOUT deadline_elapsed (write_encrypt_frame_into P ?e key) ?w2 = (Ok (), after_frame P key ?e p' ?w2)"
    by (rule write_frame_timeout [OF assms(1) e(4)])
  have "echo_turn P key w = (Ok True, after_frame P key ?e p' ?w2)"
    using q f e(2,3) by (simp add: echo_turn_def instant_now_def seq_def lift_res_def ret_def)
  then show thesis
    using e(5) by (intro that [of "after_frame P key ?e p' ?w2" ?t]) (auto simp: wire_def next_nonce_def writable_def)
qed

text \<open>
  C22. A client that sends payloads and then a closing word gets one answer for each payload, in
  order, with its length and the SHA-256 hash of exactly the bytes it sent; the loop then returns
  and has consumed exactly these frames.
\<close>

theorem echo_answers:
  assumes "channel_ok P key" "\<forall>p \<in> set ps. echo_fits P n p" "length rs = length ps" "\<forall>r \<in> set rs. length r = 12"
    "bye \<in> set echo_quits" "length br = 12" "writable (length ps * (32 + n)) w"
    "inp w = concat (map2 (sealed_frame P key) rs ps) @ sealed_frame P key br bye @ rest"
  shows "\<exists>w' ts ns. handle_echo_perf P key w = (Ok (), w') \<and> inp w' = rest \<and> length ts = length ps \<and> length ns = length ps \<and>
    wire w' = wire w @ concat (map2 (sealed_frame P key) ns
      (map2 (\<lambda>p t. encoding (pc_EchoDebugHeader P) (echo_header P p t)) ps ts))"
  using assms(2,3,4,7,8)
proof (induction ps arbitrary: rs w)
  case Nil
  have fit: "sealed_fits bye" using assms(5) by (auto simp: echo_quits_def sealed_fits_def)
  obtain q where "timeout_opt CHUNK_TIMEOUT (read_encrypt_data_into P key) (w\<lparr>clock := (\<lambda>i. clock w (Suc i))\<rparr>) =
      (Ok (Some (Inr bye)), w\<lparr>clock := (\<lambda>i. clock w (Suc i)), inp := rest, pool := q\<rparr>)"
    by (rule echo_read [OF assms(1) fit assms(6), of "w\<lparr>clock := (\<lambda>i. clock w (Suc i))\<rparr>" rest])
       (use Nil.prems in simp_all)
  then have "echo_turn P key w = (Ok False, w\<lparr>clock := (\<lambda>i. clock w (Suc i)), inp := rest, pool := q\<rparr>)"
    using assms(5) by (simp add: echo_turn_def instant_now_def seq_def ret_def)
  then have "handle_echo_perf P key w = (Ok (), w\<lparr>clock := (\<lambda>i. clock w (Suc i)), inp := rest, pool := q\<rparr>)"
    by (subst handle_echo_perf.simps) simp
  then show ?case by (intro exI [of _ "w\<lparr>clock := (\<lambda>i. clock w (Suc i)), inp := rest, pool := q\<rparr>"] exI [of _ "[]"]) (simp add: wire_def)
next
  case (Cons p ps)
  obtain r rs' where rs: "rs = r # rs'" using Cons.prems(2) by (cases rs) auto
  let ?rest = "concat (map2 (sealed_frame P key) rs' ps) @ sealed_frame P key br bye @ rest"
  have "echo_fits P n p" "length r = 12" "inp w = sealed_frame P key r p @ ?rest" "writable (32 + n) w"
    using Cons.prems rs by (simp_all add: writable_def)
  then obtain w1 t where w1: "echo_turn P key w = (Ok True, w1)" "inp w1 = ?rest"
    "wire w1 = wire w @ sealed_frame P key (next_nonce w) (encoding (pc_EchoDebugHeader P) (echo_header P p t))"
    "\<forall>k. writable (32 + n + k) w \<longrightarrow> writable k w1" "t = clock w 1 - clock w 0"
    by (rule echo_turn_answers [OF assms(1)])
  have "writable (length ps * (32 + n)) w1" using w1(4) Cons.prems(4) by (simp add: algebra_simps)
  with Cons.IH [of rs' w1] Cons.prems rs w1(2) obtain w' ts ns where ih:
    "handle_echo_perf P key w1 = (Ok (), w')" "inp w' = rest" "length ts = length ps" "length ns = length ps"
    "wire w' = wire w1 @ concat (map2 (sealed_frame P key) ns (map2 (\<lambda>p t. encoding (pc_EchoDebugHeader P) (echo_header P p t)) ps ts))"
    by auto
  have "handle_echo_perf P key w = (Ok (), w')"
    using w1(1) ih(1) by (subst handle_echo_perf.simps) simp
  with ih w1(3) show ?case
    by (intro exI [of _ w'] exI [of _ "t # ts"] exI [of _ "next_nonce w # ns"]) simp
qed

definition demo_echo :: prims where
  "demo_echo = demo\<lparr>pc_EchoDebugHeader := \<lparr>to_allocvec = (\<lambda>h. Inr [ucast (eh_payload_len h)]), from_bytes = (\<lambda>b. Inl [])\<rparr>\<rparr>"

definition demo_echo_conn :: conn where
  "demo_echo_conn = \<lparr>inp = sealed_frame demo_echo (replicate 32 1) (replicate 12 0) [7, 8] @
       sealed_frame demo_echo (replicate 32 1) (replicate 12 0) (as_bytes ''q''), inp_end = Closed,
     out_buf = [], out_sent = [], out_room = 1000, out_end = Closed, out_shut = False, pool = [], rng = (\<lambda>_. 2),
     clock = (\<lambda>i. i), waited = 0, disk = []\<rparr>"

theorem echo_answers_witness:
  "\<exists>w' r. handle_echo_perf demo_echo (replicate 32 1) demo_echo_conn = (Ok (), w') \<and> inp w' = [] \<and>
     wire w' = sealed_frame demo_echo (replicate 32 1) r [2]"
proof -
  have "channel_ok demo_echo (replicate 32 1)" by (simp add: channel_ok_def demo_echo_def demo_laws)
  moreover have "\<forall>p \<in> set [[7, 8]]. echo_fits demo_echo 1 p"
    by (simp add: echo_fits_def echo_quits_def as_bytes_def sealed_fits_def serialize_def encoding_def demo_echo_def)
  ultimately show ?thesis
    using echo_answers [of demo_echo "replicate 32 1" "[[7, 8]]" 1 "[replicate 12 0]" "as_bytes ''q''" "replicate 12 0" demo_echo_conn "[]"]
    by (auto simp: demo_echo_conn_def echo_quits_def writable_def wire_def length_Suc_conv demo_echo_def encoding_def echo_header_def)
qed

end
