(* ===== verification/Server.thy ===== *)
theory Server
  imports Upload Download AuthKeys Echo
begin

text \<open>
  \<^verbatim>\<open>send_status\<close> and \<^verbatim>\<open>handle_connection\<close> of \<^verbatim>\<open>src/protocol_v1.rs\<close>: one connection from the
  handshake to the handler of the one command it carries.
\<close>

section \<open>Status\<close>

text \<open>\<^verbatim>\<open>signed_duration_since\<close> and \<^verbatim>\<open>num_hours\<close> of \<^verbatim>\<open>chrono\<close>: both divisions truncate.\<close>

definition trunc_div :: "int \<Rightarrow> int \<Rightarrow> int" where
  "trunc_div a b = sgn a * (\<bar>a\<bar> div b)"

definition num_hours :: "int \<Rightarrow> int" where
  "num_hours ns = trunc_div (trunc_div ns 1000000000) 3600"

definition wall_now :: "('a server_state_scheme, int) io" where
  "wall_now w = (Ok (sv_wall w 0), w\<lparr>sv_wall := (\<lambda>i. sv_wall w (Suc i))\<rparr>)"

definition try_get_uptime_hrs :: "config \<Rightarrow> ('a server_state_scheme, rat) io" where
  "try_get_uptime_hrs cfg = (case cfg_start cfg of
     Some start_time \<Rightarrow> seq wall_now (\<lambda>now. ret (cfg_rnd cfg (of_int (num_hours (now - start_time)))))
   | None \<Rightarrow> ret 0)"

text \<open>The cast of an \<^verbatim>\<open>f64\<close> to a \<^verbatim>\<open>u64\<close>: truncation, saturating at both ends.\<close>

definition f64_as_u64 :: "rat \<Rightarrow> u64" where
  "f64_as_u64 x = of_nat (min (2 ^ 64 - 1) (nat \<lfloor>x\<rfloor>))"

definition send_status :: "prims \<Rightarrow> config \<Rightarrow> bytes \<Rightarrow> ('a server_state_scheme, unit) io" where
  "send_status P cfg session_key =
    seq (try_get_uptime_hrs cfg) (\<lambda>uptime_hrs.
    seq (get_state sv_tracker) (\<lambda>lock.
    seq (lift_res (get_storage_dir (cfg_home cfg))) (\<lambda>user_storage_path.
    seq (fs_query (read_subdirs user_storage_path)) (\<lambda>dirs.
    seq wall_now (\<lambda>now.
    seq (lift_res (serialize (pc_StatusHeader P)
           \<lparr>st_timestamp = cfg_rfc3339 cfg now, st_uptime_hrs = uptime_hrs, st_auth_client = of_nat (length dirs),
            st_total_uploaded = total_uploaded lock, st_total_downloaded = total_download lock,
            st_total_bandwidth_used = f64_as_u64 (total_bandwidth_gb lock)\<rparr>)) (\<lambda>status.
    seq (timeout WRITE_TIMEOUT deadline_elapsed (write_encrypt_frame_into P status session_key)) (\<lambda>_.
    shutdown)))))))"

section \<open>One command\<close>

definition command_cost :: "Command \<Rightarrow> rat" where
  "command_cost command = (case command of
     Status \<Rightarrow> 1 | Auth _ \<Rightarrow> 2 | Command.Upload _ \<Rightarrow> 5 | Command.Download _ \<Rightarrow> 5 | Command.Echo \<Rightarrow> 3 / 2)"

text \<open>
  \<^verbatim>\<open>RATE_LIMITER.is_allowed_cost(ip, cost)\<close>: the clock is read when a missing bucket is made and
  again when the bucket is refilled.
\<close>

definition limiter_allows :: "config \<Rightarrow> ip_addr \<Rightarrow> rat \<Rightarrow> ('a server_state_scheme, bool) io" where
  "limiter_allows cfg ip cost =
    seq (get_state (\<lambda>w. rl_buckets (sv_limiter w) ip = None)) (\<lambda>fresh.
    seq (if fresh then instant_now else ret 0) (\<lambda>created.
    seq instant_now (\<lambda>now w.
      case is_allowed_cost (cfg_rnd cfg) created now ip cost (sv_limiter w) of
        (ok, rl) \<Rightarrow> (Ok ok, w\<lparr>sv_limiter := rl\<rparr>))))"

definition run_command :: "prims \<Rightarrow> config \<Rightarrow> nat \<Rightarrow> bytes \<Rightarrow> bytes \<Rightarrow> Command \<Rightarrow> ('a server_state_scheme, unit) io" where
  "run_command P cfg network_time session_key client_key command = (case command of
     Command.Echo \<Rightarrow>
       if ENABLE_ECHO (cfg_env cfg) then seq (handle_echo_perf P session_key) (\<lambda>_. flush)
       else seq (reply_failed P 403 ''ECHO command is disabled on this server'' session_key) (\<lambda>_. flush)
   | Auth flags \<Rightarrow> seq (handle_auth_keys P cfg flags session_key) (\<lambda>_. flush)
   | Command.Upload header \<Rightarrow>
       seq (attempt (lift_res (UploadHeader_validate (MAX_FILE_SIZE_GB (cfg_env cfg)) header))) (\<lambda>r.
       seq (case r of
              Inr _ \<Rightarrow> handle_upload P cfg header network_time session_key client_key
            | Inl e \<Rightarrow> reply_failed P 400 (''Invalid upload header: '' @ e) session_key) (\<lambda>_.
       flush))
   | Command.Download header \<Rightarrow>
       seq (attempt (lift_res (DownloadHeader_validate header))) (\<lambda>r.
       seq (case r of
              Inr _ \<Rightarrow> handle_download P cfg header network_time session_key client_key
            | Inl e \<Rightarrow> reply_failed P 400 (''Invalid download header: '' @ e) session_key) (\<lambda>_.
       flush))
   | Status \<Rightarrow> send_status P cfg session_key)"

definition serve_command :: "prims \<Rightarrow> config \<Rightarrow> ip_addr option \<Rightarrow> nat \<Rightarrow> bytes \<Rightarrow> bytes \<Rightarrow> Command \<Rightarrow> ('a server_state_scheme, unit) io" where
  "serve_command P cfg client_ip network_time session_key client_key command =
    seq (case client_ip of None \<Rightarrow> ret True | Some ip \<Rightarrow> limiter_allows cfg ip (command_cost command)) (\<lambda>allowed.
    if \<not> allowed then seq (reply_failed P 429 ''Rate limit exceeded, try again later'' session_key) (\<lambda>_. flush)
    else run_command P cfg network_time session_key client_key command)"

section \<open>One connection\<close>

definition POOL_SIZE :: nat where
  "POOL_SIZE = 14 * 1024 * 1024"

definition header_error :: "prims \<Rightarrow> bytes \<Rightarrow> string \<Rightarrow> ('a conn_scheme, unit) io" where
  "header_error P session_key e =
    (if str_contains e ''Timeout'' then
       seq (attempt (reply_failed P 408 ''Request timed out'' session_key)) (\<lambda>_. ret ())
     else if list_ex (str_contains (to_lowercase e)) [''eof'', ''early eof'', ''unexpected eof''] then ret ()
     else fail e)"

text \<open>\<open>client_ip\<close> is the peer's address where the socket has one; socket options are left out.\<close>

definition handle_connection :: "prims \<Rightarrow> config \<Rightarrow> ip_addr option \<Rightarrow> ('a server_state_scheme, unit) io" where
  "handle_connection P cfg client_ip =
    seq instant_now (\<lambda>network_time.
    seq (wrap_err (\<lambda>e. ''Handshake failed: '' @ e) (server_handshake P (cfg_pri_key cfg) (cfg_pub_key cfg))) (\<lambda>(shared_key, client_key).
    let session_key = salt_session_key P shared_key in
    seq (upd_state (\<lambda>w. w\<lparr>pool := resize POOL_SIZE []\<rparr>)) (\<lambda>_.
    seq (attempt (read_headers P session_key)) (\<lambda>r. case r of
      Inl e \<Rightarrow> header_error P session_key e
    | Inr command \<Rightarrow> serve_command P cfg client_ip network_time session_key client_key command))))"

section \<open>What a connection may change\<close>

text \<open>What is stored outside \<open>A\<close> stays as it is.\<close>

definition keeps :: "path set \<Rightarrow> fs \<Rightarrow> fs \<Rightarrow> bool" where
  "keeps A f f' \<longleftrightarrow> (\<forall>q n. q \<notin> A \<longrightarrow> fs_get f q = Some n \<longrightarrow> fs_get f' q = Some n)"

interpretation kp: io_rel "\<lambda>w w'. keeps A (disk w) (disk w')" for A
  by unfold_locales (auto simp: keeps_def)

lemma keeps_only_changes: "only_changes dir A f f' \<Longrightarrow> keeps A f f'"
  unfolding only_changes_def keeps_def by (metis option.distinct(1))

lemma keeps_mono: "A \<subseteq> B \<Longrightarrow> keeps A f f' \<Longrightarrow> keeps B f f'"
  by (auto simp: keeps_def)

lemma keeps_create: "create_dir_all p f = Ok f' \<Longrightarrow> keeps A f f'"
  by (auto simp: keeps_def create_dir_all_get)

lemma keeps_rename: "fs_rename a b f = Ok f' \<Longrightarrow> {q. prefix a q \<or> prefix b q} \<subseteq> A \<Longrightarrow> keeps A f f'"
  using fs_rename_outside by (fastforce simp: keeps_def)

lemma steps_keeps_fs:
  "(\<And>f f'. g f = Ok f' \<Longrightarrow> keeps A f f') \<Longrightarrow> steps (\<lambda>w w'. keeps A (disk w) (disk w')) (fs_do g)"
  by (rule kp.steps_fs_do) simp

text \<open>The directories of one client key: where it is registered and where its objects are.\<close>

definition key_space :: "prims \<Rightarrow> config \<Rightarrow> bytes \<Rightarrow> path set" where
  "key_space P cfg k = {q. \<exists>d. get_authorized_client_dir (cfg_home cfg) = Ok d \<and> prefix (path_join d (key_dir_name P k)) q} \<union>
     {q. \<exists>d. get_storage_dir (cfg_home cfg) = Ok d \<and> prefix (path_join d (storage_dir_name P k)) q}"

lemmas kp_steps = kp.steps_rules kp.steps_io kp.steps_timeout kp.steps_fs_query

lemma kp_lift:
  "(\<And>a. r = Ok a \<Longrightarrow> steps (\<lambda>w w'. keeps A (disk w) (disk w')) (f a)) \<Longrightarrow>
   steps (\<lambda>w w'. keeps A (disk w) (disk w')) (seq (lift_res r) f)"
  by (cases r) (simp_all add: steps_def seq_def lift_res_def keeps_def)

lemma register_keeps: "steps (\<lambda>w w'. keeps A (disk w) (disk w')) (register_client P cfg key k)"
  unfolding register_client_def Let_def reply_failed_def
  by (intro kp_steps steps_keeps_fs; (erule keeps_create)?)

lemma rotate_keeps:
  assumes "\<And>x. ed_verifying_key P k = Inr x \<Longrightarrow> x = new"
  shows "steps (\<lambda>w w'. keeps (key_space P cfg old \<union> key_space P cfg new) (disk w) (disk w')) (rotate_client P cfg key old k)"
  unfolding rotate_client_def Let_def reply_failed_def
  by (rule kp_lift, rule kp_lift, rule kp_lift, intro kp_steps steps_keeps_fs; (erule keeps_rename)?)
     (use assms in \<open>auto simp: key_space_def elim: of_sum_OkE\<close>)

text \<open>A key that some signature the server has been shown verifies under.\<close>

definition proven_key :: "prims \<Rightarrow> bytes \<Rightarrow> bool" where
  "proven_key P k \<longleftrightarrow> (\<exists>x s n. validate_signature P x s n = Ok k)"

text \<open>Registration keeps all there is; a rotation keeps all but the directories of the two keys.\<close>

definition auth_scope :: "prims \<Rightarrow> config \<Rightarrow> u8 \<Rightarrow> path \<Rightarrow> bool" where
  "auth_scope P cfg flag q \<longleftrightarrow> flag = 2 \<and> (\<exists>old new. proven_key P old \<and> q \<in> key_space P cfg old \<union> key_space P cfg new)"

lemma steps_keeps_mono:
  "A \<subseteq> B \<Longrightarrow> steps (\<lambda>w w'. keeps A (disk w) (disk w')) m \<Longrightarrow> steps (\<lambda>w w'. keeps B (disk w) (disk w')) m"
  by (auto simp: steps_def intro: keeps_mono)

lemma auth_new_keeps: "steps (\<lambda>w w'. keeps A (disk w) (disk w')) (auth_new P cfg key)"
  unfolding auth_new_def reply_failed_def by (intro kp_steps register_keeps)

lemma kp_match:
  "(\<And>e. steps (\<lambda>w w'. keeps A (disk w) (disk w')) (f e)) \<Longrightarrow>
   (\<And>a. r = Ok a \<Longrightarrow> steps (\<lambda>w w'. keeps A (disk w) (disk w')) (g a)) \<Longrightarrow>
   steps (\<lambda>w w'. keeps A (disk w) (disk w')) (seq (attempt (lift_res r)) (\<lambda>x. case x of Inl e \<Rightarrow> f e | Inr a \<Rightarrow> g a))"
  by (cases r) (simp_all add: steps_def seq_def attempt_def lift_res_def keeps_def)

lemma auth_rotate_keeps: "steps (\<lambda>w w'. keeps {q. auth_scope P cfg 2 q} (disk w) (disk w')) (auth_rotate P cfg key)"
proof -
  have r: "steps (\<lambda>w w'. keeps {q. auth_scope P cfg 2 q} (disk w) (disk w')) (rotate_client P cfg key k x)"
    if "validate_signature P old s n = Ok k" for old s n k x
  proof -
    obtain new where new: "\<And>y. ed_verifying_key P x = Inr y \<Longrightarrow> y = new" by (cases "ed_verifying_key P x") auto
    have "key_space P cfg k \<union> key_space P cfg new \<subseteq> {q. auth_scope P cfg 2 q}"
      using that by (auto simp: auth_scope_def proven_key_def)
    then show ?thesis by (rule steps_keeps_mono) (rule rotate_keeps, rule new)
  qed
  have v: "steps (\<lambda>w w'. keeps {q. auth_scope P cfg 2 q} (disk w) (disk w'))
      (seq (attempt (lift_res (validate_signature P old s n))) (\<lambda>r. case r of
         Inr k \<Rightarrow> rotate_client P cfg key k x | Inl e \<Rightarrow> reply_failed P 401 (''Invalid signature: '' @ e) key))" for old s n x
    by (rule kp_match) (simp_all only: reply_failed_def kp.steps_responses r)
  show ?thesis
    unfolding auth_rotate_def by (rule v kp.steps_seq kp.steps_pair kp.steps_pure kp.steps_frames)+
qed

lemma handle_auth_keeps: "steps (\<lambda>w w'. keeps {q. auth_scope P cfg flag q} (disk w) (disk w')) (handle_auth_keys P cfg flag key)"
  unfolding handle_auth_keys_def Let_def reply_failed_def
  by (cases "flag = 2") (auto intro!: kp_steps auth_new_keeps auth_rotate_keeps)

lemma echo_reads: "steps (\<lambda>w w'. disk w' = disk w) (handle_echo_perf P key)"
proof (rule stepsI)
  have o: "steps (\<lambda>w w'. disk w' = disk w) (timeout_opt d m)" if "steps (\<lambda>w w'. disk w' = disk w) m" for d m
    by (rule stepsI) (auto simp: timeout_opt_def attempt_def split: prod.splits res.splits if_splits dest: stepsD [OF that])
  have t: "steps (\<lambda>w w'. disk w' = disk w) (echo_turn P key)" for P key
    unfolding echo_turn_def
    by (intro rd.steps_rules rd.steps_io rd.steps_timeout run_rel_option [OF rd.run_rel_axioms] o)
  show "disk w' = disk w" if "handle_echo_perf P key w = (r, w')" for w r w'
    using that
  proof (induction P key w rule: handle_echo_perf.induct)
    case (1 P key w)
    obtain x u where x: "echo_turn P key w = (x, u)" by force
    from stepsD [OF t x] "1" x show ?case
      by (subst (asm) (2) handle_echo_perf.simps) (auto split: res.splits bool.splits)
  qed
qed

text \<open>Where a command may change what is stored.\<close>

definition command_scope :: "prims \<Rightarrow> config \<Rightarrow> bytes \<Rightarrow> Command \<Rightarrow> path set" where
  "command_scope P cfg ck command = (case command of
     Command.Upload h \<Rightarrow> if UploadHeader_validate (MAX_FILE_SIZE_GB (cfg_env cfg)) h = Ok () then upload_scope P cfg ck h else {}
   | Auth flag \<Rightarrow> {q. auth_scope P cfg flag q}
   | _ \<Rightarrow> {})"

lemma reads_keeps: "steps (\<lambda>w w'. disk w' = disk w) m \<Longrightarrow> steps (\<lambda>w w'. keeps A (disk w) (disk w')) m"
  by (simp add: steps_def keeps_def)

lemma seq_attempt_lift: "seq (attempt (lift_res (Ok a))) f = f (Inr a)" "seq (attempt (lift_res (Err e))) f = f (Inl e)"
  by (simp_all add: fun_eq_iff seq_def attempt_def lift_res_def)

lemma run_command_keeps:
  "steps (\<lambda>w w'. keeps (command_scope P cfg ck command) (disk w) (disk w')) (run_command P cfg ts key ck command)"
proof -
  have up: "steps (\<lambda>w w'. keeps (upload_scope P cfg ck h) (disk w) (disk w')) (handle_upload P cfg h ts key ck)" for h
    using handle_upload_scope [of P cfg ck h ts key] unfolding steps_def by (blast intro: keeps_only_changes)
  have dn: "steps (\<lambda>w w'. keeps A (disk w) (disk w')) (handle_download P cfg h ts key ck)" for A h
    by (rule reads_keeps [OF handle_download_reads])
  have st: "steps (\<lambda>w w'. keeps A (disk w) (disk w')) (send_status P cfg key)" for A
  proof -
    have "steps (\<lambda>w w'. keeps A (disk w) (disk w')) wall_now" by (simp add: steps_def wall_now_def keeps_def)
    then show ?thesis
      unfolding send_status_def try_get_uptime_hrs_def by (intro kp_steps run_rel_option [OF kp.run_rel_axioms])
  qed
  show ?thesis
  proof (cases command)
    case (Upload h)
    from validate_cases [of "MAX_FILE_SIZE_GB (cfg_env cfg)" h] Upload show ?thesis
      by (elim disjE exE; simp add: run_command_def command_scope_def reply_failed_def seq_attempt_lift; intro kp_steps up)
  qed (auto simp: run_command_def command_scope_def reply_failed_def
        intro!: kp_steps handle_auth_keeps reads_keeps [OF echo_reads] dn st)
qed

lemma handshake_reads: "steps (\<lambda>w w'. disk w' = disk w) (server_handshake P pri pub)"
  unfolding server_handshake_def Let_def
  by (intro rd.steps_rules rd.steps_io rd.steps_timeout)

lemma limiter_reads: "steps (\<lambda>w w'. keeps A (disk w) (disk w')) (limiter_allows cfg ip cost)"
proof -
  have "steps (\<lambda>w w'. keeps A (disk w) (disk w')) (\<lambda>w :: 'a server_state_scheme.
      case is_allowed_cost (cfg_rnd cfg) t0 t ip cost (sv_limiter w) of (ok, rl) \<Rightarrow> (Ok ok, w\<lparr>sv_limiter := rl\<rparr>))" for t0 t
    by (auto simp: steps_def keeps_def split: prod.splits)
  then show ?thesis
    unfolding limiter_allows_def by (intro kp_steps)
qed

lemma serve_command_keeps:
  "steps (\<lambda>w w'. keeps (command_scope P cfg ck command) (disk w) (disk w')) (serve_command P cfg ip ts key ck command)"
  unfolding serve_command_def reply_failed_def
  by (intro kp_steps run_rel_option [OF kp.run_rel_axioms] limiter_reads run_command_keeps)

text \<open>
  The connection opens: the client's hello and its signed challenge arrive, then its sealed command,
  then \<open>rest\<close>.
\<close>

definition session_key_of :: "prims \<Rightarrow> ClientHello \<Rightarrow> 'a conn_scheme \<Rightarrow> bytes" where
  "session_key_of P ch w = salt_session_key P (x_dh P (take_rng 32 (rng w)) (ch_x22519_key ch))"

definition connection_opens :: "prims \<Rightarrow> config \<Rightarrow> ClientHello \<Rightarrow> bytes \<Rightarrow> bytes \<Rightarrow> bytes \<Rightarrow> Command \<Rightarrow> bytes \<Rightarrow> 'a conn_scheme \<Rightarrow> bool" where
  "connection_opens P cfg ch sig ck nonce command rest w \<longleftrightarrow>
     aead_ok P \<and> sha_ok P \<and> ed_verifying_key P (cfg_pub_key cfg) = Inr (cfg_pub_key cfg) \<and>
     carried (pc_ClientHello P) ch \<and> carried (pc_ServerHello P) (server_hello_of P (cfg_pri_key cfg) (cfg_pub_key cfg) ch (rng w)) \<and>
     length sig = 64 \<and> ed_signature P sig = Inr sig \<and> length ck = 32 \<and> ed_verifying_key P ck = Inr ck \<and>
     ed_verify P ck (challenge_of P (rng w)) sig = Inr () \<and>
     roundtrips (pc_Command P) command \<and> sealed_fits (encoding (pc_Command P) command) \<and> length nonce = 12 \<and>
     writable (72 + length (encoding (pc_ServerHello P) (server_hello_of P (cfg_pri_key cfg) (cfg_pub_key cfg) ch (rng w)))) w \<and>
     inp w = raw_frame (encoding (pc_ClientHello P) ch) @ raw_frame (sig @ ck) @
       sealed_frame P (session_key_of P ch w) nonce (encoding (pc_Command P) command) @ rest"

definition opened :: "prims \<Rightarrow> config \<Rightarrow> ClientHello \<Rightarrow> bytes \<Rightarrow> bytes \<Rightarrow> 'a conn_scheme \<Rightarrow> 'a conn_scheme" where
  "opened P cfg ch rest q w = (after_handshake P (cfg_pri_key cfg) (cfg_pub_key cfg) ch rest
     (w\<lparr>clock := (\<lambda>i. clock w (Suc i))\<rparr>))\<lparr>pool := q\<rparr>"

lemma channel_session: "aead_ok P \<Longrightarrow> sha_ok P \<Longrightarrow> channel_ok P (session_key_of P ch w)"
  by (simp add: channel_ok_def session_key_of_def salt_session_key_def Let_def sha_lengths)

lemma connection_run:
  fixes w :: "'a server_state_scheme"
  assumes "connection_opens P cfg ch sig ck nonce command rest w"
  shows "\<exists>q. handle_connection P cfg ip w =
    serve_command P cfg ip (clock w 0) (session_key_of P ch w) ck command (opened P cfg ch rest q w)"
proof -
  let ?w = "w\<lparr>clock := (\<lambda>i. clock w (Suc i))\<rparr>" and ?key = "session_key_of P ch w"
  let ?fr = "sealed_frame P ?key nonce (encoding (pc_Command P) command)"
  let ?h = "\<lambda>i. after_handshake P (cfg_pri_key cfg) (cfg_pub_key cfg) ch i ?w"
  have c: "aead_ok P" "sha_ok P" "ed_verifying_key P (cfg_pub_key cfg) = Inr (cfg_pub_key cfg)"
    "carried (pc_ClientHello P) ch" "carried (pc_ServerHello P) (server_hello_of P (cfg_pri_key cfg) (cfg_pub_key cfg) ch (rng ?w))"
    "length sig = 64" "ed_signature P sig = Inr sig" "length ck = 32" "ed_verifying_key P ck = Inr ck"
    "ed_verify P ck (challenge_of P (rng ?w)) sig = Inr ()"
    "inp ?w = raw_frame (encoding (pc_ClientHello P) ch) @ raw_frame (sig @ ck) @ (?fr @ rest)"
    "writable (72 + length (encoding (pc_ServerHello P) (server_hello_of P (cfg_pri_key cfg) (cfg_pub_key cfg) ch (rng ?w)))) ?w"
    and r: "roundtrips (pc_Command P) command" "sealed_fits (encoding (pc_Command P) command)" "length nonce = 12"
    using assms by (auto simp: connection_opens_def writable_def)
  have hs: "server_handshake P (cfg_pri_key cfg) (cfg_pub_key cfg) ?w =
      (Ok (x_dh P (take_rng 32 (rng w)) (ch_x22519_key ch), ck), ?h (?fr @ rest))"
    using server_handshake_exact [OF c(3,2,4-12)] by simp
  have ck: "length ?key = 32" using channel_session [OF c(1,2), of ch w] by (simp add: channel_ok_def)
  obtain q where q: "read_encrypt_data_into P ?key ((?h (?fr @ rest))\<lparr>pool := resize POOL_SIZE []\<rparr>) =
      (Ok (encoding (pc_Command P) command), (?h (?fr @ rest))\<lparr>pool := resize POOL_SIZE [], inp := rest, pool := q\<rparr>)"
    using read_encrypt_ok [OF c(1) ck r(3,2), of "(?h (?fr @ rest))\<lparr>pool := resize POOL_SIZE []\<rparr>" rest] by auto
  have s: "(?h (?fr @ rest))\<lparr>inp := rest, pool := q\<rparr> = opened P cfg ch rest q w"
    by (simp add: opened_def after_handshake_def Let_def)
  show ?thesis
    using hs q s r(1)
    by (intro exI [of _ q]) (simp add: handle_connection_def read_headers_def run_simps instant_now_def Let_def session_key_of_def)
qed


lemma seq_ret: "seq (ret a) f = f a"
  by (simp add: fun_eq_iff seq_def ret_def)

lemma serve_upload:
  "UploadHeader_validate (MAX_FILE_SIZE_GB (cfg_env cfg)) h = Ok () \<Longrightarrow>
   serve_command P cfg None ts key ck (Command.Upload h) = seq (handle_upload P cfg h ts key ck) (\<lambda>_. flush)"
  by (simp add: serve_command_def seq_ret run_command_def seq_attempt_lift)

lemma serve_download:
  "DownloadHeader_validate h = Ok () \<Longrightarrow>
   serve_command P cfg None ts key ck (Command.Download h) = seq (handle_download P cfg h ts key ck) (\<lambda>_. flush)"
  by (simp add: serve_command_def seq_ret run_command_def seq_attempt_lift)

text \<open>A connection that starts to replace a stored object and breaks off.\<close>

definition demo_big :: UploadHeader where
  "demo_big = \<lparr>uh_file_id = replicate 32 CHR ''a'', uh_file_name = ''n'', uh_file_size = 1048576, uh_file_hash = ''00000000'', uh_file_key = ''k''\<rparr>"

definition demo_srv :: prims where
  "demo_srv = demo_hs\<lparr>pc_Command := table_codec [Command.Upload demo_big]\<rparr>"

definition demo_srv_cfg :: config where
  "demo_srv_cfg = demo_cfg\<lparr>cfg_pri_key := [5], cfg_pub_key := pad 32 [5]\<rparr>"

definition demo_srv_disk :: fs where
  "demo_srv_disk = [(user_dir demo_srv [''s''] (pad 32 [6]) ''k'', DirNode),
     (object_path demo_srv [''s''] (pad 32 [6]) ''k'' (replicate 32 CHR ''a'') ''.file'', FileNode [5])]"

definition demo_srv_conn :: server_state where
  "demo_srv_conn = (let w = demo_sv [] in
     w\<lparr>disk := demo_srv_disk, inp := raw_frame [0] @ raw_frame (client_packet demo_srv [6] (challenge_of demo_srv (\<lambda>_. 2))) @
       sealed_frame demo_srv (session_key_of demo_srv demo_ch w) (replicate 12 0) [0]\<rparr>)"

lemma demo_srv_laws: "ed_ok demo_srv" "sha_ok demo_srv" "hex_ok demo_srv" "aead_ok demo_srv"
  by (rule demo_laws; simp add: demo_srv_def demo_hs_def)+

lemma demo_srv_codecs:
  "pc_ClientHello demo_srv = table_codec [demo_ch]" "pc_ServerHello demo_srv = table_codec [demo_sh]"
  "pc_Command demo_srv = table_codec [Command.Upload demo_big]" "ed_public demo_srv = pad 32"
  by (simp_all add: demo_srv_def demo_hs_codecs)

lemma demo_srv_hello: "server_hello_of demo_srv [5] (pad 32 [5]) demo_ch (\<lambda>_. 2) = demo_sh"
  using demo_hs_hellos(2) by (simp add: server_hello_of_def demo_srv_def)

lemma demo_srv_opens:
  "connection_opens demo_srv demo_srv_cfg demo_ch (ed_sign demo_srv [6] (challenge_of demo_srv (\<lambda>_. 2))) (pad 32 [6])
     (replicate 12 0) (Command.Upload demo_big) [] demo_srv_conn"
proof -
  have e: "ed_verifying_key demo_srv (pad 32 [x]) = Inr (pad 32 [x])"
    "ed_verify demo_srv (pad 32 [x]) m (ed_sign demo_srv [x] m) = Inr ()"
    "length (ed_sign demo_srv [x] m) = 64" "ed_signature demo_srv (ed_sign demo_srv [x] m) = Inr (ed_sign demo_srv [x] m)" for x m
    using demo_srv_laws(1) by (simp_all add: ed_ok_def demo_srv_codecs)
  show ?thesis
    by (simp add: connection_opens_def demo_srv_laws demo_srv_cfg_def carried_def demo_srv_codecs table_codec_single raw_fits_def e demo_srv_hello
        demo_srv_conn_def demo_sv_def Let_def sealed_fits_def writable_def client_packet_def session_key_of_def)
qed

lemma demo_srv_cut:
  "\<exists>w'. handle_connection demo_srv demo_srv_cfg None demo_srv_conn = (Err ''early eof'', w') \<and>
    fs_get (disk w') (object_path demo_srv [''s''] (pad 32 [6]) ''k'' (replicate 32 CHR ''a'') ''.file'') = Some (FileNode [])"
proof -
  let ?key = "session_key_of demo_srv demo_ch demo_srv_conn"
  obtain q where q: "handle_connection demo_srv demo_srv_cfg None demo_srv_conn =
      serve_command demo_srv demo_srv_cfg None (clock demo_srv_conn 0) ?key (pad 32 [6]) (Command.Upload demo_big)
        (opened demo_srv demo_srv_cfg demo_ch [] q demo_srv_conn)"
    using connection_run [OF demo_srv_opens] by blast
  let ?w = "opened demo_srv demo_srv_cfg demo_ch [] q demo_srv_conn"
  have v: "UploadHeader_validate (MAX_FILE_SIZE_GB (cfg_env demo_srv_cfg)) demo_big = Ok ()"
    by (simp add: UploadHeader_validate_def demo_big_def demo_srv_cfg_def demo_cfg_def MAX_FILE_SIZE_GB_def env_or_def)
  note paths = object_path_plain [OF demo_srv_laws(3,2)] user_dir_plain [OF demo_srv_laws(3,2)]
  have d: "disk ?w = demo_srv_disk" "inp ?w = []" "inp_end ?w = Closed"
    by (simp_all add: opened_def demo_srv_conn_def demo_sv_def Let_def)
  have st: "storable demo_srv demo_srv_cfg (pad 32 [6]) ''k'' (replicate 32 CHR ''a'') demo_srv_disk"
    by (simp add: storable_def demo_srv_laws demo_srv_cfg_def demo_cfg_def demo_srv_disk_def list_ex_iff is_file_def
        path_is_dir_def fs_get_def paths prefix_def)
  have wr: "writable 33 ?w"
    by (simp add: opened_def after_handshake_def Let_def writable_def demo_srv_conn_def demo_sv_def demo_srv_cfg_def
        demo_srv_codecs demo_srv_hello table_codec_single)
  have "channel_ok demo_srv ?key" by (rule channel_session) (simp_all add: demo_srv_laws)
  then have cut: "upload_cut demo_srv demo_srv_cfg ?key (pad 32 [6]) demo_big ?w"
    using d st wr by (simp add: upload_cut_def demo_big_def str_prefix_def is_char_boundary_def chunk_len_def READ_CHUNK_SIZE_def)
  have "lock_available True (uh_file_id demo_big) (sv_locks ?w)"
    by (simp add: opened_def after_handshake_def Let_def lock_available_def demo_srv_conn_def demo_sv_def no_locks_def)
  from handle_upload_cut [OF cut this, of "clock demo_srv_conn 0"] obtain w' where w':
    "handle_upload demo_srv demo_srv_cfg demo_big (clock demo_srv_conn 0) ?key (pad 32 [6]) ?w = (Err ''early eof'', w')"
    "fs_get (disk w') (object_path demo_srv [''s''] (pad 32 [6]) ''k'' (replicate 32 CHR ''a'') ''.file'') = Some (FileNode [])"
    by (auto simp: object_left_def upload_disk_def demo_srv_cfg_def demo_cfg_def demo_big_def)
  with q v show ?thesis by (simp add: serve_upload run_simps)
qed


section \<open>Refusals\<close>

text \<open>
  C26. A client that is out of tokens is turned away: when the refilled bucket of its address holds
  less than the command costs, the whole effect of the command is one 429 response and the refilled
  bucket; no handler runs, and disk, locks and counters are unchanged.
\<close>

theorem over_limit_refused:
  fixes w :: "'a server_state_scheme"
  assumes "channel_ok P key" "rl_buckets (sv_limiter w) ip = Some b"
    "tb_tokens (refill (cfg_rnd cfg) (clock w 0) b) < command_cost command"
    "error_deliverable P 429 ''Rate limit exceeded, try again later'' w"
  shows "\<exists>w'. serve_command P cfg (Some ip) ts key ck command w = (Ok (), w') \<and>
    wire w' = wire w @ sealed_frame P key (next_nonce w) (error_payload P 429 ''Rate limit exceeded, try again later'') \<and>
    out_shut w' \<and> disk w' = disk w \<and> sv_locks w' = sv_locks w \<and> sv_tracker w' = sv_tracker w \<and>
    rl_buckets (sv_limiter w') = (rl_buckets (sv_limiter w))(ip \<mapsto> refill (cfg_rnd cfg) (clock w 0) b)"
proof -
  let ?e = "error_payload P 429 ''Rate limit exceeded, try again later''"
  let ?rl = "(sv_limiter w)\<lparr>rl_buckets := (rl_buckets (sv_limiter w))(ip \<mapsto> refill (cfg_rnd cfg) (clock w 0) b)\<rparr>"
  let ?w = "w\<lparr>clock := (\<lambda>i. clock w (Suc i)), sv_limiter := ?rl\<rparr>"
  have l: "limiter_allows cfg ip (command_cost command) w = (Ok False, ?w)"
  proof -
    have "is_allowed_cost (cfg_rnd cfg) 0 (clock w 0) ip (command_cost command) (sv_limiter w) = (False, ?rl)"
      using assms(2,3) by (simp add: is_allowed_cost_def try_consume_def Let_def)
    with assms(2) show ?thesis by (simp add: limiter_allows_def seq_def get_state_def ret_def instant_now_def)
  qed
  have "error_deliverable P 429 ''Rate limit exceeded, try again later'' ?w"
    using assms(4) by (simp add: error_deliverable_def writable_def)
  then obtain p where p: "reply_failed P 429 ''Rate limit exceeded, try again later'' key ?w = (Ok (), (after_frame P key ?e p ?w)\<lparr>out_shut := True\<rparr>)"
    by (rule reply_failed_run [OF assms(1)])
  let ?v = "(after_frame P key ?e p ?w)\<lparr>out_shut := True\<rparr>"
  have "flush ?v = (Ok (), ?v\<lparr>out_sent := wire ?v, out_buf := [], out_room := out_room ?v - length (out_buf ?v)\<rparr>)"
    by (rule flush_ok) (simp add: writable_def)
  with l p have "serve_command P cfg (Some ip) ts key ck command w =
      (Ok (), ?v\<lparr>out_sent := wire ?v, out_buf := [], out_room := out_room ?v - length (out_buf ?v)\<rparr>)"
    by (simp add: serve_command_def seq_def)
  then show ?thesis by (simp add: wire_def next_nonce_def)
qed

text \<open>
  The server gives up on a silent client only while it waits for a frame's length: a client that
  stalls before the four length bytes are complete is timed out after \<^verbatim>\<open>READ_TIMEOUT\<close>, but one that
  announces a frame and stalls inside it is waited for without end.
\<close>

lemma stalled_frame_waits:
  fixes w :: "'a conn_scheme"
  assumes "inp_end w = Stalled" "inp w = to_be_bytes (of_nat n) @ part" "28 \<le> n" "n \<le> 16777216" "length part < n"
  shows "fst (read_headers P key w) = Pending \<and>
    fst (read_headers P key (w\<lparr>inp := take 3 (inp w)\<rparr>)) = Err frame_timeout"
proof (rule conjI)
  have u: "unat (of_nat n :: u32) = n" using assms(4) by (rule unat_small_len)
  have l: "read_frame_length w = (Ok (of_nat n), w\<lparr>inp := part\<rparr>)"
    using assms(2-4) by (intro read_frame_length_ok) simp_all
  have "\<exists>w1. read_encrypt_data_into P key w = (Pending, w1)"
    using l u assms(1,3,5)
    by (auto simp: read_encrypt_data_into_def Let_def NONCE_LEN_def TAG_LEN_def seq_def ensure_pool_def upd_state_def
        read_exact_def end_result_def)
  then show "fst (read_headers P key w) = Pending" by (auto simp: read_headers_def seq_def)
  let ?v = "w\<lparr>inp := take 3 (inp w)\<rparr>"
  have "read_frame_length ?v = (Err frame_timeout, ?v\<lparr>inp := [], waited := waited ?v + 30\<rparr>)"
    by (rule read_frame_length_stalled) (simp_all add: assms(1))
  then show "fst (read_headers P key ?v) = Err frame_timeout"
    by (simp add: read_headers_def read_encrypt_data_into_def seq_def)
qed

section \<open>Status\<close>

definition status_header :: "config \<Rightarrow> rat \<Rightarrow> int \<Rightarrow> nat \<Rightarrow> Tracker \<Rightarrow> StatusHeader" where
  "status_header cfg uptime now clients t = \<lparr>st_timestamp = cfg_rfc3339 cfg now, st_uptime_hrs = uptime,
     st_auth_client = of_nat clients, st_total_uploaded = total_uploaded t, st_total_downloaded = total_download t,
     st_total_bandwidth_used = f64_as_u64 (total_bandwidth_gb t)\<rparr>"

text \<open>
  C27. A status request is answered with one sealed frame, then the connection is shut down: the
  frame carries the counters of completed uploads and downloads and the number of client
  directories in the storage directory, and the request changes nothing.
\<close>

theorem status_reports:
  fixes w :: "'a server_state_scheme"
  assumes "channel_ok P key" "cfg_home cfg = Some h" "cfg_start cfg = Some start"
    "path_is_dir (disk w) (h @ [''.rdrive'', ''storage''])"
    "st = status_header cfg (cfg_rnd cfg (of_int (num_hours (sv_wall w 0 - start)))) (sv_wall w 1)
      (card {q. q \<noteq> [] \<and> butlast q = h @ [''.rdrive'', ''storage''] \<and> fs_get (disk w) q = Some DirNode}) (sv_tracker w)"
    "roundtrips (pc_StatusHeader P) st" "sealed_fits (encoding (pc_StatusHeader P) st)"
    "writable (32 + length (encoding (pc_StatusHeader P) st)) w"
  shows "\<exists>w'. run_command P cfg ts key ck Status w = (Ok (), w') \<and>
    out_sent w' = wire w @ sealed_frame P key (next_nonce w) (encoding (pc_StatusHeader P) st) \<and> out_buf w' = [] \<and>
    out_shut w' \<and> disk w' = disk w \<and> sv_locks w' = sv_locks w \<and> sv_tracker w' = sv_tracker w"
proof -
  let ?w = "w\<lparr>sv_wall := (\<lambda>i. sv_wall w (Suc (Suc i)))\<rparr>" and ?e = "encoding (pc_StatusHeader P) st"
  let ?d = "h @ [''.rdrive'', ''storage'']"
  have st: "\<lparr>st_timestamp = cfg_rfc3339 cfg (sv_wall w 1), st_uptime_hrs = cfg_rnd cfg (of_int (num_hours (sv_wall w 0 - start))),
      st_auth_client = of_nat (length (subdirs (disk w) ?d)), st_total_uploaded = total_uploaded (sv_tracker w),
      st_total_downloaded = total_download (sv_tracker w), st_total_bandwidth_used = f64_as_u64 (total_bandwidth_gb (sv_tracker w))\<rparr> = st"
    unfolding assms(5) status_header_def subdirs_card by simp
  have rd: "read_subdirs ?d (disk w) = Ok (subdirs (disk w) ?d)" using assms(4) by (simp add: read_subdirs_def path_is_dir_def)
  have "writable (32 + length ?e) ?w" using assms(8) by (simp add: writable_def)
  then obtain p where "seq (timeout WRITE_TIMEOUT deadline_elapsed (write_encrypt_frame_into P ?e key)) (\<lambda>_. shutdown) ?w =
      (Ok (), (after_frame P key ?e p ?w)\<lparr>out_shut := True\<rparr>)"
    by (rule write_frame_close [OF assms(1,7)])
  then have "run_command P cfg ts key ck Status w = (Ok (), (after_frame P key ?e p ?w)\<lparr>out_shut := True\<rparr>)"
    using assms(2,3) rd st serialize_roundtrips [OF assms(6)]
    by (simp add: run_command_def send_status_def try_get_uptime_hrs_def wall_now_def run_simps One_nat_def [symmetric] del: One_nat_def)
  then show ?thesis by (simp add: wire_def next_nonce_def)
qed

text \<open>Concrete instances.\<close>

definition demo_limits :: prims where
  "demo_limits = demo\<lparr>pc_ErrorHeader := table_codec [\<lparr>err_code = 429, err_message = ''Rate limit exceeded, try again later''\<rparr>]\<rparr>"

theorem over_limit_refused_witness:
  "\<exists>w'. serve_command demo_limits demo_cfg (Some ''10.0.0.1'') 0 demo_key [9] Status
      ((demo_sv [])\<lparr>sv_limiter := (RateLimiter_init 20 10)\<lparr>rl_buckets := [''10.0.0.1'' \<mapsto> TokenBucket_init 0 (1 / 2) 10]\<rparr>\<rparr>) = (Ok (), w') \<and>
    wire w' = sealed_frame demo_limits demo_key (replicate 12 2) [3, 0] \<and> disk w' = []"
proof -
  let ?w = "(demo_sv [])\<lparr>sv_limiter := (RateLimiter_init 20 10)\<lparr>rl_buckets := [''10.0.0.1'' \<mapsto> TokenBucket_init 0 (1 / 2) 10]\<rparr>\<rparr>"
  have "channel_ok demo_limits demo_key"
    by (simp add: channel_ok_def demo_key_def demo_limits_def demo_laws)
  moreover have c: "pc_ErrorHeader demo_limits = table_codec [\<lparr>err_code = 429, err_message = ''Rate limit exceeded, try again later''\<rparr>]"
    by (simp add: demo_limits_def)
  moreover have "tb_tokens (refill (cfg_rnd demo_cfg) (clock ?w 0) (TokenBucket_init 0 (1 / 2) 10)) < command_cost Status"
    by (simp add: refill_def TokenBucket_init_def command_cost_def demo_cfg_def demo_sv_def as_secs_f64_def)
  ultimately show ?thesis
    using over_limit_refused [of demo_limits demo_key ?w "''10.0.0.1''" "TokenBucket_init 0 (1 / 2) 10" demo_cfg Status 0 "[9]"]
    by (auto simp: error_deliverable_def error_payload_def table_codec_single sealed_fits_def writable_def demo_sv_def
        wire_def next_nonce_def map_replicate_const)
qed

definition demo_status :: StatusHeader where
  "demo_status = \<lparr>st_timestamp = ''t'', st_uptime_hrs = 2, st_auth_client = 1, st_total_uploaded = 0,
     st_total_downloaded = 0, st_total_bandwidth_used = 0\<rparr>"

definition demo_status_prims :: prims where
  "demo_status_prims = demo\<lparr>pc_StatusHeader := table_codec [demo_status]\<rparr>"

definition demo_status_cfg :: config where
  "demo_status_cfg = demo_cfg\<lparr>cfg_home := Some [''h''], cfg_start := Some 0\<rparr>"

definition demo_status_conn :: server_state where
  "demo_status_conn = (demo_sv [])\<lparr>sv_wall := (\<lambda>_. 7300000000000),
     disk := [([''h'', ''.rdrive'', ''storage''], DirNode), ([''h'', ''.rdrive'', ''storage'', ''c''], DirNode),
       ([''h'', ''.rdrive'', ''storage'', ''f''], FileNode [])]\<rparr>"

theorem status_reports_witness:
  "\<exists>w'. run_command demo_status_prims demo_status_cfg 0 demo_key [9] Status demo_status_conn = (Ok (), w') \<and>
    out_sent w' = sealed_frame demo_status_prims demo_key (replicate 12 2) [0]"
proof -
  let ?d = "[''h'', ''.rdrive'', ''storage'']"
  have "{q. q \<noteq> [] \<and> butlast q = ?d \<and> fs_get (disk demo_status_conn) q = Some DirNode} = {?d @ [''c'']}"
    by (auto simp: demo_status_conn_def fs_get_def)
  then have st: "demo_status = status_header demo_status_cfg (cfg_rnd demo_status_cfg (of_int (num_hours (sv_wall demo_status_conn 0 - 0))))
      (sv_wall demo_status_conn 1) (card {q. q \<noteq> [] \<and> butlast q = [''h''] @ [''.rdrive'', ''storage''] \<and>
        fs_get (disk demo_status_conn) q = Some DirNode}) (sv_tracker demo_status_conn)"
    by (simp add: demo_status_def status_header_def demo_status_cfg_def demo_cfg_def demo_status_conn_def demo_sv_def
        num_hours_def trunc_div_def Tracker_default_def f64_as_u64_def)
  have "channel_ok demo_status_prims demo_key" "pc_StatusHeader demo_status_prims = table_codec [demo_status]"
    by (simp_all add: channel_ok_def demo_key_def demo_status_prims_def demo_laws)
  then show ?thesis
    using status_reports [OF _ _ _ _ st, of demo_status_prims demo_key 0 "[9]"]
    by (auto simp: demo_status_cfg_def table_codec_single sealed_fits_def writable_def demo_status_conn_def demo_sv_def
        path_is_dir_def fs_get_def wire_def next_nonce_def map_replicate_const)
qed

end
