(* ===== verification/Client.thy ===== *)
theory Client
  imports Rel Handshake
begin

text \<open>
  The client side of \<^verbatim>\<open>src/protocol_v1.rs\<close>: \<^verbatim>\<open>auth_client\<close>, \<^verbatim>\<open>upload_client\<close>, \<^verbatim>\<open>download_client\<close>
  and \<^verbatim>\<open>get_server_status\<close>. Each connects, shakes hands, sends its one command and interprets
  the answers. What is printed is left out. Paths are relative to the working directory.
\<close>

section \<open>Shared steps\<close>

definition client_handshake :: "prims \<Rightarrow> string res \<Rightarrow> bytes \<Rightarrow> ('a client_state_scheme, bytes) io" where
  "client_handshake P connect_result signing_key =
    wrap_err (\<lambda>e. ''Handshake failed: '' @ e) (client_handshake_helper P connect_result signing_key False)"

text \<open>\<^verbatim>\<open>response[0]\<close>, which panics on an empty response.\<close>

definition first_byte :: "bytes \<Rightarrow> byte res" where
  "first_byte b = (case b of [] \<Rightarrow> Panic ''index out of bounds'' | x # _ \<Rightarrow> Ok x)"

definition show_code :: "u16 \<Rightarrow> string" where
  "show_code c = show_nat (unat c)"

text \<open>An error response ends the function, a warning is printed.\<close>

definition bail_error :: "string \<Rightarrow> prims \<Rightarrow> bytes \<Rightarrow> ('a conn_scheme, unit) io" where
  "bail_error what P response =
    seq (lift_res (deserialize (pc_ErrorHeader P) (drop 1 response))) (\<lambda>err.
    fail (what @ '' failed: '' @ show_code (err_code err) @ '' - '' @ err_message err))"

definition read_warning :: "prims \<Rightarrow> bytes \<Rightarrow> ('a conn_scheme, unit) io" where
  "read_warning P response = seq (lift_res (deserialize (pc_WarnHeader P) (drop 1 response))) (\<lambda>_. ret ())"

text \<open>\<^verbatim>\<open>stream.shutdown()\<close> on the socket itself, behind the buffer.\<close>

definition stream_shutdown :: "('a conn_scheme, unit) io" where
  "stream_shutdown = upd_state (\<lambda>w. w\<lparr>out_shut := True\<rparr>)"

section \<open>Keys\<close>

text \<open>\<^verbatim>\<open>dst.copy_from_slice(src)\<close>, which panics unless the lengths agree.\<close>

definition copy_exact :: "nat \<Rightarrow> bytes \<Rightarrow> bytes res" where
  "copy_exact n b = (if length b = n then Ok b else Panic slice_len_panic)"

definition auth_client :: "prims \<Rightarrow> string res \<Rightarrow> bytes \<Rightarrow> bytes \<Rightarrow> bytes option \<Rightarrow> ('a client_state_scheme, unit) io" where
  "auth_client P connect_result private_key public_key old_public_key =
    seq (client_handshake P connect_result private_key) (\<lambda>session_key.
    seq (lift_res (serialize (pc_Command P) (Auth (if old_public_key \<noteq> None then 2 else 1)))) (\<lambda>auth_request.
    seq (write_encrypt_frame_into P auth_request session_key) (\<lambda>_.
    seq (read_encrypt_data_into P session_key) (\<lambda>nonce.
    let signature = ed_sign P private_key nonce in
    seq (lift_res (copy_exact 64 nonce)) (\<lambda>nonce.
    seq (write_encrypt_frame_into P
           (case old_public_key of
              Some old_verifying_key \<Rightarrow> nonce @ signature @ old_verifying_key @ public_key
            | None \<Rightarrow> nonce @ signature @ public_key) session_key) (\<lambda>_.
    seq (read_encrypt_data_into P session_key) (\<lambda>rsp.
    seq (lift_res (first_byte rsp)) (\<lambda>b.
    if b = 1 then ret ()
    else if b = 2 then read_warning P rsp
    else if b = 3 then bail_error ''Auth'' P rsp
    else fail ''Invalid response from server''))))))))"

section \<open>Upload\<close>

text \<open>\<^verbatim>\<open>Path::file_name\<close>.\<close>

definition path_file_name :: "path \<Rightarrow> string option" where
  "path_file_name p = (if p = [] \<or> last p = ''..'' then None else Some (last p))"

text \<open>
  \<^verbatim>\<open>metadata(path).len()\<close>. The size of a directory is whatever the system says; hashing the directory
  fails before it is used.
\<close>

definition metadata_len :: "path \<Rightarrow> fs \<Rightarrow> u64 res" where
  "metadata_len p f = (case fs_get f p of
     Some (FileNode d) \<Rightarrow> Ok (of_nat (length d))
   | Some DirNode \<Rightarrow> Ok 4096
   | None \<Rightarrow> Err ''No such file or directory (os error 2)'')"

definition upload_client :: "prims \<Rightarrow> string res \<Rightarrow> path \<Rightarrow> string \<Rightarrow> string \<Rightarrow> bytes \<Rightarrow> ('a client_state_scheme, string) io" where
  "upload_client P connect_result file_path file_key file_id signing_key =
    seq (lift_res (case path_file_name file_path of None \<Rightarrow> Err ''Invalid file path'' | Some n \<Rightarrow> Ok n)) (\<lambda>file_name.
    seq (fs_query (metadata_len file_path)) (\<lambda>file_size.
    seq (client_handshake P connect_result signing_key) (\<lambda>session_key.
    seq (wrap_err (\<lambda>_. ''Failed to compute file hash'') (fs_query (file_hasher P file_path))) (\<lambda>file_hash.
    seq (lift_res (serialize (pc_Command P) (Command.Upload
           \<lparr>uh_file_id = file_id, uh_file_name = file_name, uh_file_size = file_size, uh_file_hash = file_hash, uh_file_key = file_key\<rparr>))) (\<lambda>request.
    seq (wrap_err (\<lambda>_. ''Failed to send upload header request'') (write_encrypt_frame_into P request session_key)) (\<lambda>_.
    seq (wrap_err (\<lambda>_. ''Failed to read upload header response'') (read_encrypt_data_into P session_key)) (\<lambda>response.
    seq (lift_res (first_byte response)) (\<lambda>b.
    seq (if b = 3 then bail_error ''Upload'' P response else if b = 2 then read_warning P response else ret ()) (\<lambda>_.
    seq (fs_query (file_read file_path)) (\<lambda>contents.
    seq (send_chunks ''Client upload timed out sending chunk'' (\<lambda>_. ''Failed to send file data'') P session_key
           (chunks READ_CHUNK_SIZE contents)) (\<lambda>_.
    seq (wrap_err (\<lambda>_. ''Failed to flush'') flush) (\<lambda>_.
    seq (read_encrypt_data_into P session_key) (\<lambda>response.
    seq (lift_res (first_byte response)) (\<lambda>b.
    seq (if b = 3 then bail_error ''Upload'' P response
         else if b = 2 then read_warning P response
         else if b \<noteq> 1 then fail (''Unknown header byte: '' @ show_nat (unat b))
         else ret ()) (\<lambda>_.
    seq (lift_res (deserialize (pc_UploadResponse P) (drop 1 response))) (\<lambda>rsp.
    seq stream_shutdown (\<lambda>_.
    ret (ur_file_id rsp))))))))))))))))))"

section \<open>Download\<close>

definition hash_mismatch :: "string \<Rightarrow> string \<Rightarrow> string" where
  "hash_mismatch expected computed =
    [CHR 0xE2, CHR 0x9C, CHR 0x97] @ '' Hash mismatch: expected '' @ expected @ '' but computed '' @ computed"

text \<open>What follows the server's first answer.\<close>

definition download_accept :: "prims \<Rightarrow> bytes \<Rightarrow> path option \<Rightarrow> bytes \<Rightarrow> ('a client_state_scheme, path) io" where
  "download_accept P session_key output header_bytes =
    seq (lift_res (first_byte header_bytes)) (\<lambda>b.
    seq (if b = 3 then bail_error ''Download'' P header_bytes
         else if b = 2 then read_warning P header_bytes
         else if b \<noteq> 1 then fail (''Unknown header byte: '' @ show_nat (unat b))
         else ret ()) (\<lambda>_.
    seq (lift_res (deserialize (pc_DownloadResponse P) (drop 1 header_bytes))) (\<lambda>response.
    let output_path = path_join (case output of Some dir \<Rightarrow> dir | None \<Rightarrow> []) (dr_file_name response) in
    seq (receive_file ''Client download timed out reading chunk'' (\<lambda>_. ''Failed to read file data'') P session_key
           output_path (dr_file_size response)) (\<lambda>computed_hash.
    if computed_hash \<noteq> dr_file_hash response then
      seq (attempt (fs_do (remove_file output_path))) (\<lambda>_.
      fail (hash_mismatch (dr_file_hash response) computed_hash))
    else
      seq stream_shutdown (\<lambda>_.
      ret output_path)))))"

definition download_client :: "prims \<Rightarrow> string res \<Rightarrow> string \<Rightarrow> string \<Rightarrow> path option \<Rightarrow> bytes \<Rightarrow> ('a client_state_scheme, path) io" where
  "download_client P connect_result file_id file_key output signing_key =
    seq (client_handshake P connect_result signing_key) (\<lambda>session_key.
    seq (lift_res (serialize (pc_Command P) (Command.Download \<lparr>dh_file_id = file_id, dh_file_key = file_key\<rparr>))) (\<lambda>request.
    seq (wrap_err (\<lambda>_. ''Failed to send download header request'') (write_encrypt_frame_into P request session_key)) (\<lambda>_.
    seq (wrap_err (\<lambda>_. ''Failed to read download header response'') (read_encrypt_data_into P session_key)) (\<lambda>header_bytes.
    download_accept P session_key output header_bytes))))"

section \<open>Status\<close>

definition get_server_status :: "prims \<Rightarrow> string res \<Rightarrow> bytes \<Rightarrow> ('a client_state_scheme, StatusHeader) io" where
  "get_server_status P connect_result signing_key =
    seq (client_handshake P connect_result signing_key) (\<lambda>session_key.
    seq (lift_res (serialize (pc_Command P) Status)) (\<lambda>request.
    seq (write_encrypt_frame_into P request session_key) (\<lambda>_.
    seq (wrap_err (\<lambda>_. ''Failed to read status response'') (read_encrypt_data_into P session_key)) (\<lambda>response.
    seq (lift_res (deserialize (pc_StatusHeader P) response)) (\<lambda>response.
    seq stream_shutdown (\<lambda>_.
    ret response))))))"

section \<open>Evaluation lemmas\<close>

lemma send_stream:
  assumes "channel_ok P key" "READ_CHUNK_SIZE dvd length d" "writable (length (chunks READ_CHUNK_SIZE d) * SEALED_CHUNK) w"
  obtains w' s where "send_chunks msg ctx P key (chunks READ_CHUNK_SIZE d) w = (Ok (), w')" "wrote s w w'"
    "\<forall>rest. sealed_stream P key d (s @ rest) rest" "writable 0 w'"
proof -
  let ?cs = "chunks READ_CHUNK_SIZE d"
  have full: "\<forall>c \<in> set ?cs. length c = READ_CHUNK_SIZE" using chunks_full [OF assms(2)] by blast
  obtain w' rs where s: "send_chunks msg ctx P key ?cs w = (Ok (), w')" "wrote (concat (map2 (sealed P key) rs ?cs)) w w'"
    "length rs = length ?cs" "\<forall>r \<in> set rs. length r = 12"
    using send_chunks_ok [OF assms(1) full assms(3), of msg ctx] by blast
  have "length (concat (map2 (sealed P key) rs ?cs)) = length ?cs * SEALED_CHUNK"
    using assms(1) full s(3,4) by (rule length_sealed_chunks)
  with wrote_room [OF s(2)] assms(3) have "writable 0 w'" by simp
  with s show thesis by (intro that [OF s(1,2)]) (auto simp: sealed_stream_def)
qed

lemma read_frame_run:
  assumes "channel_ok P key" "length r = 12" "sealed_fits m" "inp w = sealed_frame P key r m @ rest"
  obtains q where "read_encrypt_data_into P key w = (Ok m, w\<lparr>inp := rest, pool := q\<rparr>)"
  using read_encrypt_ok assms unfolding channel_ok_def by blast

text \<open>The upload header the client makes for a file.\<close>

definition client_upload_header :: "prims \<Rightarrow> string \<Rightarrow> string \<Rightarrow> string \<Rightarrow> bytes \<Rightarrow> UploadHeader" where
  "client_upload_header P file_id file_key name d = \<lparr>uh_file_id = file_id, uh_file_name = name,
     uh_file_size = of_nat (length d), uh_file_hash = content_hash P d, uh_file_key = file_key\<rparr>"

lemma file_hasher_content: "sha_ok P \<Longrightarrow> fs_get f p = Some (FileNode d) \<Longrightarrow> file_hasher P p f = Ok (content_hash P d)"
  using hash_chunks_concat [of P "chunks READ_CHUNK_SIZE d"] by (simp add: file_hasher_def file_read_def READ_CHUNK_SIZE_def)

lemma upload_client_run:
  fixes v :: "'a client_state_scheme"
  assumes "channel_ok P key" "sha_ok P" "client_handshake P cr sk v = (Ok key, v1)" "disk v1 = disk v"
    "fs_get (disk v) p = Some (FileNode d)" "path_file_name p = Some name" "READ_CHUNK_SIZE dvd length d"
    "cmd = Command.Upload (client_upload_header P file_id file_key name d)"
    "roundtrips (pc_Command P) cmd" "sealed_fits (encoding (pc_Command P) cmd)"
    "roundtrips (pc_UploadResponse P) rsp" "sealed_fits (1 # encoding (pc_UploadResponse P) rsp)"
    "length n1 = 12" "length n2 = 12"
    "inp v1 = sealed_frame P key n1 [1] @ sealed_frame P key n2 (1 # encoding (pc_UploadResponse P) rsp)"
    "writable (32 + length (encoding (pc_Command P) cmd) + length (chunks READ_CHUNK_SIZE d) * SEALED_CHUNK) v1"
  obtains v' s where "upload_client P cr p file_key file_id sk v = (Ok (ur_file_id rsp), v')"
    "wire v' = wire v1 @ sealed_frame P key (next_nonce v1) (encoding (pc_Command P) cmd) @ s"
    "\<forall>rest. sealed_stream P key d (s @ rest) rest" "disk v' = disk v" "inp v' = []"
proof -
  let ?c = "encoding (pc_Command P) cmd" and ?r = "1 # encoding (pc_UploadResponse P) rsp"
  have "writable (32 + length ?c) v1" using assms(16) by (simp add: writable_def)
  then obtain p1 where w1: "write_encrypt_frame_into P ?c key v1 = (Ok (), after_frame P key ?c p1 v1)"
    by (rule write_frame_run [OF assms(1,10)])
  let ?v2 = "after_frame P key ?c p1 v1"
  have i2: "inp ?v2 = sealed_frame P key n1 [1] @ sealed_frame P key n2 ?r" using assms(15) by simp
  have fit: "sealed_fits [1 :: byte]" by (simp add: sealed_fits_def)
  obtain q1 where r1: "read_encrypt_data_into P key ?v2 = (Ok [1], ?v2\<lparr>inp := sealed_frame P key n2 ?r, pool := q1\<rparr>)"
    by (rule read_frame_run [OF assms(1,13) fit i2])
  let ?v3 = "?v2\<lparr>inp := sealed_frame P key n2 ?r, pool := q1\<rparr>"
  have "writable (length (chunks READ_CHUNK_SIZE d) * SEALED_CHUNK) ?v3" using assms(16) by (simp add: writable_def)
  then obtain v4 s where s: "send_chunks ''Client upload timed out sending chunk'' (\<lambda>_. ''Failed to send file data'') P key (chunks READ_CHUNK_SIZE d) ?v3 = (Ok (), v4)"
    "wrote s ?v3 v4" "\<forall>rest. sealed_stream P key d (s @ rest) rest" "writable 0 v4"
    by (rule send_stream [OF assms(1,7)])
  let ?v5 = "v4\<lparr>out_sent := wire v4, out_buf := [], out_room := out_room v4 - length (out_buf v4)\<rparr>"
  have f5: "flush v4 = (Ok (), ?v5)" using s(4) by (simp add: flush_ok)
  have k: "wire v4 = wire ?v3 @ s" "inp v4 = sealed_frame P key n2 ?r" "disk v4 = disk v" "out_shut v4 = out_shut v1"
    using s(2) assms(4) by (auto simp: wrote_def after_frame_def)
  have i5: "inp ?v5 = sealed_frame P key n2 ?r @ []" using k(2) by simp
  obtain q2 where r2: "read_encrypt_data_into P key ?v5 = (Ok ?r, ?v5\<lparr>inp := [], pool := q2\<rparr>)"
    by (rule read_frame_run [OF assms(1,14,12) i5])
  have "upload_client P cr p file_key file_id sk v = (Ok (ur_file_id rsp), ?v5\<lparr>inp := [], pool := q2, out_shut := True\<rparr>)"
    using assms(3-6) w1 r1 s(1) f5 r2 file_hasher_content [OF assms(2), of "disk v1" p d] k(3)
      serialize_roundtrips [OF assms(9)] deserialize_encoding [OF assms(11)]
    by (simp add: upload_client_def run_simps metadata_len_def file_read_def first_byte_def stream_shutdown_def
        assms(8) client_upload_header_def)
  then show thesis
    by (rule that [where s = s]) (use k(1,3) s(3) in \<open>simp_all add: wire_def next_nonce_def\<close>)
qed

lemma download_client_run:
  fixes v :: "'a client_state_scheme"
  assumes "channel_ok P key" "sha_ok P" "client_handshake P cr sk v = (Ok key, v1)" "disk v1 = disk v"
    "cmd = Command.Download \<lparr>dh_file_id = file_id, dh_file_key = file_key\<rparr>"
    "roundtrips (pc_Command P) cmd" "sealed_fits (encoding (pc_Command P) cmd)"
    "roundtrips (pc_DownloadResponse P) rsp" "sealed_fits (1 # encoding (pc_DownloadResponse P) rsp)"
    "length n1 = 12" "inp v1 = sealed_frame P key n1 (1 # encoding (pc_DownloadResponse P) rsp) @ s" "sealed_stream P key d s rest"
    "length d = unat (dr_file_size rsp)" "dr_file_hash rsp = content_hash P d"
    "file_write (path_join (case output of Some dir \<Rightarrow> dir | None \<Rightarrow> []) (dr_file_name rsp)) [] (disk v) = Ok f0"
    "writable (32 + length (encoding (pc_Command P) cmd)) v1"
  defines "out \<equiv> path_join (case output of Some dir \<Rightarrow> dir | None \<Rightarrow> []) (dr_file_name rsp)"
  obtains v' where "download_client P cr file_id file_key output sk v = (Ok out, v')"
    "wire v' = wire v1 @ sealed_frame P key (next_nonce v1) (encoding (pc_Command P) cmd)"
    "\<forall>q. fs_get (disk v') q = (if q = out then Some (FileNode d) else fs_get (disk v) q)" "inp v' = rest"
proof -
  let ?c = "encoding (pc_Command P) cmd" and ?r = "1 # encoding (pc_DownloadResponse P) rsp"
  obtain p1 where w1: "write_encrypt_frame_into P ?c key v1 = (Ok (), after_frame P key ?c p1 v1)"
    by (rule write_frame_run [OF assms(1,7,16)])
  let ?v2 = "after_frame P key ?c p1 v1"
  have i2: "inp ?v2 = sealed_frame P key n1 ?r @ s" using assms(11) by simp
  obtain q1 where r1: "read_encrypt_data_into P key ?v2 = (Ok ?r, ?v2\<lparr>inp := s, pool := q1\<rparr>)"
    by (rule read_frame_run [OF assms(1,10,9) i2])
  let ?v3 = "?v2\<lparr>inp := s, pool := q1\<rparr>"
  have fw: "file_write out [] (disk ?v3) = Ok f0" using assms(4,15) by (simp add: out_def)
  have st: "sealed_stream P key d (inp ?v3) rest" using assms(12) by simp
  obtain f where f: "receive_file ''Client download timed out reading chunk'' (\<lambda>_. ''Failed to read file data'') P key out (dr_file_size rsp) ?v3 =
      (Ok (content_hash P d), ?v3\<lparr>inp := rest, disk := f\<rparr>)" "\<forall>q. fs_get f q = (if q = out then Some (FileNode d) else fs_get (disk ?v3) q)"
    using receive_file_ok [OF assms(1,2) fw assms(13) st, of "''Client download timed out reading chunk''" "\<lambda>_. ''Failed to read file data''"] by blast
  have "download_client P cr file_id file_key output sk v = (Ok out, ?v3\<lparr>inp := rest, disk := f, out_shut := True\<rparr>)"
    using assms(3) w1 r1 f(1) serialize_roundtrips [OF assms(6)] deserialize_encoding [OF assms(8)]
    by (simp add: download_client_def download_accept_def run_simps first_byte_def stream_shutdown_def assms(5,14) Let_def out_def [symmetric])
  then show thesis
    by (rule that) (use f(2) assms(4) in \<open>simp_all add: wire_def next_nonce_def\<close>)
qed

section \<open>A download that succeeds\<close>

lemma client_reads:
  "steps (\<lambda>(w :: 'a client_state_scheme) w'. disk w' = disk w) AuthServerMap_read_or_create"
  "steps (\<lambda>(w :: 'a client_state_scheme) w'. disk w' = disk w) (AuthServerMap_write m)"
  "steps (\<lambda>(w :: 'a client_state_scheme) w'. disk w' = disk w) read_line"
  by (auto simp: steps_def AuthServerMap_read_or_create_def AuthServerMap_write_def read_line_def split: option.splits sum.splits list.splits)

lemma approve_reads: "steps (\<lambda>(w :: 'a client_state_scheme) w'. disk w' = disk w) (approve_server_key P ip key trust)"
  unfolding approve_server_key_def Let_def reject_server_def
  by (intro rd.steps_rules rd.steps_upd client_reads run_rel_option [OF rd.run_rel_axioms]) simp_all

lemma client_handshake_reads: "steps (\<lambda>(w :: 'a client_state_scheme) w'. disk w' = disk w) (client_handshake P cr sk)"
  unfolding client_handshake_def client_handshake_helper_def Let_def
  by (intro rd.steps_rules rd.steps_io approve_reads)

lemma lift_seqE:
  assumes "seq (lift_res r) f w = (Ok a, w')"
  obtains x where "r = Ok x" "f x w = (Ok a, w')"
  using assms by (cases r) (auto simp: seq_def lift_res_def)

lemma download_accept_sound:
  fixes w :: "'a client_state_scheme"
  assumes "download_accept P key output header w = (Ok out, w')" "sha_ok P"
  obtains rsp d where "deserialize (pc_DownloadResponse P) (drop 1 header) = Ok rsp"
    "out = path_join (case output of Some dir \<Rightarrow> dir | None \<Rightarrow> []) (dr_file_name rsp)"
    "fs_get (disk w') out = Some (FileNode d)" "content_hash P d = dr_file_hash rsp" "same_except out (disk w) (disk w')"
proof -
  let ?check = "\<lambda>b. if b = 3 then bail_error ''Download'' P header
    else if b = 2 then read_warning P header else if b \<noteq> 1 then fail (''Unknown header byte: '' @ show_nat (unat b)) else ret ()"
  let ?out = "\<lambda>rsp. path_join (case output of Some dir \<Rightarrow> dir | None \<Rightarrow> []) (dr_file_name rsp)"
  let ?tail = "\<lambda>rsp. seq (receive_file ''Client download timed out reading chunk'' (\<lambda>_. ''Failed to read file data'') P key
      (?out rsp) (dr_file_size rsp)) (\<lambda>computed_hash.
    if computed_hash \<noteq> dr_file_hash rsp then
      seq (attempt (fs_do (remove_file (?out rsp)))) (\<lambda>_. fail (hash_mismatch (dr_file_hash rsp) computed_hash))
    else seq stream_shutdown (\<lambda>_. ret (?out rsp)))"
  obtain b where "first_byte header = Ok b"
    and w1: "seq (?check b) (\<lambda>_. seq (lift_res (deserialize (pc_DownloadResponse P) (drop 1 header))) ?tail) w = (Ok out, w')"
    using assms(1) unfolding download_accept_def Let_def by (rule lift_seqE)
  obtain u w2 where c: "?check b w = (Ok u, w2)" and w2: "seq (lift_res (deserialize (pc_DownloadResponse P) (drop 1 header))) ?tail w2 = (Ok out, w')"
    using w1 by (rule seq_OkE)
  have "steps (\<lambda>(w :: 'a client_state_scheme) w'. disk w' = disk w) (?check b)"
    unfolding bail_error_def read_warning_def by (intro rd.steps_rules)
  from stepsD [OF this c] have d2: "disk w2 = disk w" .
  obtain rsp where rsp: "deserialize (pc_DownloadResponse P) (drop 1 header) = Ok rsp" and t: "?tail rsp w2 = (Ok out, w')"
    using w2 by (rule lift_seqE)
  obtain hash w3 where rf: "receive_file ''Client download timed out reading chunk'' (\<lambda>_. ''Failed to read file data'') P key
      (?out rsp) (dr_file_size rsp) w2 = (Ok hash, w3)"
    and fin: "(if hash \<noteq> dr_file_hash rsp then
      seq (attempt (fs_do (remove_file (?out rsp)))) (\<lambda>_. fail (hash_mismatch (dr_file_hash rsp) hash))
      else seq stream_shutdown (\<lambda>_. ret (?out rsp))) w3 = (Ok out, w')"
    using t by (rule seq_OkE)
  have e: "hash = dr_file_hash rsp" using fin by (auto elim!: seq_OkE simp: fail_def split: if_splits)
  with fin have o: "out = ?out rsp" "disk w' = disk w3" by (auto simp: seq_def stream_shutdown_def upd_state_def ret_def)
  obtain d where d: "hash = content_hash P d" "fs_get (disk w3) (?out rsp) = Some (FileNode d)"
    by (rule receive_file_received [OF rf assms(2)])
  have "same_except (?out rsp) (disk w2) (disk w3)" using receive_file_frame [OF rf] by (auto simp: frame_of_def)
  with rsp o d e d2 show thesis by (intro that [of rsp d]) simp_all
qed

end
