(* ===== verification/Session.thy ===== *)
theory Session
  imports Server Client
begin

text \<open>
  A client and the server on the two ends of one connection: each is fed what the other one sends.
  The theorems follow a whole request from the client's function to the server's handler and back.
\<close>

section \<open>Two parties\<close>

text \<open>
  The client has the server's key on record, the crates keep their laws, and the two hellos can be
  carried. \<open>ip\<close> is the address under which the client has the server on record.
\<close>

definition parties :: "prims \<Rightarrow> config \<Rightarrow> string \<Rightarrow> bytes \<Rightarrow> 'a client_state_scheme \<Rightarrow> 'b server_state_scheme \<Rightarrow> bool" where
  "parties P cfg ip sk v w \<longleftrightarrow> aead_ok P \<and> sha_ok P \<and> hex_ok P \<and> ed_ok P \<and> dh_ok P \<and>
     cfg_pub_key cfg = ed_public P (cfg_pri_key cfg) \<and> cs_dir_err v = None \<and>
     (\<exists>m. cs_server_map v = Some (Inr m) \<and> m ip = Some (hex_encode P (cfg_pub_key cfg))) \<and>
     carried (pc_ClientHello P) (client_hello_of P (rng v)) \<and>
     carried (pc_ServerHello P) (server_hello_of P (cfg_pri_key cfg) (cfg_pub_key cfg) (client_hello_of P (rng v)) (rng w)) \<and>
     writable (104 + length (encoding (pc_ClientHello P) (client_hello_of P (rng v)))) v \<and>
     writable (72 + length (encoding (pc_ServerHello P) (server_hello_of P (cfg_pri_key cfg) (cfg_pub_key cfg) (client_hello_of P (rng v)) (rng w)))) w"

definition client_opening :: "prims \<Rightarrow> bytes \<Rightarrow> 'a conn_scheme \<Rightarrow> 'b conn_scheme \<Rightarrow> bytes" where
  "client_opening P sk v w = raw_frame (encoding (pc_ClientHello P) (client_hello_of P (rng v))) @
     raw_frame (client_packet P sk (challenge_of P (rng w)))"

definition server_opening :: "prims \<Rightarrow> config \<Rightarrow> 'a conn_scheme \<Rightarrow> 'b conn_scheme \<Rightarrow> bytes" where
  "server_opening P cfg v w =
     raw_frame (encoding (pc_ServerHello P) (server_hello_of P (cfg_pri_key cfg) (cfg_pub_key cfg) (client_hello_of P (rng v)) (rng w))) @
     raw_frame (challenge_of P (rng w))"

abbreviation shared_key :: "prims \<Rightarrow> 'a conn_scheme \<Rightarrow> 'b conn_scheme \<Rightarrow> bytes" where
  "shared_key P v w \<equiv> session_key_of P (client_hello_of P (rng v)) w"

lemma client_opens:
  assumes "parties P cfg ip sk v w" "inp v = server_opening P cfg v w @ rest"
  shows "client_handshake P (Ok ip) sk v = (Ok (shared_key P v w), client_after_handshake P sk (challenge_of P (rng w)) rest v)"
proof -
  let ?ch = "client_hello_of P (rng v)" and ?pub = "cfg_pub_key cfg"
  let ?sh = "server_hello_of P (cfg_pri_key cfg) ?pub ?ch (rng w)"
  have p: "hex_ok P" "ed_ok P" "sha_ok P" "dh_ok P" "?pub = ed_public P (cfg_pri_key cfg)" "cs_dir_err v = None"
    "carried (pc_ClientHello P) ?ch" "carried (pc_ServerHello P) ?sh" "writable (104 + length (encoding (pc_ClientHello P) ?ch)) v"
    using assms(1) by (auto simp: parties_def)
  obtain m where m: "cs_server_map v = Some (Inr m)" "m ip = Some (hex_encode P ?pub)" using assms(1) by (auto simp: parties_def)
  have s: "sh_ed25519_key ?sh = ?pub" "sh_x22519_key ?sh = x_public P (take_rng 32 (rng w))" "ch_x22519_key ?ch = x_public P (take_rng 32 (rng v))"
    by (simp_all add: server_hello_of_def client_hello_of_def Let_def)
  have e: "ed_verifying_key P ?pub = Inr ?pub" "length ?pub = 32" using p(2,5) by (simp_all add: ed_ok_def)
  have sg: "ed_verify P (sh_ed25519_key ?sh) (sha512 P (signed_transcript (ch_nonce ?ch) (sh_nonce ?sh) (ch_x22519_key ?ch) (sh_x22519_key ?sh)))
      (sh_signature ?sh) = Inr ()"
    using p(2,5) by (simp add: server_hello_of_def Let_def ed_ok_def)
  have ch: "raw_fits (challenge_of P (rng w))" using p(3) by (simp add: raw_fits_def challenge_of_def sha_lengths)
  have "client_handshake_helper P (Ok ip) sk False v =
      (Ok (salt_session_key P (x_dh P (take_rng 32 (rng v)) (sh_x22519_key ?sh))), client_after_handshake P sk (challenge_of P (rng w)) rest v)"
    by (rule client_handshake_exact [where m = m])
       (use p(1-4,6-9) m e sg ch assms(2) in \<open>simp_all add: s server_opening_def\<close>)
  moreover have "x_dh P (take_rng 32 (rng v)) (sh_x22519_key ?sh) = x_dh P (take_rng 32 (rng w)) (ch_x22519_key ?ch)"
    using dh_agree [OF p(4)] by (simp add: s)
  ultimately show ?thesis by (simp add: client_handshake_def run_simps session_key_of_def)
qed

text \<open>The command's sealed frame and what follows it reach the server's dispatcher.\<close>

lemma server_opens:
  fixes v :: "'a client_state_scheme" and w :: "'b server_state_scheme"
  assumes "parties P cfg ip sk v w" "roundtrips (pc_Command P) cmd" "sealed_fits (encoding (pc_Command P) cmd)" "length n = 12"
    "inp w = client_opening P sk v w @ sealed_frame P (shared_key P v w) n (encoding (pc_Command P) cmd) @ rest"
  shows "\<exists>q. handle_connection P cfg cip w = serve_command P cfg cip (clock w 0) (shared_key P v w) (ed_public P sk) cmd
    (opened P cfg (client_hello_of P (rng v)) rest q w)"
proof -
  have "connection_opens P cfg (client_hello_of P (rng v)) (ed_sign P sk (challenge_of P (rng w))) (ed_public P sk) n cmd rest w"
    using assms by (auto simp: connection_opens_def parties_def ed_ok_def client_opening_def client_packet_def)
  then show ?thesis by (rule connection_run)
qed

section \<open>Passing the rate limiter\<close>

text \<open>
  The limiter lets the command through; \<open>c\<close> and \<open>l\<close> are the clock and the limiter afterwards.
\<close>

definition gate :: "config \<Rightarrow> ip_addr option \<Rightarrow> Command \<Rightarrow> ('a server_state_scheme, bool) io" where
  "gate cfg cip cmd = (case cip of None \<Rightarrow> ret True | Some ip \<Rightarrow> limiter_allows cfg ip (command_cost cmd))"

definition admitted :: "config \<Rightarrow> ip_addr option \<Rightarrow> Command \<Rightarrow> (nat \<Rightarrow> nat) \<Rightarrow> RateLimiter \<Rightarrow> 'a server_state_scheme \<Rightarrow> bool" where
  "admitted cfg cip cmd c l w \<longleftrightarrow>
     gate cfg cip cmd (w\<lparr>clock := (\<lambda>i. clock w (Suc i))\<rparr>) = (Ok True, w\<lparr>clock := c, sv_limiter := l\<rparr>)"

lemma limiter_frame:
  fixes w :: "'a server_state_scheme"
  obtains b c l where "\<forall>u :: 'a server_state_scheme. clock u = clock w \<longrightarrow> sv_limiter u = sv_limiter w \<longrightarrow>
     limiter_allows cfg ip cost u = (Ok b, u\<lparr>clock := c, sv_limiter := l\<rparr>)"
proof (cases "rl_buckets (sv_limiter w) ip")
  case None
  obtain b l where x: "is_allowed_cost (cfg_rnd cfg) (clock w 0) (clock w (Suc 0)) ip cost (sv_limiter w) = (b, l)" by force
  show thesis
    by (rule that [where b = b and c = "\<lambda>i. clock w (Suc (Suc i))" and l = l])
       (simp add: limiter_allows_def seq_def get_state_def instant_now_def None x)
next
  case (Some k)
  obtain b l where x: "is_allowed_cost (cfg_rnd cfg) 0 (clock w 0) ip cost (sv_limiter w) = (b, l)" by force
  show thesis
    by (rule that [where b = b and c = "\<lambda>i. clock w (Suc i)" and l = l])
       (simp add: limiter_allows_def seq_def get_state_def instant_now_def ret_def Some x)
qed

lemma gate_frame:
  fixes w u :: "'a server_state_scheme"
  assumes "admitted cfg cip cmd c l w" "clock u = (\<lambda>i. clock w (Suc i))" "sv_limiter u = sv_limiter w"
  shows "gate cfg cip cmd u = (Ok True, u\<lparr>clock := c, sv_limiter := l\<rparr>)"
proof (cases cip)
  case None
  with assms show ?thesis by (cases u; cases w) (auto simp: admitted_def gate_def ret_def)
next
  case (Some ip)
  let ?w = "w\<lparr>clock := (\<lambda>i. clock w (Suc i))\<rparr>"
  obtain b c' l' where x: "\<forall>u :: 'a server_state_scheme. clock u = clock ?w \<longrightarrow> sv_limiter u = sv_limiter ?w \<longrightarrow>
      limiter_allows cfg ip (command_cost cmd) u = (Ok b, u\<lparr>clock := c', sv_limiter := l'\<rparr>)"
    by (rule limiter_frame [of ?w cfg ip "command_cost cmd"])
  have "limiter_allows cfg ip (command_cost cmd) ?w = (Ok b, w\<lparr>clock := c', sv_limiter := l'\<rparr>)" by (simp add: x)
  with assms(1) Some have y: "b" "w\<lparr>clock := c', sv_limiter := l'\<rparr> = w\<lparr>clock := c, sv_limiter := l\<rparr>"
    by (simp_all add: admitted_def gate_def)
  from y(2) have "clock (w\<lparr>clock := c', sv_limiter := l'\<rparr>) = clock (w\<lparr>clock := c, sv_limiter := l\<rparr>)"
    "sv_limiter (w\<lparr>clock := c', sv_limiter := l'\<rparr>) = sv_limiter (w\<lparr>clock := c, sv_limiter := l\<rparr>)" by simp_all
  then have "c' = c" "l' = l" by simp_all
  moreover have "limiter_allows cfg ip (command_cost cmd) u = (Ok b, u\<lparr>clock := c', sv_limiter := l'\<rparr>)"
    using x assms(2,3) by simp
  ultimately show ?thesis using Some y(1) by (simp add: gate_def)
qed

lemma admitted_run:
  fixes w u :: "'a server_state_scheme"
  assumes "admitted cfg cip cmd c l w" "clock u = (\<lambda>i. clock w (Suc i))" "sv_limiter u = sv_limiter w"
  shows "serve_command P cfg cip ts key ck cmd u = run_command P cfg ts key ck cmd (u\<lparr>clock := c, sv_limiter := l\<rparr>)"
  using gate_frame [OF assms] by (simp add: serve_command_def gate_def seq_def)

section \<open>An upload from end to end\<close>

text \<open>The server's random source once the handshake is over, and the nonces of its sealed frames.\<close>

definition rng_after :: "'a conn_scheme \<Rightarrow> nat \<Rightarrow> byte" where
  "rng_after w = skip_rng 64 (skip_rng 32 (skip_rng 32 (rng w)))"

text \<open>
  Everything the two sides exchange can be carried, and each takes what the other one sends;
  \<open>elapsed\<close> is the time the server reports.
\<close>

definition upload_carried :: "prims \<Rightarrow> config \<Rightarrow> UploadHeader \<Rightarrow> nat \<Rightarrow> nat \<Rightarrow> 'a conn_scheme \<Rightarrow> 'b conn_scheme \<Rightarrow> bool" where
  "upload_carried P cfg h n elapsed v w \<longleftrightarrow>
     roundtrips (pc_Command P) (Command.Upload h) \<and> sealed_fits (encoding (pc_Command P) (Command.Upload h)) \<and>
     roundtrips (pc_MetadataFile P) (metadata_of P h) \<and>
     roundtrips (pc_UploadResponse P) (upload_response P h elapsed) \<and>
     sealed_fits (1 # encoding (pc_UploadResponse P) (upload_response P h elapsed)) \<and>
     writable (136 + length (encoding (pc_ClientHello P) (client_hello_of P (rng v))) +
       length (encoding (pc_Command P) (Command.Upload h)) + n * SEALED_CHUNK) v \<and>
     writable (138 + length (encoding (pc_ServerHello P) (server_hello_of P (cfg_pri_key cfg) (cfg_pub_key cfg) (client_hello_of P (rng v)) (rng w))) +
       length (encoding (pc_UploadResponse P) (upload_response P h elapsed))) w"

lemma parties_inp [simp]: "parties P cfg ip sk (v\<lparr>inp := i\<rparr>) w = parties P cfg ip sk v w" "parties P cfg ip sk v (w\<lparr>inp := j\<rparr>) = parties P cfg ip sk v w"
  by (simp_all add: parties_def writable_def)

lemma parties_channel: "parties P cfg ip sk v w \<Longrightarrow> channel_ok P (shared_key P v w)"
  by (rule channel_session) (simp_all add: parties_def)

lemma opened_fields [simp]:
  "inp (opened P cfg ch rest q w) = rest" "disk (opened P cfg ch rest q w) = disk w" "sv_locks (opened P cfg ch rest q w') = sv_locks w'"
  "sv_tracker (opened P cfg ch rest q w') = sv_tracker w'" "sv_limiter (opened P cfg ch rest q w') = sv_limiter w'"
  "clock (opened P cfg ch rest q w) = (\<lambda>i. clock w (Suc i))" "rng (opened P cfg ch rest q w) = rng_after w"
  "out_buf (opened P cfg ch rest q w) = []"
  "out_room (opened P cfg ch rest q w) = out_room w - (72 + (length (out_buf w) +
     length (encoding (pc_ServerHello P) (server_hello_of P (cfg_pri_key cfg) (cfg_pub_key cfg) ch (rng w)))))"
  by (simp_all add: opened_def after_handshake_def Let_def rng_after_def)

lemma wire_opened: "wire (opened P cfg (client_hello_of P (rng v)) rest q w) = wire w @ server_opening P cfg v w"
  by (simp add: opened_def after_handshake_def Let_def server_opening_def wire_def)

lemma flush_empty: "out_buf w = [] \<Longrightarrow> \<exists>w'. flush w = (Ok (), w') \<and> wire w' = wire w \<and> disk w' = disk w \<and> conn.more w' = conn.more w"
  by (simp add: flush_ok writable_def) (simp add: wire_def)


text \<open>What both sides have to send in the course of the upload, in order.\<close>

definition upload_answers :: "prims \<Rightarrow> config \<Rightarrow> UploadHeader \<Rightarrow> nat \<Rightarrow> 'a conn_scheme \<Rightarrow> 'b conn_scheme \<Rightarrow> bytes" where
  "upload_answers P cfg h elapsed v w = server_opening P cfg v w @
     sealed_frame P (shared_key P v w) (map (rng_after w) [0..<12]) [1] @
     sealed_frame P (shared_key P v w) (map (skip_rng 12 (rng_after w)) [0..<12])
       (1 # encoding (pc_UploadResponse P) (upload_response P h elapsed))"

text \<open>
  The client has the file \<open>d\<close> at \<open>p\<close> and sends it as object \<open>fid\<close>; the header is one the server takes,
  the limiter lets it through, and the object can be stored.
\<close>

definition upload_possible :: "prims \<Rightarrow> config \<Rightarrow> string \<Rightarrow> ip_addr option \<Rightarrow> bytes \<Rightarrow> path \<Rightarrow> bytes \<Rightarrow> UploadHeader \<Rightarrow>
    (nat \<Rightarrow> nat) \<Rightarrow> RateLimiter \<Rightarrow> 'a client_state_scheme \<Rightarrow> 'b server_state_scheme \<Rightarrow> bool" where
  "upload_possible P cfg ip cip sk p d h c l v w \<longleftrightarrow> parties P cfg ip sk v w \<and>
     fs_get (disk v) p = Some (FileNode d) \<and> READ_CHUNK_SIZE dvd length d \<and> length d < 2 ^ 64 \<and>
     path_file_name p = Some (uh_file_name h) \<and>
     h = client_upload_header P (uh_file_id h) (uh_file_key h) (uh_file_name h) d \<and>
     UploadHeader_validate (MAX_FILE_SIZE_GB (cfg_env cfg)) h = Ok () \<and>
     admitted cfg cip (Command.Upload h) c l w \<and>
     storable P cfg (ed_public P sk) (uh_file_key h) (uh_file_id h) (disk w) \<and> lock_available True (uh_file_id h) (sv_locks w) \<and>
     upload_carried P cfg h (length (chunks READ_CHUNK_SIZE d)) (c 0 - clock w 0) v w"

text \<open>The client's side, given the server's answers.\<close>

lemma upload_client_side:
  fixes v :: "'a client_state_scheme" and w :: "'b server_state_scheme"
  assumes "upload_possible P cfg ip cip sk p d h c l v w" "inp v = upload_answers P cfg h (c 0 - clock w 0) v w"
  obtains v' n s where "upload_client P (Ok ip) p (uh_file_key h) (uh_file_id h) sk v = (Ok (uh_file_id h), v')"
    "wire v' = wire v @ client_opening P sk v w @ sealed_frame P (shared_key P v w) n (encoding (pc_Command P) (Command.Upload h)) @ s"
    "\<forall>rest. sealed_stream P (shared_key P v w) d (s @ rest) rest" "length n = 12" "disk v' = disk v" "inp v' = []"
proof -
  let ?key = "shared_key P v w" and ?rsp = "upload_response P h (c 0 - clock w 0)"
  let ?rest = "sealed_frame P ?key (map (rng_after w) [0..<12]) [1] @
    sealed_frame P ?key (map (skip_rng 12 (rng_after w)) [0..<12]) (1 # encoding (pc_UploadResponse P) ?rsp)"
  have a: "parties P cfg ip sk v w" "fs_get (disk v) p = Some (FileNode d)" "READ_CHUNK_SIZE dvd length d" "path_file_name p = Some (uh_file_name h)"
    "h = client_upload_header P (uh_file_id h) (uh_file_key h) (uh_file_name h) d"
    "upload_carried P cfg h (length (chunks READ_CHUNK_SIZE d)) (c 0 - clock w 0) v w"
    using assms(1) unfolding upload_possible_def by blast+
  have i: "inp v = server_opening P cfg v w @ ?rest" using assms(2) by (simp add: upload_answers_def)
  let ?v1 = "client_after_handshake P sk (challenge_of P (rng w)) ?rest v"
  have hs: "client_handshake P (Ok ip) sk v = (Ok ?key, ?v1)" by (rule client_opens [OF a(1) i])
  have sha: "sha_ok P" using a(1) by (simp add: parties_def)
  have wr: "writable (32 + length (encoding (pc_Command P) (Command.Upload h)) + length (chunks READ_CHUNK_SIZE d) * SEALED_CHUNK) ?v1"
    using a(6) by (auto simp: upload_carried_def writable_def client_after_handshake_def Let_def)
  have cmd: "Command.Upload h = Command.Upload (client_upload_header P (uh_file_id h) (uh_file_key h) (uh_file_name h) d)" using a(5) by simp
  have e: "roundtrips (pc_Command P) (Command.Upload h)" "sealed_fits (encoding (pc_Command P) (Command.Upload h))"
    "roundtrips (pc_UploadResponse P) ?rsp" "sealed_fits (1 # encoding (pc_UploadResponse P) ?rsp)"
    using a(6) by (simp_all add: upload_carried_def)
  obtain v' s where "upload_client P (Ok ip) p (uh_file_key h) (uh_file_id h) sk v = (Ok (ur_file_id ?rsp), v')"
    "wire v' = wire ?v1 @ sealed_frame P ?key (next_nonce ?v1) (encoding (pc_Command P) (Command.Upload h)) @ s"
    "\<forall>rest. sealed_stream P ?key d (s @ rest) rest" "disk v' = disk v" "inp v' = []"
    by (rule upload_client_run [OF parties_channel [OF a(1)] sha hs _ a(2,4,3) cmd e _ _ _ wr]) simp_all
  then show thesis
    by (intro that [of v' "next_nonce ?v1" s]) (simp_all add: client_opening_def upload_response_def)
qed

text \<open>The server's side, given what the client sends.\<close>

lemma upload_server_side:
  fixes v :: "'a client_state_scheme" and w :: "'b server_state_scheme"
  assumes "upload_possible P cfg ip cip sk p d h c l v w" "length n = 12" "sealed_stream P (shared_key P v w) d s rest"
    "inp w = client_opening P sk v w @ sealed_frame P (shared_key P v w) n (encoding (pc_Command P) (Command.Upload h)) @ s"
  shows "\<exists>w'. handle_connection P cfg cip w = (Ok (), w') \<and>
    wire w' = wire w @ upload_answers P cfg h (c 0 - clock w 0) v w \<and>
    object_left P cfg (ed_public P sk) h (disk w) (Some (FileNode d)) (Some (FileNode (encoding (pc_MetadataFile P) (metadata_of P h)))) (disk w') \<and>
    lk_map (sv_locks w') = (lk_map (sv_locks w))(uh_file_id h := None) \<and>
    sv_tracker w' = log_upload (cfg_rnd cfg) (uh_file_size h) (sv_tracker w)"
proof -
  let ?key = "shared_key P v w" and ?ck = "ed_public P sk" and ?rsp = "upload_response P h (c 0 - clock w 0)"
  have a: "parties P cfg ip sk v w" "length d < 2 ^ 64" "h = client_upload_header P (uh_file_id h) (uh_file_key h) (uh_file_name h) d"
    "UploadHeader_validate (MAX_FILE_SIZE_GB (cfg_env cfg)) h = Ok ()" "admitted cfg cip (Command.Upload h) c l w"
    "storable P cfg ?ck (uh_file_key h) (uh_file_id h) (disk w)" "lock_available True (uh_file_id h) (sv_locks w)"
    "upload_carried P cfg h (length (chunks READ_CHUNK_SIZE d)) (c 0 - clock w 0) v w"
    using assms(1) unfolding upload_possible_def by blast+
  have e: "roundtrips (pc_Command P) (Command.Upload h)" "sealed_fits (encoding (pc_Command P) (Command.Upload h))"
    "roundtrips (pc_MetadataFile P) (metadata_of P h)" "roundtrips (pc_UploadResponse P) ?rsp" "sealed_fits (1 # encoding (pc_UploadResponse P) ?rsp)"
    using a(8) by (simp_all add: upload_carried_def)
  obtain q where q: "handle_connection P cfg cip w = serve_command P cfg cip (clock w 0) ?key ?ck (Command.Upload h)
      (opened P cfg (client_hello_of P (rng v)) s q w)"
    using server_opens [OF a(1) e(1,2) assms(2,4)] by blast
  let ?u = "(opened P cfg (client_hello_of P (rng v)) s q w)\<lparr>clock := c, sv_limiter := l\<rparr>"
  have run: "handle_connection P cfg cip w = seq (handle_upload P cfg h (clock w 0) ?key ?ck) (\<lambda>_. flush) ?u"
    unfolding q by (simp add: admitted_run [OF a(5)] run_command_def seq_attempt_lift a(4))
  have h: "uh_file_hash h = content_hash P d" "length d = unat (uh_file_size h)"
    using a(2) by (subst a(3), simp add: client_upload_header_def unat_of_nat)+
  have arr: "upload_arrives P cfg ?key ?ck h d rest ?u"
    using parties_channel [OF a(1)] a(6,7) h(2) assms(3) by (simp add: upload_arrives_def)
  have wr: "writable (66 + length (encoding (pc_UploadResponse P) (upload_response P h (clock ?u 0 - clock w 0)))) ?u"
    using a(8) by (auto simp: upload_carried_def writable_def)
  obtain w' where w': "handle_upload P cfg h (clock w 0) ?key ?ck ?u = (Ok (), w')"
    "object_left P cfg ?ck h (disk ?u) (Some (FileNode d)) (Some (FileNode (encoding (pc_MetadataFile P) (metadata_of P h)))) (disk w')"
    "wire w' = wire ?u @ sealed_frame P ?key (next_nonce ?u) [1] @
      sealed_frame P ?key (next_nonce (?u\<lparr>rng := skip_rng 12 (rng ?u)\<rparr>)) (1 # encoding (pc_UploadResponse P) (upload_response P h (clock ?u 0 - clock w 0)))"
    "out_buf w' = []" "lk_map (sv_locks w') = (lk_map (sv_locks ?u))(uh_file_id h := None)"
    "sv_tracker w' = log_upload (cfg_rnd cfg) (uh_file_size h) (sv_tracker ?u)"
    using handle_upload_stores [OF arr h(1) e(3) _ _ wr] e(4,5) by auto
  obtain w'' where f: "flush w' = (Ok (), w'')" "wire w'' = wire w'" "disk w'' = disk w'" "conn.more w'' = conn.more w'"
    using flush_empty [OF w'(4)] by blast
  have "sv_locks w'' = sv_locks w'" "sv_tracker w'' = sv_tracker w'" using f(4) by (cases w''; cases w'; simp)+
  moreover have "wire ?u = wire w @ server_opening P cfg v w"
    using wire_opened [of P cfg v s q w] by (simp add: wire_def)
  ultimately show ?thesis
    using run w' f by (simp add: seq_def upload_answers_def next_nonce_def)
qed

lemma upload_carried_inp:
  "upload_carried P cfg h n e (v\<lparr>inp := i\<rparr>) w = upload_carried P cfg h n e v w"
  "upload_carried P cfg h n e v (w\<lparr>inp := j\<rparr>) = upload_carried P cfg h n e v w"
  by (simp_all add: upload_carried_def writable_def)

lemma admitted_frame:
  fixes w u :: "'a server_state_scheme"
  assumes "clock u = clock w" "sv_limiter u = sv_limiter w"
  shows "admitted cfg cip cmd c l u = admitted cfg cip cmd c l w"
proof -
  have "admitted cfg cip cmd c l u'"
    if "admitted cfg cip cmd c l u" "clock u' = clock u" "sv_limiter u' = sv_limiter u" for u u' :: "'a server_state_scheme"
    using gate_frame [OF that(1)] that(2,3) by (simp add: admitted_def)
  from this [of w u] this [of u w] assms show ?thesis by auto
qed

lemma admitted_inp [simp]:
  "admitted cfg cip cmd c l (w\<lparr>inp := j\<rparr>) = admitted cfg cip cmd c l w"
  "admitted cfg cip cmd c l (w\<lparr>disk := f\<rparr>) = admitted cfg cip cmd c l w"
  by (rule admitted_frame; simp)+

lemma upload_possible_inp [simp]:
  "upload_possible P cfg ip cip sk p d h c l (v\<lparr>inp := i\<rparr>) w = upload_possible P cfg ip cip sk p d h c l v w"
  "upload_possible P cfg ip cip sk p d h c l v (w\<lparr>inp := j\<rparr>) = upload_possible P cfg ip cip sk p d h c l v w"
  unfolding upload_possible_def by (simp_all add: upload_carried_inp admitted_inp)

lemma upload_exchange:
  fixes v :: "'a client_state_scheme" and w :: "'b server_state_scheme"
  assumes "upload_possible P cfg ip cip sk p d h c l v w"
  obtains X v' w' where "upload_client P (Ok ip) p (uh_file_key h) (uh_file_id h) sk (v\<lparr>inp := upload_answers P cfg h (c 0 - clock w 0) v w\<rparr>) =
      (Ok (uh_file_id h), v')" "wire v' = wire v @ X" "disk v' = disk v" "handle_connection P cfg cip (w\<lparr>inp := X\<rparr>) = (Ok (), w')"
    "wire w' = wire w @ upload_answers P cfg h (c 0 - clock w 0) v w"
    "object_left P cfg (ed_public P sk) h (disk w) (Some (FileNode d)) (Some (FileNode (encoding (pc_MetadataFile P) (metadata_of P h)))) (disk w')"
    "lk_map (sv_locks w') = (lk_map (sv_locks w))(uh_file_id h := None)"
    "sv_tracker w' = log_upload (cfg_rnd cfg) (uh_file_size h) (sv_tracker w)"
proof -
  let ?v = "v\<lparr>inp := upload_answers P cfg h (c 0 - clock w 0) v w\<rparr>"
  have pv: "upload_possible P cfg ip cip sk p d h c l ?v w" using assms by simp
  have iv: "inp ?v = upload_answers P cfg h (c 0 - clock w 0) ?v w" by (simp add: upload_answers_def server_opening_def)
  obtain v' n s where v': "upload_client P (Ok ip) p (uh_file_key h) (uh_file_id h) sk ?v = (Ok (uh_file_id h), v')"
    "wire v' = wire ?v @ client_opening P sk ?v w @ sealed_frame P (shared_key P ?v w) n (encoding (pc_Command P) (Command.Upload h)) @ s"
    "\<forall>rest. sealed_stream P (shared_key P ?v w) d (s @ rest) rest" "length n = 12" "disk v' = disk ?v"
    by (rule upload_client_side [OF pv iv])
  let ?X = "client_opening P sk v w @ sealed_frame P (shared_key P v w) n (encoding (pc_Command P) (Command.Upload h)) @ s" and ?k = "shared_key P v w"
  let ?w = "w\<lparr>inp := ?X\<rparr>"
  have pw: "upload_possible P cfg ip cip sk p d h c l v ?w" using assms by simp
  have "sealed_stream P ?k d (s @ []) []" using v'(3) by (simp del: append_Nil2)
  then have st: "sealed_stream P (shared_key P v ?w) d s []" by (simp add: session_key_of_def)
  have iw: "inp ?w = client_opening P sk v ?w @ sealed_frame P (shared_key P v ?w) n (encoding (pc_Command P) (Command.Upload h)) @ s"
    by (simp add: client_opening_def session_key_of_def)
  obtain w' where "handle_connection P cfg cip ?w = (Ok (), w')" "wire w' = wire ?w @ upload_answers P cfg h (c 0 - clock ?w 0) v ?w"
    "object_left P cfg (ed_public P sk) h (disk ?w) (Some (FileNode d)) (Some (FileNode (encoding (pc_MetadataFile P) (metadata_of P h)))) (disk w')"
    "lk_map (sv_locks w') = (lk_map (sv_locks ?w))(uh_file_id h := None)"
    "sv_tracker w' = log_upload (cfg_rnd cfg) (uh_file_size h) (sv_tracker ?w)"
    using upload_server_side [OF pw v'(4) st iw] by blast
  with v' show thesis
    by (intro that [of v' ?X w']) (simp_all add: client_opening_def upload_answers_def server_opening_def session_key_of_def rng_after_def wire_def)
qed

text \<open>
  C3. An upload from end to end: when the client that has the server's key on record uploads a file
  of a whole number of chunks, the client's function returns the file's id, the server's handler
  returns, each has been sent exactly what it read, the object is stored under the client's key with the
  file's name, size, hash and bytes, the client's files are untouched, the lock table has no entry for the
  file, and the upload is counted.
\<close>

theorem upload_session:
  fixes v :: "'a client_state_scheme" and w :: "'b server_state_scheme"
  assumes "upload_possible P cfg ip cip sk p d h c l v w"
  shows "\<exists>X Y v' w'. upload_client P (Ok ip) p (uh_file_key h) (uh_file_id h) sk (v\<lparr>inp := Y\<rparr>) = (Ok (uh_file_id h), v') \<and>
    handle_connection P cfg cip (w\<lparr>inp := X\<rparr>) = (Ok (), w') \<and> wire v' = wire v @ X \<and> wire w' = wire w @ Y \<and>
    stores P cfg (ed_public P sk) (uh_file_key h) (uh_file_id h) (metadata_of P h) d (disk w') \<and> disk v' = disk v \<and>
    lk_map (sv_locks w') = (lk_map (sv_locks w))(uh_file_id h := None) \<and>
    sv_tracker w' = log_upload (cfg_rnd cfg) (uh_file_size h) (sv_tracker w)"
proof -
  obtain X v' w' where "upload_client P (Ok ip) p (uh_file_key h) (uh_file_id h) sk (v\<lparr>inp := upload_answers P cfg h (c 0 - clock w 0) v w\<rparr>) =
      (Ok (uh_file_id h), v')" "wire v' = wire v @ X" "disk v' = disk v" "handle_connection P cfg cip (w\<lparr>inp := X\<rparr>) = (Ok (), w')"
    "wire w' = wire w @ upload_answers P cfg h (c 0 - clock w 0) v w"
    "object_left P cfg (ed_public P sk) h (disk w) (Some (FileNode d)) (Some (FileNode (encoding (pc_MetadataFile P) (metadata_of P h)))) (disk w')"
    "lk_map (sv_locks w') = (lk_map (sv_locks w))(uh_file_id h := None)"
    "sv_tracker w' = log_upload (cfg_rnd cfg) (uh_file_size h) (sv_tracker w)"
    by (rule upload_exchange [OF assms])
  moreover have "sha_ok P" "hex_ok P" using assms by (simp_all add: upload_possible_def parties_def)
  ultimately show ?thesis using object_left_stores by blast
qed

section \<open>A download from end to end\<close>

definition download_requests :: "prims \<Rightarrow> bytes \<Rightarrow> DownloadHeader \<Rightarrow> 'a conn_scheme \<Rightarrow> 'b conn_scheme \<Rightarrow> bytes" where
  "download_requests P sk h v w = client_opening P sk v w @
     sealed_frame P (shared_key P v w) (map (skip_rng 32 (skip_rng 32 (rng v))) [0..<12]) (encoding (pc_Command P) (Command.Download h))"

definition download_carried :: "prims \<Rightarrow> config \<Rightarrow> DownloadHeader \<Rightarrow> MetadataFile \<Rightarrow> nat \<Rightarrow> nat \<Rightarrow> 'a conn_scheme \<Rightarrow> 'b conn_scheme \<Rightarrow> bool" where
  "download_carried P cfg h m n elapsed v w \<longleftrightarrow>
     roundtrips (pc_Command P) (Command.Download h) \<and> sealed_fits (encoding (pc_Command P) (Command.Download h)) \<and>
     roundtrips (pc_MetadataFile P) m \<and>
     roundtrips (pc_DownloadResponse P) (download_response P m elapsed) \<and> sealed_fits (download_payload P m elapsed) \<and>
     writable (136 + length (encoding (pc_ClientHello P) (client_hello_of P (rng v))) + length (encoding (pc_Command P) (Command.Download h))) v \<and>
     writable (104 + length (encoding (pc_ServerHello P) (server_hello_of P (cfg_pri_key cfg) (cfg_pub_key cfg) (client_hello_of P (rng v)) (rng w))) +
       length (download_payload P m elapsed) + n * SEALED_CHUNK) w"

text \<open>Where the client puts the file.\<close>

definition download_target :: "path option \<Rightarrow> string \<Rightarrow> path" where
  "download_target output name = path_join (case output of Some dir \<Rightarrow> dir | None \<Rightarrow> []) name"

text \<open>The request is one the server takes, and the client can create the file, whatever the server's disk holds.\<close>

definition download_open :: "prims \<Rightarrow> config \<Rightarrow> string \<Rightarrow> ip_addr option \<Rightarrow> bytes \<Rightarrow> path option \<Rightarrow> DownloadHeader \<Rightarrow> MetadataFile \<Rightarrow> nat \<Rightarrow>
    (nat \<Rightarrow> nat) \<Rightarrow> RateLimiter \<Rightarrow> 'a client_state_scheme \<Rightarrow> 'b server_state_scheme \<Rightarrow> bool" where
  "download_open P cfg ip cip sk output h m n c l v w \<longleftrightarrow> parties P cfg ip sk v w \<and>
     DownloadHeader_validate h = Ok () \<and> admitted cfg cip (Command.Download h) c l w \<and>
     lock_available False (dh_file_id h) (sv_locks w) \<and>
     (\<exists>f0. file_write (download_target output (md_filename m)) [] (disk v) = Ok f0) \<and>
     download_carried P cfg h m n (c 0 - clock w 0) v w"

text \<open>The server has the object \<open>d\<close> with metadata \<open>m\<close> under the client's key.\<close>

definition download_possible :: "prims \<Rightarrow> config \<Rightarrow> string \<Rightarrow> ip_addr option \<Rightarrow> bytes \<Rightarrow> path option \<Rightarrow> DownloadHeader \<Rightarrow> MetadataFile \<Rightarrow> bytes \<Rightarrow>
    (nat \<Rightarrow> nat) \<Rightarrow> RateLimiter \<Rightarrow> 'a client_state_scheme \<Rightarrow> 'b server_state_scheme \<Rightarrow> bool" where
  "download_possible P cfg ip cip sk output h m d c l v w \<longleftrightarrow>
     stores P cfg (ed_public P sk) (dh_file_key h) (dh_file_id h) m d (disk w) \<and>
     md_file_size m = of_nat (length d) \<and> md_file_hash m = content_hash P d \<and>
     READ_CHUNK_SIZE dvd length d \<and> length d < 2 ^ 64 \<and>
     download_open P cfg ip cip sk output h m (length (chunks READ_CHUNK_SIZE d)) c l v w"

lemma download_server_side:
  fixes v :: "'a client_state_scheme" and w :: "'b server_state_scheme"
  assumes "download_possible P cfg ip cip sk output h m d c l v w" "inp w = download_requests P sk h v w"
  shows "\<exists>w' n s. handle_connection P cfg cip w = (Ok (), w') \<and> length n = 12 \<and>
    wire w' = wire w @ server_opening P cfg v w @ sealed_frame P (shared_key P v w) n (download_payload P m (c 0 - clock w 0)) @ s \<and>
    sealed_stream P (shared_key P v w) d s [] \<and> disk w' = disk w \<and>
    sv_tracker w' = log_download (cfg_rnd cfg) (md_file_size m) (sv_tracker w)"
proof -
  let ?key = "shared_key P v w" and ?ck = "ed_public P sk" and ?n = "map (skip_rng 32 (skip_rng 32 (rng v))) [0..<12]"
  have a: "parties P cfg ip sk v w" "stores P cfg ?ck (dh_file_key h) (dh_file_id h) m d (disk w)" "md_file_hash m = content_hash P d"
    "READ_CHUNK_SIZE dvd length d" "DownloadHeader_validate h = Ok ()" "admitted cfg cip (Command.Download h) c l w"
    "lock_available False (dh_file_id h) (sv_locks w)" "download_carried P cfg h m (length (chunks READ_CHUNK_SIZE d)) (c 0 - clock w 0) v w"
    using assms(1) unfolding download_possible_def download_open_def by blast+
  have e: "roundtrips (pc_Command P) (Command.Download h)" "sealed_fits (encoding (pc_Command P) (Command.Download h))"
    using a(8) by (simp_all add: download_carried_def)
  have i: "inp w = client_opening P sk v w @ sealed_frame P ?key ?n (encoding (pc_Command P) (Command.Download h)) @ []"
    using assms(2) by (simp add: download_requests_def)
  obtain q where q: "handle_connection P cfg cip w = serve_command P cfg cip (clock w 0) ?key ?ck (Command.Download h)
      (opened P cfg (client_hello_of P (rng v)) [] q w)"
    using server_opens [OF a(1) e _ i] by auto
  let ?u = "(opened P cfg (client_hello_of P (rng v)) [] q w)\<lparr>clock := c, sv_limiter := l\<rparr>"
  have run: "handle_connection P cfg cip w = seq (handle_download P cfg h (clock w 0) ?key ?ck) (\<lambda>_. flush) ?u"
    unfolding q by (simp add: admitted_run [OF a(6)] run_command_def seq_attempt_lift a(5))
  have "sha_ok P" "hex_ok P" using a(1) by (simp_all add: parties_def)
  then obtain x where "str_prefix 8 (md_file_hash m) = Ok x" unfolding a(3) using str_prefix_hash by blast
  then have ready: "download_ready P cfg ?key ?ck h m d (clock ?u 0 - clock w 0) (length (chunks READ_CHUNK_SIZE d) * SEALED_CHUNK) ?u"
    using parties_channel [OF a(1)] a(2,8) by (auto simp: download_ready_def download_carried_def writable_def)
  have lk: "lock_available False (dh_file_id h) (sv_locks ?u)" using a(7) by simp
  obtain w' s where w': "handle_download P cfg h (clock w 0) ?key ?ck ?u = (Ok (), w')"
    "out_sent w' = wire ?u @ sealed_frame P ?key (next_nonce ?u) (download_payload P m (clock ?u 0 - clock w 0)) @ s"
    "sealed_stream P ?key d s []" "out_buf w' = []" "sv_tracker w' = log_download (cfg_rnd cfg) (md_file_size m) (sv_tracker ?u)"
    using handle_download_delivers [OF ready lk a(4)] by blast
  have dk: "disk w' = disk ?u" using stepsD [OF handle_download_reads] w'(1) by (metis snd_conv)
  obtain w'' where f: "flush w' = (Ok (), w'')" "wire w'' = wire w'" "disk w'' = disk w'" "conn.more w'' = conn.more w'"
    using flush_empty [OF w'(4)] by blast
  have "sv_tracker w'' = sv_tracker w'" using f(4) by (cases w''; cases w'; simp)
  moreover have "wire ?u = wire w @ server_opening P cfg v w"
    using wire_opened [of P cfg v "[]" q w] by (simp add: wire_def)
  moreover have "wire w' = out_sent w'" using w'(4) by (simp add: wire_def)
  ultimately show ?thesis
    using run w' f dk by (intro exI [of _ w''] exI [of _ "next_nonce ?u"] exI [of _ s]) (simp add: seq_def)
qed

lemma client_after_rng: "rng (client_after_handshake P sk chal rest v) = skip_rng 32 (skip_rng 32 (rng v))"
  by (simp add: client_after_handshake_def Let_def)

lemma download_client_side:
  fixes v :: "'a client_state_scheme" and w :: "'b server_state_scheme"
  assumes "download_possible P cfg ip cip sk output h m d c l v w" "length n = 12" "sealed_stream P (shared_key P v w) d s []"
    "inp v = server_opening P cfg v w @ sealed_frame P (shared_key P v w) n (download_payload P m (c 0 - clock w 0)) @ s"
  shows "\<exists>v'. download_client P (Ok ip) (dh_file_id h) (dh_file_key h) output sk v = (Ok (download_target output (md_filename m)), v') \<and>
    wire v' = wire v @ download_requests P sk h v w \<and> inp v' = [] \<and>
    (\<forall>q. fs_get (disk v') q = (if q = download_target output (md_filename m) then Some (FileNode d) else fs_get (disk v) q))"
proof -
  let ?key = "shared_key P v w" and ?rsp = "download_response P m (c 0 - clock w 0)"
  let ?rest = "sealed_frame P ?key n (download_payload P m (c 0 - clock w 0)) @ s"
  let ?v1 = "client_after_handshake P sk (challenge_of P (rng w)) ?rest v"
  have a: "parties P cfg ip sk v w" "md_file_size m = of_nat (length d)" "md_file_hash m = content_hash P d" "length d < 2 ^ 64"
    "download_carried P cfg h m (length (chunks READ_CHUNK_SIZE d)) (c 0 - clock w 0) v w"
    using assms(1) unfolding download_possible_def download_open_def by blast+
  obtain f0 where f0: "file_write (download_target output (md_filename m)) [] (disk v) = Ok f0"
    using assms(1) by (auto simp: download_possible_def download_open_def)
  have hs: "client_handshake P (Ok ip) sk v = (Ok ?key, ?v1)" by (rule client_opens [OF a(1) assms(4)])
  have sha: "sha_ok P" using a(1) by (simp add: parties_def)
  have e: "roundtrips (pc_Command P) (Command.Download h)" "sealed_fits (encoding (pc_Command P) (Command.Download h))"
    "roundtrips (pc_DownloadResponse P) ?rsp" "sealed_fits (1 # encoding (pc_DownloadResponse P) ?rsp)"
    using a(5) by (simp_all add: download_carried_def download_payload_def)
  have cmd: "Command.Download h = Command.Download \<lparr>dh_file_id = dh_file_id h, dh_file_key = dh_file_key h\<rparr>" by simp
  have wr: "writable (32 + length (encoding (pc_Command P) (Command.Download h))) ?v1"
    using a(5) by (auto simp: download_carried_def writable_def client_after_handshake_def Let_def)
  have r: "dr_file_name ?rsp = md_filename m" "dr_file_hash ?rsp = content_hash P d" "length d = unat (dr_file_size ?rsp)"
    using a(2-4) by (simp_all add: download_response_def unat_of_nat)
  have fw: "file_write (path_join (case output of Some dir \<Rightarrow> dir | None \<Rightarrow> []) (dr_file_name ?rsp)) [] (disk v) = Ok f0"
    using f0 by (simp add: download_target_def r(1))
  obtain v' where "download_client P (Ok ip) (dh_file_id h) (dh_file_key h) output sk v =
      (Ok (path_join (case output of Some dir \<Rightarrow> dir | None \<Rightarrow> []) (dr_file_name ?rsp)), v')"
    "wire v' = wire ?v1 @ sealed_frame P ?key (next_nonce ?v1) (encoding (pc_Command P) (Command.Download h))"
    "\<forall>q. fs_get (disk v') q = (if q = path_join (case output of Some dir \<Rightarrow> dir | None \<Rightarrow> []) (dr_file_name ?rsp) then Some (FileNode d) else fs_get (disk v) q)"
    "inp v' = []"
    by (rule download_client_run [OF parties_channel [OF a(1)] sha hs _ cmd e assms(2) _ assms(3) r(3,2) fw wr]) (simp_all add: download_payload_def)
  then show ?thesis
    by (simp add: r(1) download_target_def client_opening_def download_requests_def next_nonce_def client_after_rng)
qed

lemma download_possible_inp [simp]:
  "download_possible P cfg ip cip sk out h m d c l (v\<lparr>inp := i\<rparr>) w = download_possible P cfg ip cip sk out h m d c l v w"
  "download_possible P cfg ip cip sk out h m d c l v (w\<lparr>inp := j\<rparr>) = download_possible P cfg ip cip sk out h m d c l v w"
  unfolding download_possible_def download_open_def by (simp_all add: download_carried_def writable_def admitted_inp)

lemma download_exchange:
  fixes v :: "'a client_state_scheme" and w :: "'b server_state_scheme"
  assumes "download_possible P cfg ip cip sk output h m d c l v w"
  shows "\<exists>X Y v' w'. download_client P (Ok ip) (dh_file_id h) (dh_file_key h) output sk (v\<lparr>inp := Y\<rparr>) =
      (Ok (download_target output (md_filename m)), v') \<and>
    handle_connection P cfg cip (w\<lparr>inp := X\<rparr>) = (Ok (), w') \<and> wire v' = wire v @ X \<and> wire w' = wire w @ Y \<and>
    (\<forall>q. fs_get (disk v') q = (if q = download_target output (md_filename m) then Some (FileNode d) else fs_get (disk v) q)) \<and>
    disk w' = disk w \<and> sv_tracker w' = log_download (cfg_rnd cfg) (md_file_size m) (sv_tracker w)"
proof -
  let ?X = "download_requests P sk h v w" and ?k = "shared_key P v w"
  let ?w = "w\<lparr>inp := ?X\<rparr>"
  have pw: "download_possible P cfg ip cip sk output h m d c l v ?w" using assms by simp
  have iw: "inp ?w = download_requests P sk h v ?w" by (simp add: download_requests_def client_opening_def session_key_of_def)
  obtain w' n s where w': "handle_connection P cfg cip ?w = (Ok (), w')" "length n = 12"
    "wire w' = wire ?w @ server_opening P cfg v ?w @ sealed_frame P (shared_key P v ?w) n (download_payload P m (c 0 - clock ?w 0)) @ s"
    "sealed_stream P (shared_key P v ?w) d s []" "disk w' = disk ?w" "sv_tracker w' = log_download (cfg_rnd cfg) (md_file_size m) (sv_tracker ?w)"
    using download_server_side [OF pw iw] by blast
  let ?Y = "server_opening P cfg v w @ sealed_frame P ?k n (download_payload P m (c 0 - clock w 0)) @ s"
  let ?v = "v\<lparr>inp := ?Y\<rparr>"
  have pv: "download_possible P cfg ip cip sk output h m d c l ?v w" using assms by simp
  have iv: "inp ?v = server_opening P cfg ?v w @ sealed_frame P (shared_key P ?v w) n (download_payload P m (c 0 - clock w 0)) @ s"
    by (simp add: server_opening_def)
  have sv: "sealed_stream P (shared_key P ?v w) d s []" using w'(4) by (simp add: session_key_of_def)
  obtain v' where v': "download_client P (Ok ip) (dh_file_id h) (dh_file_key h) output sk ?v = (Ok (download_target output (md_filename m)), v')"
    "wire v' = wire ?v @ download_requests P sk h ?v w"
    "\<forall>q. fs_get (disk v') q = (if q = download_target output (md_filename m) then Some (FileNode d) else fs_get (disk ?v) q)"
    using download_client_side [OF pv w'(2) sv iv] by blast
  have x: "wire v' = wire v @ ?X" using v'(2) by (simp add: download_requests_def client_opening_def wire_def)
  have y: "wire w' = wire w @ ?Y" using w'(3) by (simp add: server_opening_def session_key_of_def wire_def)
  show ?thesis
    by (rule exI [of _ ?X], rule exI [of _ ?Y], rule exI [of _ v'], rule exI [of _ w']) (use v' w' x y in simp)
qed

text \<open>
  C4. A download from end to end: when the client that has the server's key on record asks for an
  object the server stores under the client's key, with the size and hash its metadata give and a whole number
  of chunks, the client's function returns the path of a file that holds exactly the object's bytes,
  no other file of the client changes, the server's handler returns with its disk untouched, each
  has been sent exactly what it read, and the download is counted.
\<close>

theorem download_session:
  fixes v :: "'a client_state_scheme" and w :: "'b server_state_scheme"
  assumes "download_possible P cfg ip cip sk output h m d c l v w"
  shows "\<exists>X Y v' w'. download_client P (Ok ip) (dh_file_id h) (dh_file_key h) output sk (v\<lparr>inp := Y\<rparr>) =
      (Ok (download_target output (md_filename m)), v') \<and>
    handle_connection P cfg cip (w\<lparr>inp := X\<rparr>) = (Ok (), w') \<and> wire v' = wire v @ X \<and> wire w' = wire w @ Y \<and>
    (\<forall>q. fs_get (disk v') q = (if q = download_target output (md_filename m) then Some (FileNode d) else fs_get (disk v) q)) \<and>
    disk w' = disk w \<and> sv_tracker w' = log_download (cfg_rnd cfg) (md_file_size m) (sv_tracker w)"
  using assms by (rule download_exchange)

section \<open>What was uploaded can be downloaded\<close>

lemma download_open_disk: "download_open P cfg ip cip sk out h m n c l v (w\<lparr>disk := f\<rparr>) = download_open P cfg ip cip sk out h m n c l v w"
  by (simp add: download_open_def download_carried_def writable_def parties_def)

text \<open>
  C1. What a client uploads it gets back: after an upload that went through, a download of the same
  object over a later connection, to whatever server state holds the disk the upload left, returns a file
  with the name and exactly the bytes that were uploaded.
\<close>

theorem upload_download_roundtrip:
  fixes v v2 :: "'a client_state_scheme" and w w2 :: "'b server_state_scheme"
  assumes "upload_possible P cfg ip cip sk p d h c l v w"
    "download_open P cfg ip cip2 sk output \<lparr>dh_file_id = uh_file_id h, dh_file_key = uh_file_key h\<rparr> (metadata_of P h)
      (length (chunks READ_CHUNK_SIZE d)) c2 l2 v2 w2"
  shows "\<exists>X Y v' w' X2 Y2 v2' w2'.
    upload_client P (Ok ip) p (uh_file_key h) (uh_file_id h) sk (v\<lparr>inp := Y\<rparr>) = (Ok (uh_file_id h), v') \<and>
    handle_connection P cfg cip (w\<lparr>inp := X\<rparr>) = (Ok (), w') \<and> wire v' = wire v @ X \<and> wire w' = wire w @ Y \<and>
    download_client P (Ok ip) (uh_file_id h) (uh_file_key h) output sk (v2\<lparr>inp := Y2\<rparr>) =
      (Ok (download_target output (uh_file_name h)), v2') \<and>
    handle_connection P cfg cip2 (w2\<lparr>disk := disk w', inp := X2\<rparr>) = (Ok (), w2') \<and> wire v2' = wire v2 @ X2 \<and> wire w2' = wire w2 @ Y2 \<and>
    fs_get (disk v2') (download_target output (uh_file_name h)) = Some (FileNode d) \<and> disk w2' = disk w'"
proof -
  let ?h = "\<lparr>dh_file_id = uh_file_id h, dh_file_key = uh_file_key h\<rparr>" and ?ck = "ed_public P sk"
  have a: "h = client_upload_header P (uh_file_id h) (uh_file_key h) (uh_file_name h) d" "READ_CHUNK_SIZE dvd length d" "length d < 2 ^ 64"
    "sha_ok P" "hex_ok P"
    using assms(1) by (auto simp: upload_possible_def parties_def)
  obtain X v' w' where u: "upload_client P (Ok ip) p (uh_file_key h) (uh_file_id h) sk (v\<lparr>inp := upload_answers P cfg h (c 0 - clock w 0) v w\<rparr>) =
      (Ok (uh_file_id h), v')" "wire v' = wire v @ X" "handle_connection P cfg cip (w\<lparr>inp := X\<rparr>) = (Ok (), w')"
    "wire w' = wire w @ upload_answers P cfg h (c 0 - clock w 0) v w"
    "object_left P cfg ?ck h (disk w) (Some (FileNode d)) (Some (FileNode (encoding (pc_MetadataFile P) (metadata_of P h)))) (disk w')"
    by (rule upload_exchange [OF assms(1)])
  let ?w2 = "w2\<lparr>disk := disk w'\<rparr>"
  have m: "md_file_size (metadata_of P h) = of_nat (length d)" "md_file_hash (metadata_of P h) = content_hash P d" "md_filename (metadata_of P h) = uh_file_name h"
    using arg_cong [OF a(1), of uh_file_size] arg_cong [OF a(1), of uh_file_hash] by (simp_all add: metadata_of_def client_upload_header_def)
  have "download_possible P cfg ip cip2 sk output ?h (metadata_of P h) d c2 l2 v2 ?w2"
    using object_left_stores [OF a(4,5) u(5)] m a(2,3) assms(2) by (simp add: download_possible_def download_open_disk)
  from download_exchange [OF this] m(3) obtain X2 Y2 v2' w2' where
    "download_client P (Ok ip) (uh_file_id h) (uh_file_key h) output sk (v2\<lparr>inp := Y2\<rparr>) = (Ok (download_target output (uh_file_name h)), v2')"
    "handle_connection P cfg cip2 (?w2\<lparr>inp := X2\<rparr>) = (Ok (), w2')" "wire v2' = wire v2 @ X2" "wire w2' = wire ?w2 @ Y2"
    "fs_get (disk v2') (download_target output (uh_file_name h)) = Some (FileNode d)" "disk w2' = disk ?w2"
    by auto
  with u(1-4) show ?thesis
    by (intro exI [of _ X] exI [of _ "upload_answers P cfg h (c 0 - clock w 0) v w"] exI [of _ v'] exI [of _ w'] exI [of _ X2] exI [of _ Y2]
        exI [of _ v2'] exI [of _ w2']) (simp add: wire_def)
qed

section \<open>Concrete instances\<close>

text \<open>A file of 1 MiB, the smallest the server takes.\<close>

definition demo_content :: bytes where
  "demo_content = replicate 1048576 0"

definition demo_upload :: UploadHeader where
  "demo_upload = client_upload_header demo (replicate 32 CHR ''a'') ''k'' ''f'' demo_content"

definition demo_fetch :: DownloadHeader where
  "demo_fetch = \<lparr>dh_file_id = replicate 32 CHR ''a'', dh_file_key = ''k''\<rparr>"

definition demo_two :: prims where
  "demo_two = demo_hs\<lparr>pc_Command := table_codec [Command.Upload demo_upload, Command.Download demo_fetch],
     pc_MetadataFile := table_codec [metadata_of demo demo_upload],
     pc_UploadResponse := table_codec [upload_response demo demo_upload 0],
     pc_DownloadResponse := table_codec [download_response demo (metadata_of demo demo_upload) 0]\<rparr>"

definition demo_two_client :: "fs \<Rightarrow> client_state" where
  "demo_two_client f = demo_client_conn\<lparr>disk := f, inp := [], out_room := 2000000\<rparr>"

definition demo_two_server :: "fs \<Rightarrow> server_state" where
  "demo_two_server f = (demo_sv [])\<lparr>disk := f, out_room := 2000000\<rparr>"

lemma demo_two_fields: "disk (demo_two_client f) = f" "disk (demo_two_server g) = g" "sv_locks (demo_two_server g) = no_locks"
  "clock (demo_two_server g) = (\<lambda>_. 0)"
  by (simp_all add: demo_two_client_def demo_client_conn_def demo_two_server_def demo_sv_def)

lemma demo_two_laws: "ed_ok demo_two" "sha_ok demo_two" "hex_ok demo_two" "aead_ok demo_two" "dh_ok demo_two"
  by (rule demo_laws; simp add: demo_two_def demo_hs_def)+

lemma demo_two_codecs:
  "pc_ClientHello demo_two = table_codec [demo_ch]" "pc_ServerHello demo_two = table_codec [demo_sh]" "ed_public demo_two = pad 32"
  "pc_Command demo_two = table_codec [Command.Upload demo_upload, Command.Download demo_fetch]"
  "pc_MetadataFile demo_two = table_codec [metadata_of demo_two demo_upload]"
  "pc_UploadResponse demo_two = table_codec [upload_response demo_two demo_upload 0]"
  "pc_DownloadResponse demo_two = table_codec [download_response demo_two (metadata_of demo_two demo_upload) 0]"
  by (simp_all add: demo_two_def demo_hs_codecs metadata_of_def upload_response_def download_response_def)
     (simp_all add: demo_hs_def)

lemma demo_two_hellos:
  "client_hello_of demo_two (\<lambda>_. 1) = demo_ch" "server_hello_of demo_two [5] (pad 32 [5]) demo_ch (\<lambda>_. 2) = demo_sh"
  using demo_hs_hellos by (simp_all add: client_hello_of_def server_hello_of_def demo_two_def)

lemma table_codec_pair:
  "x \<noteq> y \<Longrightarrow> roundtrips (table_codec [x, y]) x" "x \<noteq> y \<Longrightarrow> roundtrips (table_codec [x, y]) y"
  "x \<noteq> y \<Longrightarrow> encoding (table_codec [x, y]) x = [0]" "x \<noteq> y \<Longrightarrow> encoding (table_codec [x, y]) y = [1]"
  by (auto simp: roundtrips_def encoding_def table_codec_def)

lemma demo_content_size: "length demo_content = 1048576" "length (chunks READ_CHUNK_SIZE demo_content) = 16"
  by (simp_all add: demo_content_def length_chunks READ_CHUNK_SIZE_def)

lemma demo_upload_fields:
  "uh_file_id demo_upload = replicate 32 CHR ''a''" "uh_file_name demo_upload = ''f''" "uh_file_key demo_upload = ''k''"
  "uh_file_size demo_upload = 1048576" "uh_file_hash demo_upload = content_hash demo_two demo_content"
  by (simp_all add: demo_upload_def client_upload_header_def demo_content_size)
     (simp add: content_hash_def demo_two_def demo_hs_def)

lemma demo_two_parties: "parties demo_two demo_srv_cfg ''127.0.0.1:3000'' sk (demo_two_client f) (demo_two_server g)"
  by (simp add: parties_def demo_two_laws demo_two_codecs demo_two_hellos demo_two_client_def demo_client_conn_def demo_two_server_def demo_sv_def
      demo_srv_cfg_def carried_def table_codec_single raw_fits_def writable_def)
     (simp add: demo_two_def demo_hs_def)

lemma demo_two_admitted: "admitted demo_srv_cfg None cmd (\<lambda>_. 0) (RateLimiter_init 20 10) (demo_two_server g)"
  by (simp add: admitted_def gate_def ret_def demo_two_server_def demo_sv_def)

lemma demo_two_upload:
  assumes "fs_get f [''f''] = Some (FileNode demo_content)"
  shows "upload_possible demo_two demo_srv_cfg ''127.0.0.1:3000'' None sk [''f''] demo_content demo_upload (\<lambda>_. 0) (RateLimiter_init 20 10)
     (demo_two_client f) (demo_two_server [])"
proof -
  have h: "demo_upload = client_upload_header demo_two (uh_file_id demo_upload) (uh_file_key demo_upload) (uh_file_name demo_upload) demo_content"
    by (simp add: client_upload_header_def demo_upload_fields) (simp add: demo_upload_def client_upload_header_def content_hash_def demo_two_def demo_hs_def)
  have v: "UploadHeader_validate (MAX_FILE_SIZE_GB (cfg_env demo_srv_cfg)) demo_upload = Ok ()"
    using length_content_hash [OF demo_two_laws(2,3), of demo_content]
    by (auto simp: UploadHeader_validate_def demo_upload_fields demo_srv_cfg_def demo_cfg_def MAX_FILE_SIZE_GB_def env_or_def)
  have c: "upload_carried demo_two demo_srv_cfg demo_upload 16 0 (demo_two_client f) (demo_two_server [])"
    by (simp add: upload_carried_def demo_two_codecs table_codec_pair table_codec_single sealed_fits_def writable_def demo_two_client_def
        demo_client_conn_def demo_two_server_def demo_sv_def demo_srv_cfg_def demo_two_hellos SEALED_CHUNK_def READ_CHUNK_SIZE_def NONCE_LEN_def TAG_LEN_def)
  have s: "storable demo_two demo_srv_cfg (ed_public demo_two sk) (uh_file_key demo_upload) (uh_file_id demo_upload) (disk (demo_two_server []))"
    by (simp add: storable_def demo_two_laws demo_two_server_def is_file_def path_is_dir_def fs_get_def list_ex_iff)
  have "READ_CHUNK_SIZE dvd length demo_content" by (simp add: demo_content_size READ_CHUNK_SIZE_def)
  with assms h v c s show ?thesis
    unfolding upload_possible_def using demo_two_parties demo_two_admitted demo_two_fields
    by (simp add: demo_content_size demo_upload_fields path_file_name_def lock_available_def no_locks_def fs_get_def)
qed

lemma demo_two_file: "fs_get [([''f''], FileNode demo_content)] [''f''] = Some (FileNode demo_content)"
  by (simp add: fs_get_def)

lemma demo_two_open:
  "download_open demo_two demo_srv_cfg ''127.0.0.1:3000'' None [6] None demo_fetch (metadata_of demo_two demo_upload) 16 (\<lambda>_. 0) (RateLimiter_init 20 10)
     (demo_two_client []) (demo_two_server g)"
proof -
  have "download_carried demo_two demo_srv_cfg demo_fetch (metadata_of demo_two demo_upload) 16 0 (demo_two_client []) (demo_two_server g)"
    by (simp add: download_carried_def demo_two_codecs table_codec_pair table_codec_single sealed_fits_def writable_def demo_two_client_def download_payload_def
        demo_client_conn_def demo_two_server_def demo_sv_def demo_srv_cfg_def demo_two_hellos SEALED_CHUNK_def READ_CHUNK_SIZE_def NONCE_LEN_def TAG_LEN_def)
  moreover have "\<exists>f0. file_write (download_target None (md_filename (metadata_of demo_two demo_upload))) [] [] = Ok f0"
    by (simp add: file_write_def download_target_def metadata_of_def demo_upload_fields path_join_def components_def path_is_dir_def fs_get_def)
  ultimately show ?thesis
    unfolding download_open_def using demo_two_parties demo_two_admitted demo_two_fields
    by (simp add: DownloadHeader_validate_def demo_fetch_def lock_available_def no_locks_def)
qed

theorem upload_session_witness:
  "\<exists>X Y v' w'. upload_client demo_two (Ok ''127.0.0.1:3000'') [''f''] ''k'' (replicate 32 CHR ''a'') [6]
      ((demo_two_client [([''f''], FileNode demo_content)])\<lparr>inp := Y\<rparr>) = (Ok (replicate 32 CHR ''a''), v') \<and>
    handle_connection demo_two demo_srv_cfg None ((demo_two_server [])\<lparr>inp := X\<rparr>) = (Ok (), w') \<and>
    stores demo_two demo_srv_cfg (pad 32 [6]) ''k'' (replicate 32 CHR ''a'') (metadata_of demo_two demo_upload) demo_content (disk w')"
  using upload_session [OF demo_two_upload [OF demo_two_file]] unfolding demo_upload_fields demo_two_codecs(3) by blast

text \<open>The disk of a server that stores the object.\<close>

definition demo_two_disk :: fs where
  "demo_two_disk = [(user_dir demo_two [''s''] (pad 32 [6]) ''k'', DirNode),
     (object_path demo_two [''s''] (pad 32 [6]) ''k'' (replicate 32 CHR ''a'') ''.file'', FileNode demo_content),
     (object_path demo_two [''s''] (pad 32 [6]) ''k'' (replicate 32 CHR ''a'') ''.meta'', FileNode [0])]"

lemma demo_two_download:
  "download_possible demo_two demo_srv_cfg ''127.0.0.1:3000'' None [6] None demo_fetch (metadata_of demo_two demo_upload) demo_content (\<lambda>_. 0)
     (RateLimiter_init 20 10) (demo_two_client []) (demo_two_server demo_two_disk)"
proof -
  have "stores demo_two demo_srv_cfg (pad 32 [6]) ''k'' (replicate 32 CHR ''a'') (metadata_of demo_two demo_upload) demo_content demo_two_disk"
    by (simp add: stores_def demo_srv_cfg_def demo_cfg_def demo_two_disk_def fs_get_def path_exists_def demo_two_codecs table_codec_single
        object_path_plain [OF demo_two_laws(3,2)] user_dir_plain [OF demo_two_laws(3,2)])
  moreover have "READ_CHUNK_SIZE dvd length demo_content" by (simp add: demo_content_size READ_CHUNK_SIZE_def)
  ultimately show ?thesis
    using demo_two_open by (simp add: download_possible_def demo_two_codecs demo_fetch_def demo_two_fields demo_content_size demo_upload_fields metadata_of_def)
qed

lemma demo_two_target: "download_target None (md_filename (metadata_of demo_two demo_upload)) = [''f'']" "download_target None ''f'' = [''f'']"
  by (simp_all add: download_target_def metadata_of_def demo_upload_fields path_join_def components_def)

theorem download_session_witness:
  "\<exists>X Y v' w'. download_client demo_two (Ok ''127.0.0.1:3000'') (replicate 32 CHR ''a'') ''k'' None [6] ((demo_two_client [])\<lparr>inp := Y\<rparr>) =
      (Ok [''f''], v') \<and>
    handle_connection demo_two demo_srv_cfg None ((demo_two_server demo_two_disk)\<lparr>inp := X\<rparr>) = (Ok (), w') \<and>
    fs_get (disk v') [''f''] = Some (FileNode demo_content)"
proof -
  have f: "dh_file_id demo_fetch = replicate 32 CHR ''a''" "dh_file_key demo_fetch = ''k''" by (simp_all add: demo_fetch_def)
  obtain X Y v' w' where "download_client demo_two (Ok ''127.0.0.1:3000'') (replicate 32 CHR ''a'') ''k'' None [6] ((demo_two_client [])\<lparr>inp := Y\<rparr>) =
      (Ok [''f''], v')" "handle_connection demo_two demo_srv_cfg None ((demo_two_server demo_two_disk)\<lparr>inp := X\<rparr>) = (Ok (), w')"
    "\<forall>q. fs_get (disk v') q = (if q = [''f''] then Some (FileNode demo_content) else fs_get (disk (demo_two_client [])) q)"
    using download_session [OF demo_two_download] unfolding demo_two_target f by blast
  then show ?thesis by (intro exI [of _ X] exI [of _ Y] exI [of _ v'] exI [of _ w']) simp
qed

theorem upload_download_roundtrip_witness:
  "\<exists>X Y v' w' X2 Y2 v2' w2'.
    upload_client demo_two (Ok ''127.0.0.1:3000'') [''f''] ''k'' (replicate 32 CHR ''a'') [6]
      ((demo_two_client [([''f''], FileNode demo_content)])\<lparr>inp := Y\<rparr>) = (Ok (replicate 32 CHR ''a''), v') \<and>
    handle_connection demo_two demo_srv_cfg None ((demo_two_server [])\<lparr>inp := X\<rparr>) = (Ok (), w') \<and>
    download_client demo_two (Ok ''127.0.0.1:3000'') (replicate 32 CHR ''a'') ''k'' None [6] ((demo_two_client [])\<lparr>inp := Y2\<rparr>) = (Ok [''f''], v2') \<and>
    handle_connection demo_two demo_srv_cfg None ((demo_two_server [])\<lparr>disk := disk w', inp := X2\<rparr>) = (Ok (), w2') \<and>
    fs_get (disk v2') [''f''] = Some (FileNode demo_content)"
proof -
  have o: "download_open demo_two demo_srv_cfg ''127.0.0.1:3000'' None [6] None
      \<lparr>dh_file_id = uh_file_id demo_upload, dh_file_key = uh_file_key demo_upload\<rparr> (metadata_of demo_two demo_upload)
      (length (chunks READ_CHUNK_SIZE demo_content)) (\<lambda>_. 0) (RateLimiter_init 20 10) (demo_two_client []) (demo_two_server [])"
    using demo_two_open unfolding demo_upload_fields demo_content_size demo_fetch_def .
  show ?thesis
    using upload_download_roundtrip [OF demo_two_upload [OF demo_two_file] o] unfolding demo_upload_fields demo_two_target by blast
qed

section \<open>A download that succeeds\<close>



end
