(* ===== verification/Register.thy ===== *)
theory Register
  imports Session
begin

text \<open>
  Registration from end to end: \<^verbatim>\<open>auth_client\<close> on one side of a connection, \<^verbatim>\<open>handle_connection\<close> and
  \<^verbatim>\<open>handle_auth_keys\<close> on the other, in \<^verbatim>\<open>src/protocol_v1.rs\<close>.
\<close>

section \<open>The client\<close>

definition auth_request :: "bytes option \<Rightarrow> Command" where
  "auth_request old = Auth (if old \<noteq> None then 2 else 1)"

definition auth_packet :: "prims \<Rightarrow> bytes \<Rightarrow> bytes \<Rightarrow> bytes \<Rightarrow> bytes option \<Rightarrow> bytes" where
  "auth_packet P sk nonce pk old = nonce @ ed_sign P sk nonce @ (case old of Some k \<Rightarrow> k @ pk | None \<Rightarrow> pk)"

text \<open>A client whose request the server acknowledges.\<close>

lemma auth_client_run:
  fixes v :: "'a client_state_scheme"
  assumes "channel_ok P key" "client_handshake P cr sk v = (Ok key, v1)" "roundtrips (pc_Command P) (auth_request old)"
    "sealed_fits (encoding (pc_Command P) (auth_request old))" "length n1 = 12" "length n2 = 12" "length nonce = 64"
    "inp v1 = sealed_frame P key n1 nonce @ sealed_frame P key n2 [1]" "sealed_fits (auth_packet P sk nonce pk old)"
    "writable (64 + length (encoding (pc_Command P) (auth_request old)) + length (auth_packet P sk nonce pk old)) v1"
  shows "\<exists>v'. auth_client P cr sk pk old v = (Ok (), v') \<and> inp v' = [] \<and> disk v' = disk v1 \<and>
    wire v' = wire v1 @ sealed_frame P key (next_nonce v1) (encoding (pc_Command P) (auth_request old)) @
      sealed_frame P key (take_rng 12 (skip_rng 12 (rng v1))) (auth_packet P sk nonce pk old)"
proof -
  let ?c = "encoding (pc_Command P) (auth_request old)" and ?p = "auth_packet P sk nonce pk old"
  have "writable (32 + length ?c) v1" using assms(10) by (simp add: writable_def)
  then obtain p1 where w1: "write_encrypt_frame_into P ?c key v1 = (Ok (), after_frame P key ?c p1 v1)"
    by (rule write_frame_run [OF assms(1,4)])
  let ?v2 = "after_frame P key ?c p1 v1"
  have f: "sealed_fits nonce" "sealed_fits [1 :: byte]" using assms(7) by (simp_all add: sealed_fits_def)
  have i2: "inp ?v2 = sealed_frame P key n1 nonce @ sealed_frame P key n2 [1]" using assms(8) by simp
  obtain q1 where r1: "read_encrypt_data_into P key ?v2 = (Ok nonce, ?v2\<lparr>inp := sealed_frame P key n2 [1], pool := q1\<rparr>)"
    by (rule read_frame_run [OF assms(1,5) f(1) i2])
  let ?v3 = "?v2\<lparr>inp := sealed_frame P key n2 [1], pool := q1\<rparr>"
  have "writable (32 + length ?p) ?v3" using assms(10) by (simp add: writable_def)
  then obtain p2 where w2: "write_encrypt_frame_into P ?p key ?v3 = (Ok (), after_frame P key ?p p2 ?v3)"
    by (rule write_frame_run [OF assms(1,9)])
  let ?v4 = "after_frame P key ?p p2 ?v3"
  have i4: "inp ?v4 = sealed_frame P key n2 [1] @ []" by simp
  obtain q2 where r2: "read_encrypt_data_into P key ?v4 = (Ok [1], ?v4\<lparr>inp := [], pool := q2\<rparr>)"
    by (rule read_frame_run [OF assms(1,6) f(2) i4])
  have "auth_client P cr sk pk old v = (Ok (), ?v4\<lparr>inp := [], pool := q2\<rparr>)"
    using assms(2,7) w1 r1 w2 r2 serialize_roundtrips [OF assms(3)]
    by (cases old) (simp_all add: auth_client_def run_simps auth_request_def auth_packet_def copy_exact_def first_byte_def)
  moreover have "next_nonce ?v3 = take_rng 12 (skip_rng 12 (rng v1))"
    by (simp add: next_nonce_def take_rng_def after_frame_def)
  ultimately show ?thesis
    by (intro exI [of _ "?v4\<lparr>inp := [], pool := q2\<rparr>"]) (simp add: wire_def)
qed

section \<open>Both sides\<close>

text \<open>The challenge the server draws after the handshake.\<close>

definition next_challenge :: "prims \<Rightarrow> 'a conn_scheme \<Rightarrow> bytes" where
  "next_challenge P w = sha512 P (take_rng 64 (rng_after w))"

definition register_requests :: "prims \<Rightarrow> bytes \<Rightarrow> 'a conn_scheme \<Rightarrow> 'b conn_scheme \<Rightarrow> bytes" where
  "register_requests P sk v w = client_opening P sk v w @
     sealed_frame P (shared_key P v w) (take_rng 12 (skip_rng 32 (skip_rng 32 (rng v)))) (encoding (pc_Command P) (auth_request None)) @
     sealed_frame P (shared_key P v w) (take_rng 12 (skip_rng 12 (skip_rng 32 (skip_rng 32 (rng v)))))
       (auth_packet P sk (next_challenge P w) (ed_public P sk) None)"

text \<open>
  The server lets clients register, does not know the key, can make its directories and lets the
  command through; both sides can send what they have to.
\<close>

definition register_possible :: "prims \<Rightarrow> config \<Rightarrow> string \<Rightarrow> ip_addr option \<Rightarrow> bytes \<Rightarrow> path \<Rightarrow> (nat \<Rightarrow> nat) \<Rightarrow> RateLimiter \<Rightarrow>
    'a client_state_scheme \<Rightarrow> 'b server_state_scheme \<Rightarrow> bool" where
  "register_possible P cfg ip cip sk h c l v w \<longleftrightarrow> parties P cfg ip sk v w \<and> admitted cfg cip (auth_request None) c l w \<and>
     cfg_home cfg = Some h \<and> ENABLE_CLIENT_WHITELIST (cfg_env cfg) \<and> \<not> path_exists (disk w) (key_path P h (ed_public P sk)) \<and>
     \<not> list_ex (is_file (disk w)) (prefixes (key_path P h (ed_public P sk))) \<and>
     \<not> list_ex (is_file (disk w)) (prefixes (space_path P h (ed_public P sk))) \<and>
     roundtrips (pc_Command P) (auth_request None) \<and> sealed_fits (encoding (pc_Command P) (auth_request None)) \<and>
     writable (328 + length (encoding (pc_ClientHello P) (client_hello_of P (rng v))) + length (encoding (pc_Command P) (auth_request None))) v \<and>
     writable (201 + length (encoding (pc_ServerHello P) (server_hello_of P (cfg_pri_key cfg) (cfg_pub_key cfg) (client_hello_of P (rng v)) (rng w)))) w"

lemma packet_valid:
  assumes "ed_ok P"
  shows "validate_signature P (ed_public P sk) (ed_sign P sk n) n = Ok (ed_public P sk)"
    "length (ed_sign P sk n) = 64" "length n = 64 \<Longrightarrow> length (auth_packet P sk n (ed_public P sk) None) = 160"
  using assms by (simp_all add: validate_signature_def ed_ok_def auth_packet_def)

lemma register_server_side:
  fixes v :: "'a client_state_scheme" and w :: "'b server_state_scheme"
  assumes "register_possible P cfg ip cip sk h c l v w" "inp w = register_requests P sk v w"
  shows "\<exists>w' n r. handle_connection P cfg cip w = (Ok (), w') \<and> length n = 12 \<and> length r = 12 \<and>
    wire w' = wire w @ server_opening P cfg v w @ sealed_frame P (shared_key P v w) n (next_challenge P w) @ sealed_frame P (shared_key P v w) r [1] \<and>
    fs_get (disk w') (key_path P h (ed_public P sk)) = Some DirNode \<and> fs_get (disk w') (space_path P h (ed_public P sk)) = Some DirNode"
proof -
  let ?key = "shared_key P v w" and ?k = "ed_public P sk" and ?c = "next_challenge P w"
  let ?p = "auth_packet P sk ?c ?k None" and ?n = "\<lambda>r. take_rng 12 r :: bytes"
  let ?r0 = "skip_rng 32 (skip_rng 32 (rng v))"
  have a: "parties P cfg ip sk v w" "admitted cfg cip (auth_request None) c l w" "cfg_home cfg = Some h" "ENABLE_CLIENT_WHITELIST (cfg_env cfg)"
    "\<not> path_exists (disk w) (key_path P h ?k)" "\<not> list_ex (is_file (disk w)) (prefixes (key_path P h ?k))"
    "\<not> list_ex (is_file (disk w)) (prefixes (space_path P h ?k))" "roundtrips (pc_Command P) (auth_request None)"
    "sealed_fits (encoding (pc_Command P) (auth_request None))"
    "writable (201 + length (encoding (pc_ServerHello P) (server_hello_of P (cfg_pri_key cfg) (cfg_pub_key cfg) (client_hello_of P (rng v)) (rng w)))) w"
    using assms(1) unfolding register_possible_def by blast+
  have laws: "sha_ok P" "hex_ok P" "ed_ok P" using a(1) by (simp_all add: parties_def)
  have c64: "length ?c = 64" using laws(1) by (simp add: next_challenge_def sha_lengths)
  let ?rest = "sealed_frame P ?key (?n (skip_rng 12 ?r0)) ?p"
  have i: "inp w = client_opening P sk v w @ sealed_frame P ?key (?n ?r0) (encoding (pc_Command P) (auth_request None)) @ ?rest"
    using assms(2) by (simp add: register_requests_def)
  obtain q where q: "handle_connection P cfg cip w = serve_command P cfg cip (clock w 0) ?key ?k (auth_request None)
      (opened P cfg (client_hello_of P (rng v)) ?rest q w)"
    using server_opens [OF a(1,8,9) _ i] by auto
  let ?u = "(opened P cfg (client_hello_of P (rng v)) ?rest q w)\<lparr>clock := c, sv_limiter := l\<rparr>"
  have run: "handle_connection P cfg cip w = seq (handle_auth_keys P cfg 1 ?key) (\<lambda>_. flush) ?u"
    unfolding q by (simp add: admitted_run [OF a(2)]) (simp add: run_command_def auth_request_def)
  have ch: "auth_challenge P ?u = ?c" by (simp add: auth_challenge_def next_challenge_def)
  have arr: "auth_arrives P ?key (?c @ ed_sign P sk ?c @ ?k) [] ?u"
    unfolding auth_arrives_def using laws parties_channel [OF a(1)] packet_valid(3) [OF laws(3) c64, of sk]
    by (auto simp: auth_packet_def sealed_fits_def intro!: exI [of _ "?n (skip_rng 12 ?r0)"])
  have dk: "disk ?u = disk w" by simp
  have wr: "writable 129 ?u" using a(10) by (simp add: writable_def)
  obtain w' r where w': "handle_auth_keys P cfg 1 ?key ?u = (Ok (), w')" "fs_get (disk w') (key_path P h ?k) = Some DirNode"
    "fs_get (disk w') (space_path P h ?k) = Some DirNode" "wire w' = wire ?u @ sealed_frame P ?key (auth_nonce ?u) ?c @ sealed_frame P ?key r [1]"
    "length r = 12" "out_buf w' = []"
    using handle_auth_registers [OF arr c64 packet_valid(2) [OF laws(3)] packet_valid(1) [OF laws(3)] a(3,4) _ _ _ wr] a(5-7) dk ch by auto
  obtain w'' where f: "flush w' = (Ok (), w'')" "wire w'' = wire w'" "disk w'' = disk w'" using flush_empty [OF w'(6)] by blast
  have "wire ?u = wire w @ server_opening P cfg v w" using wire_opened [of P cfg v ?rest q w] by (simp add: wire_def)
  moreover have "length (auth_nonce ?u) = 12" by (simp add: auth_nonce_def)
  ultimately show ?thesis
    using run w' f by (intro exI [of _ w''] exI [of _ "auth_nonce ?u"] exI [of _ r]) (simp add: seq_def)
qed

lemma register_client_side:
  fixes v :: "'a client_state_scheme" and w :: "'b server_state_scheme"
  assumes "register_possible P cfg ip cip sk h c l v w" "length n = 12" "length r = 12"
    "inp v = server_opening P cfg v w @ sealed_frame P (shared_key P v w) n (next_challenge P w) @ sealed_frame P (shared_key P v w) r [1]"
  shows "\<exists>v'. auth_client P (Ok ip) sk (ed_public P sk) None v = (Ok (), v') \<and> disk v' = disk v \<and> inp v' = [] \<and>
    wire v' = wire v @ register_requests P sk v w"
proof -
  let ?key = "shared_key P v w" and ?c = "next_challenge P w" and ?e = "encoding (pc_Command P) (auth_request None)"
  let ?rest = "sealed_frame P ?key n ?c @ sealed_frame P ?key r [1]" and ?p = "auth_packet P sk ?c (ed_public P sk) None"
  let ?v1 = "client_after_handshake P sk (challenge_of P (rng w)) ?rest v"
  have a: "parties P cfg ip sk v w" "roundtrips (pc_Command P) (auth_request None)" "sealed_fits ?e"
    "writable (328 + length (encoding (pc_ClientHello P) (client_hello_of P (rng v))) + length ?e) v"
    using assms(1) unfolding register_possible_def by blast+
  have laws: "sha_ok P" "ed_ok P" using a(1) by (simp_all add: parties_def)
  have c64: "length ?c = 64" using laws(1) by (simp add: next_challenge_def sha_lengths)
  note l = packet_valid(3) [OF laws(2) c64, of sk]
  have hs: "client_handshake P (Ok ip) sk v = (Ok ?key, ?v1)" by (rule client_opens [OF a(1) assms(4)])
  have "writable (64 + length ?e + length ?p) ?v1"
    using a(4) by (auto simp: l writable_def client_after_handshake_def Let_def)
  then show ?thesis
    using auth_client_run [OF parties_channel [OF a(1)] hs a(2,3) assms(2,3) c64, of "ed_public P sk"] l
    by (auto simp: sealed_fits_def client_opening_def register_requests_def next_nonce_def take_rng_def client_after_rng)
qed

lemma register_possible_inp [simp]:
  "register_possible P cfg ip cip sk h c l (v\<lparr>inp := i\<rparr>) w = register_possible P cfg ip cip sk h c l v w"
  "register_possible P cfg ip cip sk h c l v (w\<lparr>inp := j\<rparr>) = register_possible P cfg ip cip sk h c l v w"
  unfolding register_possible_def by (simp_all add: writable_def admitted_inp)

text \<open>
  C18. A registration from end to end: when a client that has the server's key on record registers its
  own key with a server that lets clients in and does not know the key, the client's function and the
  server's handler both return, each has been sent exactly what it read, the directories of the key exist on
  the server afterwards, under its list of keys and in its storage, and the client's files are untouched.
\<close>

theorem register_session:
  fixes v :: "'a client_state_scheme" and w :: "'b server_state_scheme"
  assumes "register_possible P cfg ip cip sk h c l v w"
  shows "\<exists>X Y v' w'. auth_client P (Ok ip) sk (ed_public P sk) None (v\<lparr>inp := Y\<rparr>) = (Ok (), v') \<and>
    handle_connection P cfg cip (w\<lparr>inp := X\<rparr>) = (Ok (), w') \<and> wire v' = wire v @ X \<and> wire w' = wire w @ Y \<and>
    fs_get (disk w') (key_path P h (ed_public P sk)) = Some DirNode \<and>
    fs_get (disk w') (space_path P h (ed_public P sk)) = Some DirNode \<and> disk v' = disk v"
proof -
  let ?X = "register_requests P sk v w" and ?k = "shared_key P v w" and ?w = "w\<lparr>inp := register_requests P sk v w\<rparr>"
  have pw: "register_possible P cfg ip cip sk h c l v ?w" using assms by simp
  have iw: "inp ?w = register_requests P sk v ?w"
    by (simp add: register_requests_def client_opening_def session_key_of_def next_challenge_def rng_after_def)
  obtain w' n r where w': "handle_connection P cfg cip ?w = (Ok (), w')" "length n = 12" "length r = 12"
    "wire w' = wire ?w @ server_opening P cfg v ?w @ sealed_frame P (shared_key P v ?w) n (next_challenge P ?w) @ sealed_frame P (shared_key P v ?w) r [1]"
    "fs_get (disk w') (key_path P h (ed_public P sk)) = Some DirNode" "fs_get (disk w') (space_path P h (ed_public P sk)) = Some DirNode"
    using register_server_side [OF pw iw] by blast
  let ?Y = "server_opening P cfg v w @ sealed_frame P ?k n (next_challenge P w) @ sealed_frame P ?k r [1]"
  let ?v = "v\<lparr>inp := ?Y\<rparr>"
  have pv: "register_possible P cfg ip cip sk h c l ?v w" using assms by simp
  have iv: "inp ?v = server_opening P cfg ?v w @ sealed_frame P (shared_key P ?v w) n (next_challenge P w) @ sealed_frame P (shared_key P ?v w) r [1]"
    by (simp add: server_opening_def)
  obtain v' where v': "auth_client P (Ok ip) sk (ed_public P sk) None ?v = (Ok (), v')" "disk v' = disk ?v"
    "wire v' = wire ?v @ register_requests P sk ?v w"
    using register_client_side [OF pv w'(2,3) iv] by blast
  have x: "wire v' = wire v @ ?X" using v'(3) by (simp add: register_requests_def client_opening_def wire_def)
  have y: "wire w' = wire w @ ?Y"
    using w'(4) by (simp add: server_opening_def session_key_of_def wire_def next_challenge_def rng_after_def)
  show ?thesis
    by (rule exI [of _ ?X], rule exI [of _ ?Y], rule exI [of _ v'], rule exI [of _ w']) (use v' w' x y in simp)
qed

definition demo_reg :: prims where
  "demo_reg = demo_two\<lparr>pc_Command := table_codec [Auth 1]\<rparr>"

definition demo_reg_cfg :: config where
  "demo_reg_cfg = demo_srv_cfg\<lparr>cfg_home := Some [''h'']\<rparr>"

lemma demo_reg_laws: "ed_ok demo_reg" "sha_ok demo_reg" "hex_ok demo_reg" "aead_ok demo_reg" "dh_ok demo_reg"
  by (rule demo_laws; simp add: demo_reg_def demo_two_def demo_hs_def)+

lemma demo_reg_codecs:
  "pc_ClientHello demo_reg = table_codec [demo_ch]" "pc_ServerHello demo_reg = table_codec [demo_sh]" "ed_public demo_reg = pad 32"
  "pc_Command demo_reg = table_codec [Auth 1]" "hex_encode demo_reg = hex_encode demo_two" "hex_encode demo_hs = hex_encode demo_two"
  "client_hello_of demo_reg (\<lambda>_. 1) = demo_ch" "server_hello_of demo_reg [5] (pad 32 [5]) demo_ch (\<lambda>_. 2) = demo_sh"
  using demo_two_hellos demo_two_codecs
  by (simp_all add: demo_reg_def client_hello_of_def server_hello_of_def, simp_all add: demo_two_def demo_hs_def)

lemma demo_register:
  "register_possible demo_reg demo_reg_cfg ''127.0.0.1:3000'' None [6] [''h''] (\<lambda>_. 0) (RateLimiter_init 20 10)
     (demo_two_client []) (demo_two_server [])"
proof -
  have "parties demo_reg demo_reg_cfg ''127.0.0.1:3000'' [6] (demo_two_client []) (demo_two_server [])"
    by (simp add: parties_def demo_reg_laws demo_reg_codecs demo_two_client_def demo_client_conn_def demo_two_server_def demo_sv_def
        demo_reg_cfg_def demo_srv_cfg_def carried_def table_codec_single raw_fits_def writable_def)
  moreover have "admitted demo_reg_cfg None (auth_request None) (\<lambda>_. 0) (RateLimiter_init 20 10) (demo_two_server [])"
    by (simp add: admitted_def gate_def ret_def demo_two_server_def demo_sv_def)
  ultimately show ?thesis
    by (simp add: register_possible_def demo_reg_codecs table_codec_single auth_request_def sealed_fits_def writable_def demo_two_fields
        demo_reg_cfg_def demo_srv_cfg_def demo_cfg_def ENABLE_CLIENT_WHITELIST_def env_or_def path_exists_def is_file_def fs_get_def list_ex_iff)
       (simp add: demo_two_client_def demo_client_conn_def demo_two_server_def demo_sv_def demo_reg_codecs table_codec_single)
qed

theorem register_session_witness:
  "\<exists>X Y v' w'. auth_client demo_reg (Ok ''127.0.0.1:3000'') [6] (pad 32 [6]) None ((demo_two_client [])\<lparr>inp := Y\<rparr>) = (Ok (), v') \<and>
    handle_connection demo_reg demo_reg_cfg None ((demo_two_server [])\<lparr>inp := X\<rparr>) = (Ok (), w') \<and>
    fs_get (disk w') (space_path demo_reg [''h''] (pad 32 [6])) = Some DirNode"
  using register_session [OF demo_register] unfolding demo_reg_codecs(3) by blast

end
