(* ===== verification/Catalog.thy ===== *)
theory Catalog
  imports Client
begin

text \<open>
  The client's catalog (\<^verbatim>\<open>Catalog\<close> and \<^verbatim>\<open>FileHistory\<close> of \<^verbatim>\<open>src/lib.rs\<close>): which object ids it has pushed
  under which file names. It lives in a JSON file in the user's directory; serde_json is a parameter.
\<close>

section \<open>Text files\<close>

text \<open>\<^verbatim>\<open>String::from_utf8\<close> accepts exactly the well-formed UTF-8 sequences.\<close>

definition cont_byte :: "byte \<Rightarrow> bool" where
  "cont_byte b = (0x80 \<le> b \<and> b \<le> 0xBF)"

fun utf8_valid :: "bytes \<Rightarrow> bool" where
  "utf8_valid [] = True"
| "utf8_valid (a # bs) =
    (if a < 0x80 then utf8_valid bs
     else case bs of
       [] \<Rightarrow> False
     | b # cs \<Rightarrow>
         if 0xC2 \<le> a \<and> a \<le> 0xDF then cont_byte b \<and> utf8_valid cs
         else case cs of
           [] \<Rightarrow> False
         | c # ds \<Rightarrow>
             if 0xE0 \<le> a \<and> a \<le> 0xEF then
               cont_byte b \<and> cont_byte c \<and> (a = 0xE0 \<longrightarrow> 0xA0 \<le> b) \<and> (a = 0xED \<longrightarrow> b \<le> 0x9F) \<and> utf8_valid ds
             else case ds of
               [] \<Rightarrow> False
             | d # es \<Rightarrow> 0xF0 \<le> a \<and> a \<le> 0xF4 \<and> cont_byte b \<and> cont_byte c \<and> cont_byte d \<and>
                 (a = 0xF0 \<longrightarrow> 0x90 \<le> b) \<and> (a = 0xF4 \<longrightarrow> b \<le> 0x8F) \<and> utf8_valid es)"

declare utf8_valid.simps(2) [simp del]

definition str_of_bytes :: "bytes \<Rightarrow> string" where
  "str_of_bytes b = map (\<lambda>x. char_of (unat x)) b"

definition read_to_string :: "path \<Rightarrow> fs \<Rightarrow> string res" where
  "read_to_string p f = (case file_read p f of
     Ok d \<Rightarrow> if utf8_valid d then Ok (str_of_bytes d) else Err ''stream did not contain valid UTF-8''
   | Err e \<Rightarrow> Err e | Panic q \<Rightarrow> Panic q | Pending \<Rightarrow> Pending)"

lemma str_of_as_bytes [simp]: "str_of_bytes (as_bytes s) = s"
proof -
  have "char_of (unat (of_nat (of_char c) :: byte)) = c" for c :: char
    by (simp add: unat_of_nat)
  then show ?thesis by (simp add: str_of_bytes_def as_bytes_def o_def)
qed

lemma utf8_ascii: "\<forall>c \<in> set s. (of_char c :: nat) < 128 \<Longrightarrow> utf8_valid (as_bytes s)"
proof (induction s)
  case (Cons c s)
  then have "(of_nat (of_char c) :: byte) < 0x80" by (simp add: word_less_nat_alt unat_of_nat)
  with Cons show ?case by (simp add: as_bytes_def utf8_valid.simps)
qed (simp add: as_bytes_def)

lemma read_to_string_saved: "fs_get f p = Some (FileNode (as_bytes s)) \<Longrightarrow> utf8_valid (as_bytes s) \<Longrightarrow> read_to_string p f = Ok s"
  by (simp add: read_to_string_def file_read_def)

section \<open>The catalog\<close>

record FileHistory =
  fh_name :: string
  last_push :: string
  last_pull :: string

record Catalog =
  file_map :: "string \<rightharpoonup> FileHistory"
  file_index :: "string \<rightharpoonup> string list"

definition Catalog_default :: Catalog where
  "Catalog_default = \<lparr>file_map = Map.empty, file_index = Map.empty\<rparr>"

text \<open>serde_json on catalogs.\<close>

record json =
  to_string_pretty :: "Catalog \<Rightarrow> string + string"
  from_str :: "string \<Rightarrow> string + Catalog"

definition json_roundtrips :: "json \<Rightarrow> Catalog \<Rightarrow> bool" where
  "json_roundtrips J c \<longleftrightarrow> (\<exists>s. to_string_pretty J c = Inr s \<and> from_str J s = Inr c \<and> utf8_valid (as_bytes s))"

definition Catalog_read :: "json \<Rightarrow> path \<Rightarrow> ('a conn_scheme, Catalog) io" where
  "Catalog_read J p = seq (fs_query (read_to_string p)) (\<lambda>str. lift_res (of_sum id (from_str J str)))"

definition Catalog_write :: "json \<Rightarrow> Catalog \<Rightarrow> path \<Rightarrow> ('a conn_scheme, unit) io" where
  "Catalog_write J c p =
    seq (lift_res (of_sum (\<lambda>e. ''Failed to serialize catalog to JSON: '' @ e) (to_string_pretty J c))) (\<lambda>str.
    fs_do (file_write p (as_bytes str)))"

definition Catalog_read_or_create :: "json \<Rightarrow> path \<Rightarrow> ('a conn_scheme, Catalog) io" where
  "Catalog_read_or_create J p =
    seq (if p = [] then fail ''Invalid catalog path'' else ret (butlast p)) (\<lambda>catalog_dir.
    seq (fs_do (create_dir_all catalog_dir)) (\<lambda>_.
    seq (get_state (\<lambda>w. path_exists (disk w) p)) (\<lambda>exists.
    if exists then Catalog_read J p else ret Catalog_default)))"

text \<open>The updates in memory, and the operations that also write the file. \<open>timestamp\<close> is the formatted local time.\<close>

definition record_push :: "string \<Rightarrow> string \<Rightarrow> string \<Rightarrow> Catalog \<Rightarrow> Catalog" where
  "record_push timestamp file_name file_id c =
    c\<lparr>file_map := (file_map c)(file_id \<mapsto> (case file_map c file_id of
          Some meta \<Rightarrow> meta\<lparr>last_push := timestamp\<rparr>
        | None \<Rightarrow> \<lparr>fh_name = file_name, last_push = timestamp, last_pull = ''never''\<rparr>)),
      file_index := (file_index c)(file_name \<mapsto> (case file_index c file_name of
          Some tracked \<Rightarrow> if file_id \<in> set tracked then tracked else tracked @ [file_id]
        | None \<Rightarrow> [file_id]))\<rparr>"

definition update_on_push :: "json \<Rightarrow> string \<Rightarrow> path \<Rightarrow> string \<Rightarrow> string \<Rightarrow> Catalog \<Rightarrow> ('a conn_scheme, unit) io" where
  "update_on_push J timestamp p file_name file_id c = Catalog_write J (record_push timestamp file_name file_id c) p"

definition record_pull :: "string \<Rightarrow> string \<Rightarrow> Catalog \<Rightarrow> Catalog" where
  "record_pull timestamp file_id c = (case file_map c file_id of
     Some meta \<Rightarrow> c\<lparr>file_map := (file_map c)(file_id \<mapsto> meta\<lparr>last_pull := timestamp\<rparr>)\<rparr>
   | None \<Rightarrow> c)"

definition update_on_pull :: "json \<Rightarrow> string \<Rightarrow> path \<Rightarrow> string \<Rightarrow> Catalog \<Rightarrow> ('a conn_scheme, unit) io" where
  "update_on_pull J timestamp p file_id c = Catalog_write J (record_pull timestamp file_id c) p"

section \<open>The invariant\<close>

text \<open>
  The index lists each name's ids without repetition, never an empty list, and it lists an id under a
  name exactly when the map records the id with that name.
\<close>

definition catalog_ok :: "Catalog \<Rightarrow> bool" where
  "catalog_ok c \<longleftrightarrow>
     (\<forall>name ids. file_index c name = Some ids \<longrightarrow> ids \<noteq> [] \<and> distinct ids) \<and>
     (\<forall>name fid. (\<exists>ids. file_index c name = Some ids \<and> fid \<in> set ids) \<longleftrightarrow> (\<exists>h. file_map c fid = Some h \<and> fh_name h = name))"

lemma catalog_ok_default: "catalog_ok Catalog_default"
  by (simp add: catalog_ok_def Catalog_default_def)

text \<open>An id may be pushed under a name when it is new, or already listed under that name.\<close>

definition pushable :: "Catalog \<Rightarrow> string \<Rightarrow> string \<Rightarrow> bool" where
  "pushable c name fid \<longleftrightarrow> file_map c fid = None \<or> (\<exists>ids. file_index c name = Some ids \<and> fid \<in> set ids)"

lemma record_push_ok:
  assumes "catalog_ok c" "pushable c name fid"
  shows "catalog_ok (record_push ts name fid c)"
proof -
  have idx: "ids \<noteq> [] \<and> distinct ids" if "file_index c n = Some ids" for n ids using assms(1) that by (simp add: catalog_ok_def)
  have agree: "(\<exists>ids. file_index c n = Some ids \<and> i \<in> set ids) \<longleftrightarrow> (\<exists>h. file_map c i = Some h \<and> fh_name h = n)" for n i
    using assms(1) by (simp add: catalog_ok_def)
  let ?c = "record_push ts name fid c"
  have 1: "ids \<noteq> [] \<and> distinct ids" if "file_index ?c n = Some ids" for n ids
    using that idx by (auto simp: record_push_def split: if_splits option.splits)
  have 2: "(\<exists>ids. file_index ?c n = Some ids \<and> i \<in> set ids) \<longleftrightarrow> (\<exists>ids. file_index c n = Some ids \<and> i \<in> set ids) \<or> n = name \<and> i = fid" for n i
    by (auto simp: record_push_def split: option.splits)
  have "file_map c fid = Some h \<Longrightarrow> fh_name h = name" for h
    using assms(2) agree [of name fid] by (auto simp: pushable_def)
  then have 3: "(\<exists>h. file_map ?c i = Some h \<and> fh_name h = n) \<longleftrightarrow> (\<exists>h. file_map c i = Some h \<and> fh_name h = n) \<or> n = name \<and> i = fid" for n i
    by (auto simp: record_push_def split: option.splits)
  show ?thesis unfolding catalog_ok_def 2 3 agree using 1 by simp
qed

lemma record_pull_ok: "catalog_ok c \<Longrightarrow> catalog_ok (record_pull ts fid c)"
  by (auto simp: catalog_ok_def record_pull_def split: option.splits if_splits)

text \<open>Writing the catalog and reading it back.\<close>

lemma Catalog_write_run:
  fixes w :: "'a conn_scheme"
  assumes "Catalog_write J c p w = (Ok (), w')" "json_roundtrips J c"
  shows "\<exists>s. w' = w\<lparr>disk := disk w'\<rparr> \<and> from_str J s = Inr c \<and> utf8_valid (as_bytes s) \<and>
    (\<forall>q. fs_get (disk w') q = (if q = p then Some (FileNode (as_bytes s)) else fs_get (disk w) q))"
proof -
  obtain s where s: "to_string_pretty J c = Inr s" "from_str J s = Inr c" "utf8_valid (as_bytes s)"
    using assms(2) by (auto simp: json_roundtrips_def)
  with assms(1) obtain f where "file_write p (as_bytes s) (disk w) = Ok f" "w' = w\<lparr>disk := f\<rparr>"
    by (auto simp: Catalog_write_def seq_def lift_res_def fs_do_def split: res.splits)
  with s file_write_get show ?thesis by fastforce
qed

lemma Catalog_read_saved:
  "fs_get (disk w) p = Some (FileNode (as_bytes s)) \<Longrightarrow> from_str J s = Inr c \<Longrightarrow> utf8_valid (as_bytes s) \<Longrightarrow> Catalog_read J p w = (Ok c, w)"
  by (simp add: Catalog_read_def seq_def fs_query_def read_to_string_saved lift_res_def)

end
