(* ===== verification/Perf.thy ===== *)
theory Perf
  imports Client Echo "HOL-Library.Multiset"
begin

text \<open>
  \<^verbatim>\<open>client_echo_perf\<close> (\<^verbatim>\<open>src/protocol_v1.rs\<close>): the client opens one connection after the other for the sample
  time and shakes hands on each, then exchanges random payloads over one more connection for the same
  time, and reports rates, averages and percentiles. What it prints is the value it returns here. The
  loops end by the clock, so each may run forever on a clock that stands still and is a partial function.
\<close>

section \<open>Statistics\<close>

definition MAX_RECORD :: nat where
  "MAX_RECORD = 4096"

text \<open>\<^verbatim>\<open>latencies[(latencies.len() * q) / 100]\<close> after sorting.\<close>

definition percentile :: "nat \<Rightarrow> u128 list \<Rightarrow> u128 res" where
  "percentile q latencies =
    (let ls = sort latencies; i = length ls * q div 100 in
     if i < length ls then Ok (ls ! i) else Panic ''index out of bounds'')"

definition percentiles :: "u128 list \<Rightarrow> (u128 \<times> u128 \<times> u128) res" where
  "percentiles latencies =
    bind_res (percentile 50 latencies) (\<lambda>p50.
    bind_res (percentile 95 latencies) (\<lambda>p95.
    bind_res (percentile 99 latencies) (\<lambda>p99.
    Ok (p50, p95, p99))))"

text \<open>Handshakes per second, over the whole seconds that have passed, and the percentiles.\<close>

definition handshake_stats :: "u128 \<Rightarrow> u128 \<Rightarrow> u128 list \<Rightarrow> (u128 \<times> u128 \<times> u128 \<times> u128) res" where
  "handshake_stats hss sample_secs latencies =
    (if sample_secs = 0 then Panic ''attempt to divide by zero''
     else bind_res (percentiles latencies) (\<lambda>p. Ok (hss div sample_secs, p)))"

text \<open>
  One sample: the ring is overwritten at \<^verbatim>\<open>record_count % MAX_RECORD\<close>, and the average is over the
  samples it holds. The sum wraps, as in a release build.
\<close>

definition record_sample :: "nat \<Rightarrow> u128 \<Rightarrow> u128 list \<Rightarrow> u128 list \<times> u128" where
  "record_sample record_count x ring =
    (let ring = ring[record_count mod MAX_RECORD := x]; n = min (record_count + 1) MAX_RECORD
     in (ring, sum_list (take n ring) div of_nat n))"

definition record_samples :: "u128 list \<Rightarrow> u128 list \<times> nat" where
  "record_samples xs = foldl (\<lambda>(ring, n) x. (fst (record_sample n x ring), n + 1)) (replicate MAX_RECORD 0, 0) xs"

section \<open>Loops that the clock ends\<close>

text \<open>A turn says whether the loop goes on. \<open>None\<close> is a loop that never ends.\<close>

partial_function (option) io_while ::
    "('x \<Rightarrow> ('s, bool \<times> 'x) io) \<Rightarrow> 'x \<Rightarrow> 's \<Rightarrow> ('x res \<times> 's) option" where
  "io_while turn x w = (case turn x w of (r, w') \<Rightarrow> (case r of
     Ok (go, x') \<Rightarrow> if go then io_while turn x' w' else Some (Ok x', w')
   | Err e \<Rightarrow> Some (Err e, w') | Panic p \<Rightarrow> Some (Panic p, w') | Pending \<Rightarrow> Some (Pending, w')))"

definition once :: "('s, 'a) io \<Rightarrow> 's \<Rightarrow> ('a res \<times> 's) option" where
  "once m w = Some (m w)"

definition seqo ::
    "('s \<Rightarrow> ('a res \<times> 's) option) \<Rightarrow> ('a \<Rightarrow> 's \<Rightarrow> ('b res \<times> 's) option) \<Rightarrow> 's \<Rightarrow> ('b res \<times> 's) option" where
  "seqo m f w = (case m w of None \<Rightarrow> None | Some (r, w') \<Rightarrow> (case r of
     Ok a \<Rightarrow> f a w' | Err e \<Rightarrow> Some (Err e, w') | Panic p \<Rightarrow> Some (Panic p, w') | Pending \<Rightarrow> Some (Pending, w')))"

section \<open>Sampling handshakes\<close>

text \<open>
  What a new connection turns out to be: the outcome of connecting, the local port, what the peer will
  send and how much it will take.
\<close>

record dialed =
  dl_connect :: "string res"
  dl_local :: "unit res"
  dl_inp :: bytes
  dl_inp_end :: stream_end
  dl_room :: nat
  dl_out_end :: stream_end

definition dial :: "dialed \<Rightarrow> ('a conn_scheme, unit) io" where
  "dial d = upd_state (\<lambda>w. w\<lparr>inp := dl_inp d, inp_end := dl_inp_end d, out_buf := [], out_sent := [],
     out_room := dl_room d, out_end := dl_out_end d, out_shut := False\<rparr>)"

record handshake_samples =
  hs_dials :: nat \<comment> \<open>connections asked for so far\<close>
  hss :: u128
  hsf :: u128
  hs_latencies :: "u128 list"

definition HANDSHAKE_PORT_CAP :: u128 where
  "HANDSHAKE_PORT_CAP = 8192"

definition as_micros :: "nat \<Rightarrow> u128" where
  "as_micros ns = of_nat (ns div 1000)"

text \<open>The messages of \<^verbatim>\<open>io::ErrorKind::AddrInUse\<close> and \<^verbatim>\<open>AddrNotAvailable\<close>.\<close>

definition out_of_ports :: "string \<Rightarrow> bool" where
  "out_of_ports e \<longleftrightarrow> e \<in> set [''Address already in use (os error 98)'', ''Cannot assign requested address (os error 99)'']"

definition handshake_sample ::
    "prims \<Rightarrow> (nat \<Rightarrow> dialed) \<Rightarrow> bytes \<Rightarrow> nat \<Rightarrow> nat \<Rightarrow> handshake_samples \<Rightarrow> ('a client_state_scheme, bool \<times> handshake_samples) io" where
  "handshake_sample P net signing_key sample_duration sample_start hs =
    seq instant_now (\<lambda>now.
    if \<not> (now - sample_start < sample_duration \<and> hss hs < HANDSHAKE_PORT_CAP) then ret (False, hs)
    else
    seq instant_now (\<lambda>latency_clock.
    let d = net (hs_dials hs); hs = hs\<lparr>hs_dials := Suc (hs_dials hs)\<rparr> in
    seq (dial d) (\<lambda>_.
    seq (attempt (client_handshake_helper P (dl_connect d) signing_key True)) (\<lambda>r. case r of
      Inr session_key \<Rightarrow>
        seq instant_now (\<lambda>now.
        seq (lift_res (dl_local d)) (\<lambda>_.
        seq stream_shutdown (\<lambda>_.
        ret (True, hs\<lparr>hs_latencies := hs_latencies hs @ [as_micros (now - latency_clock)], hss := hss hs + 1\<rparr>))))
    | Inl e \<Rightarrow> if out_of_ports e then ret (False, hs) else ret (True, hs\<lparr>hsf := hsf hs + 1\<rparr>)))))"

section \<open>Sampling payloads\<close>

definition LH :: nat where "LH = 1024 * 1024"
definition HI :: nat where "HI = 14 * 1024 * 1024"

text \<open>
  \<^verbatim>\<open>rng().random_range(lo..=hi)\<close>: \<open>draw\<close> is the generator's choice, from what the source of randomness holds,
  and how much of the source it used.
\<close>

definition random_range :: "(nat \<Rightarrow> nat \<Rightarrow> (nat \<Rightarrow> byte) \<Rightarrow> nat \<times> nat) \<Rightarrow> nat \<Rightarrow> nat \<Rightarrow> ('a conn_scheme, nat) io" where
  "random_range draw lo hi w = (case draw lo hi (rng w) of (n, used) \<Rightarrow> (Ok n, w\<lparr>rng := (\<lambda>i. rng w (i + used))\<rparr>))"

record echo_samples =
  record_count :: nat
  payload_acc :: u32
  record_process_time :: "u128 list"
  record_rtt :: "u128 list"
  final_avg_st :: u128
  final_avg_nt :: u128
  es_latencies :: "u128 list"
  mismatches :: nat \<comment> \<open>messages about an answer with another hash\<close>

definition add_sample :: "prims \<Rightarrow> bytes \<Rightarrow> EchoDebugHeader \<Rightarrow> u128 \<Rightarrow> echo_samples \<Rightarrow> echo_samples" where
  "add_sample P rand_payload echo rtt es =
    (let (process_time, avg_st) = record_sample (record_count es) (eh_process_ms echo) (record_process_time es);
         (rtts, avg_nt) = record_sample (record_count es) rtt (record_rtt es)
     in es\<lparr>record_process_time := process_time, record_rtt := rtts,
           mismatches := mismatches es + (if hex_encode P (sha256 P rand_payload) \<noteq> hex_encode P (eh_payload_hash echo) then 1 else 0),
           record_count := record_count es + 1, payload_acc := payload_acc es + eh_payload_len echo div (1024 * 1024),
           final_avg_st := avg_st, final_avg_nt := avg_nt, es_latencies := es_latencies es @ [avg_nt]\<rparr>)"

definition echo_sample ::
    "prims \<Rightarrow> (nat \<Rightarrow> nat \<Rightarrow> (nat \<Rightarrow> byte) \<Rightarrow> nat \<times> nat) \<Rightarrow> bytes \<Rightarrow> nat \<Rightarrow> nat \<Rightarrow> echo_samples \<Rightarrow>
     ('a client_state_scheme, bool \<times> echo_samples) io" where
  "echo_sample P draw session_key sample_duration sample_start es =
    seq instant_now (\<lambda>now.
    if \<not> sample_duration > now - sample_start then ret (False, es)
    else
    seq instant_now (\<lambda>send_time.
    seq (random_range draw LH HI) (\<lambda>rand_len.
    seq (fill_bytes rand_len) (\<lambda>rand_payload.
    seq (wrap_err (\<lambda>_. ''Failed to send echo payload'') (write_encrypt_frame_into P rand_payload session_key)) (\<lambda>_.
    seq (wrap_err (\<lambda>_. ''Failed to read echo response'') (read_encrypt_data_into P session_key)) (\<lambda>response.
    seq (lift_res (deserialize (pc_EchoDebugHeader P) response)) (\<lambda>echo.
    seq instant_now (\<lambda>now.
    ret (True, add_sample P rand_payload echo (as_millis (now - send_time)) es)))))))))"

section \<open>The whole test\<close>

record perf_report =
  pr_handshakes :: handshake_samples
  pr_rate :: "u128 \<times> u128 \<times> u128 \<times> u128"
  pr_echo :: echo_samples
  pr_percentiles :: "u128 \<times> u128 \<times> u128"

definition no_handshakes :: handshake_samples where
  "no_handshakes = \<lparr>hs_dials = 0, hss = 0, hsf = 0, hs_latencies = []\<rparr>"

definition no_echoes :: echo_samples where
  "no_echoes = \<lparr>record_count = 0, payload_acc = 0, record_process_time = replicate MAX_RECORD 0,
     record_rtt = replicate MAX_RECORD 0, final_avg_st = 0, final_avg_nt = 0, es_latencies = [], mismatches = 0\<rparr>"

text \<open>The second half, on one more connection.\<close>

definition perf_echo ::
    "prims \<Rightarrow> (nat \<Rightarrow> nat \<Rightarrow> (nat \<Rightarrow> byte) \<Rightarrow> nat \<times> nat) \<Rightarrow> dialed \<Rightarrow> bytes \<Rightarrow> nat \<Rightarrow>
     'a client_state_scheme \<Rightarrow> ((echo_samples \<times> u128 \<times> u128 \<times> u128) res \<times> 'a client_state_scheme) option" where
  "perf_echo P draw d signing_key sample_duration =
    seqo (once (dial d)) (\<lambda>_.
    seqo (once (wrap_err (\<lambda>e. ''Handshake failed: '' @ e) (client_handshake_helper P (dl_connect d) signing_key True))) (\<lambda>session_key.
    seqo (once (lift_res (serialize (pc_Command P) Command.Echo))) (\<lambda>request.
    seqo (once (write_encrypt_frame_into P request session_key)) (\<lambda>_.
    seqo (once instant_now) (\<lambda>sample_start.
    seqo (io_while (echo_sample P draw session_key sample_duration sample_start) no_echoes) (\<lambda>es.
    seqo (once (lift_res (percentiles (es_latencies es)))) (\<lambda>p.
    seqo (once stream_shutdown) (\<lambda>_.
    once (ret (es, p))))))))))"

definition client_echo_perf ::
    "prims \<Rightarrow> (nat \<Rightarrow> dialed) \<Rightarrow> (nat \<Rightarrow> nat \<Rightarrow> (nat \<Rightarrow> byte) \<Rightarrow> nat \<times> nat) \<Rightarrow> bytes \<Rightarrow> nat \<Rightarrow>
     'a client_state_scheme \<Rightarrow> (perf_report res \<times> 'a client_state_scheme) option" where
  "client_echo_perf P net draw signing_key sample_duration =
    seqo (once instant_now) (\<lambda>sample_start.
    seqo (io_while (handshake_sample P net signing_key sample_duration sample_start) no_handshakes) (\<lambda>hs.
    seqo (once instant_now) (\<lambda>now.
    seqo (once (lift_res (handshake_stats (hss hs) (of_nat ((now - sample_start) div 1000000000)) (hs_latencies hs)))) (\<lambda>rate.
    seqo (perf_echo P draw (net (hs_dials hs)) signing_key sample_duration) (\<lambda>(es, p).
    once (ret \<lparr>pr_handshakes = hs, pr_rate = rate, pr_echo = es, pr_percentiles = p\<rparr>))))))"

section \<open>What the statistics are\<close>

lemma bind_res_OkE:
  assumes "bind_res r f = Ok b"
  obtains a where "r = Ok a" "f a = Ok b"
  using assms by (cases r) auto

lemma record_samples_snoc: "record_samples (xs @ [x]) = (fst (record_sample (snd (record_samples xs)) x (fst (record_samples xs))), snd (record_samples xs) + 1)"
  by (simp add: record_samples_def case_prod_unfold)

lemma record_samples_ring:
  "snd (record_samples xs) = length xs \<and> length (fst (record_samples xs)) = MAX_RECORD \<and>
   (\<forall>i < MAX_RECORD. i < length xs \<longrightarrow>
      (\<exists>j. j < length xs \<and> j mod MAX_RECORD = i \<and> length xs \<le> j + MAX_RECORD \<and> fst (record_samples xs) ! i = xs ! j))"
proof (induction xs rule: rev_induct)
  case Nil
  show ?case by (simp add: record_samples_def)
next
  case (snoc x xs)
  let ?n = "length xs" and ?M = MAX_RECORD
  have M: "0 < ?M" by (simp add: MAX_RECORD_def)
  have ring: "fst (record_samples (xs @ [x])) = (fst (record_samples xs))[?n mod ?M := x]"
    using snoc by (simp add: record_samples_snoc record_sample_def Let_def)
  have "\<exists>j. j < Suc ?n \<and> j mod ?M = i \<and> Suc ?n \<le> j + ?M \<and> fst (record_samples (xs @ [x])) ! i = (xs @ [x]) ! j"
    if i: "i < ?M" "i < Suc ?n" for i
  proof (cases "i = ?n mod ?M")
    case True
    then show ?thesis using snoc M ring by (intro exI [of _ ?n]) simp
  next
    case False
    have "i < ?n" using False i by (cases "i = ?n") (auto simp: mod_less)
    then obtain j where j: "j < ?n" "j mod ?M = i" "?n \<le> j + ?M" "fst (record_samples xs) ! i = xs ! j" using snoc i by blast
    moreover have "?n \<noteq> j + ?M" using j(2) False by auto
    ultimately show ?thesis using ring False by (intro exI [of _ j]) (auto simp: nth_append)
  qed
  then show ?case using snoc ring by (auto simp: record_samples_snoc)
qed

lemma filter_take_le: "length (filter Q (take n xs)) \<le> length (filter Q xs)"
  by (metis append_take_drop_id filter_append le_add1 length_append)

text \<open>The percentile is one of the latencies, with at least that share of them not above it; without a latency it panics.\<close>

lemma percentile_found:
  assumes "xs \<noteq> []" "q < 100"
  obtains p where "percentile q xs = Ok p" "p \<in> set xs" "length xs * q div 100 < length (filter (\<lambda>x. x \<le> p) xs)"
proof -
  let ?s = "sort xs" and ?i = "length xs * q div 100"
  have i: "?i < length ?s" using assms by (simp add: div_less_iff_less_mult)
  have "length (filter (\<lambda>x. x \<le> ?s ! ?i) (take (Suc ?i) ?s)) = Suc ?i"
  proof -
    have "\<forall>x \<in> set (take (Suc ?i) ?s). x \<le> ?s ! ?i"
      using i by (auto simp: in_set_conv_nth intro!: sorted_nth_mono)
    then show ?thesis using i by (simp add: filter_id_conv [THEN iffD2])
  qed
  moreover have "length (filter (\<lambda>x. x \<le> ?s ! ?i) (take (Suc ?i) ?s)) \<le> length (filter (\<lambda>x. x \<le> ?s ! ?i) ?s)"
    by (rule filter_take_le)
  moreover have "length (filter (\<lambda>x. x \<le> ?s ! ?i) ?s) = length (filter (\<lambda>x. x \<le> ?s ! ?i) xs)"
    by (simp add: filter_sort)
  moreover have "?s ! ?i \<in> set xs" using i by (metis nth_mem set_sort)
  ultimately show thesis using i by (intro that [of "?s ! ?i"]) (simp_all add: percentile_def Let_def)
qed

lemma handshake_stats_panics: "xs = [] \<or> secs = 0 \<Longrightarrow> \<exists>m. handshake_stats n secs xs = Panic m"
  by (auto simp: handshake_stats_def percentiles_def percentile_def)

text \<open>The three percentiles are in order.\<close>

lemma percentiles_ordered:
  assumes "percentiles xs = Ok (p50, p95, p99)"
  shows "p50 \<le> p95 \<and> p95 \<le> p99 \<and> p99 \<in> set xs"
proof -
  let ?s = "sort xs" and ?i = "\<lambda>q. length (sort xs) * q div 100"
  have p: "percentile 50 xs = Ok p50" "percentile 95 xs = Ok p95" "percentile 99 xs = Ok p99"
    using assms by (auto simp: percentiles_def elim!: bind_res_OkE)
  then have v: "p50 = ?s ! ?i 50" "p95 = ?s ! ?i 95" "p99 = ?s ! ?i 99" "?i 95 < length ?s" "?i 99 < length ?s"
    by (auto simp: percentile_def Let_def split: if_splits)
  have "?s ! ?i 50 \<le> ?s ! ?i 95" "?s ! ?i 95 \<le> ?s ! ?i 99"
    using v(4,5) by (auto intro!: sorted_nth_mono div_le_mono)
  moreover have "?s ! ?i 99 \<in> set xs" using v(5) by (metis nth_mem set_sort)
  ultimately show ?thesis using v by simp
qed

section \<open>The clock goes on\<close>

definition later :: "'a conn_scheme \<Rightarrow> 'a conn_scheme \<Rightarrow> bool" where
  "later w w' \<longleftrightarrow> (\<exists>k. clock w' = (\<lambda>i. clock w (i + k)))"

text \<open>A clock that never goes back and passes every time.\<close>

definition ticking :: "'a conn_scheme \<Rightarrow> bool" where
  "ticking w \<longleftrightarrow> mono (clock w) \<and> (\<forall>t. \<exists>i. t \<le> clock w i)"

lemma later_same: "clock w' = clock w \<Longrightarrow> later w w'"
  unfolding later_def by (intro exI [of _ 0]) simp

interpretation lt: run_rel later
proof
  show "later s s" for s :: "'a conn_scheme" by (rule later_same) simp
  show "later s u" if "later s t" "later t u" for s t u :: "'a conn_scheme"
  proof -
    from that obtain j k where "clock t = (\<lambda>i. clock s (i + j))" "clock u = (\<lambda>i. clock t (i + k))" by (auto simp: later_def)
    then show ?thesis unfolding later_def by (intro exI [of _ "k + j"]) (simp add: add.assoc)
  qed
qed

lemma later_ticking:
  assumes "later w w'" "ticking w"
  shows "ticking w'"
proof -
  obtain k where k: "clock w' = (\<lambda>i. clock w (i + k))" using assms(1) by (auto simp: later_def)
  have m: "mono (clock w)" and u: "\<exists>i. t \<le> clock w i" for t using assms(2) by (auto simp: ticking_def)
  have "\<exists>i. t \<le> clock w (i + k)" for t
    using u [of t] monoD [OF m le_add1] by (meson order_trans)
  with m show ?thesis by (auto simp: ticking_def k mono_def)
qed

lemma later_timeout: "steps later m \<Longrightarrow> steps later (timeout d msg m)"
proof (rule stepsI)
  fix s r s' assume m: "steps later m" and t: "timeout d msg m s = (r, s')"
  obtain x u where x: "m s = (x, u)" by force
  have "clock s' = clock u" using t x by (auto simp: timeout_def split: if_splits)
  then show "later s s'" using stepsD [OF m x] by (simp add: later_def)
qed

lemma later_conn:
  "steps later (read_exact n)" "steps later (push_out d)" "steps later flush" "steps later (fill_bytes n)"
  "steps later (ensure_pool n)" "steps later (dial c)" "steps later stream_shutdown" "steps later (random_range draw a b)"
  "(\<And>w. clock (g w) = clock w) \<Longrightarrow> steps later (upd_state g)"
  by (auto intro!: stepsI later_same simp: read_exact_def push_out_def flush_def fill_bytes_def ensure_pool_def dial_def
      stream_shutdown_def random_range_def upd_state_def split: if_splits prod.splits)

lemma later_now: "steps later instant_now"
  by (rule stepsI) (auto simp: instant_now_def later_def intro!: exI [of _ 1])

lemma later_frames:
  "steps later (write_all d)" "steps later read_frame_length" "steps later read_raw_data_into" "steps later (write_raw_frame_into d)"
  "steps later (read_encrypt_data_into P key)" "steps later (write_encrypt_frame_into P d key)"
  by (auto simp: write_all_def read_frame_length_def read_raw_data_into_def write_raw_frame_into_def read_encrypt_data_into_def
      write_encrypt_frame_into_def Let_def intro!: lt.steps_rules later_conn later_timeout)

lemma later_client:
  "steps later (AuthServerMap_read_or_create :: ('a client_state_scheme, _) io)"
  "steps later (AuthServerMap_write m :: ('a client_state_scheme, _) io)"
  "steps later (read_line :: ('a client_state_scheme, _) io)"
  by (auto intro!: stepsI later_same simp: AuthServerMap_read_or_create_def AuthServerMap_write_def read_line_def
      split: option.splits sum.splits list.splits)

lemma later_approve: "steps later (approve_server_key P ip key trust :: ('a client_state_scheme, _) io)"
  unfolding approve_server_key_def Let_def reject_server_def
  by (intro lt.steps_rules later_conn later_client run_rel_option [OF lt.run_rel_axioms]) simp_all

lemma later_handshake: "steps later (client_handshake_helper P cr sk trust :: ('a client_state_scheme, _) io)"
  unfolding client_handshake_helper_def Let_def
  by (intro lt.steps_rules later_conn later_frames later_approve)

lemmas later_rules = lt.steps_rules later_conn later_now later_frames later_handshake

section \<open>The loops end\<close>

text \<open>A computation that ends, and takes the clock with it.\<close>

definition ends :: "('a conn_scheme \<Rightarrow> ('b res \<times> 'a conn_scheme) option) \<Rightarrow> 'a conn_scheme \<Rightarrow> bool" where
  "ends m w \<longleftrightarrow> (\<exists>r w'. m w = Some (r, w') \<and> later w w')"

lemma ends_once: "steps later m \<Longrightarrow> ends (once m) w"
  unfolding ends_def once_def by (metis prod.collapse stepsD)

lemma later_fs_query: "steps later (fs_query g)"
  by (rule stepsI) (auto simp: fs_query_def intro: later_same)

lemma ends_if: "ends m w \<Longrightarrow> ends n w \<Longrightarrow> ends (if b then m else n) w"
  by simp

lemma ends_seqo:
  assumes "ends m w" "ticking w" "\<And>a w'. ticking w' \<Longrightarrow> ends (f a) w'"
  shows "ends (seqo m f) w"
proof -
  obtain r w1 where m: "m w = Some (r, w1)" "later w w1" using assms(1) by (auto simp: ends_def)
  show ?thesis
  proof (cases r)
    case (Ok a)
    obtain r2 w2 where "f a w1 = Some (r2, w2)" "later w1 w2"
      using assms(3) [OF later_ticking [OF m(2) assms(2)], of a] by (auto simp: ends_def)
    then show ?thesis using m Ok lt.R_trans [OF m(2)] by (auto simp: ends_def seqo_def)
  qed (use m in \<open>auto simp: ends_def seqo_def\<close>)
qed

lemma io_while_run:
  "turn x w = (Ok (True, x'), w') \<Longrightarrow> io_while turn x w = io_while turn x' w'"
  "turn x w = (Ok (False, x'), w') \<Longrightarrow> io_while turn x w = Some (Ok x', w')"
  "turn x w = (Err e, w') \<Longrightarrow> io_while turn x w = Some (Err e, w')"
  "turn x w = (Panic p, w') \<Longrightarrow> io_while turn x w = Some (Panic p, w')"
  "turn x w = (Pending, w') \<Longrightarrow> io_while turn x w = Some (Pending, w')"
  by (simp_all add: io_while.simps [of turn x w])

text \<open>A turn that goes on only before the deadline, and reads the clock.\<close>

definition deadlined :: "nat \<Rightarrow> nat \<Rightarrow> ('x \<Rightarrow> ('a conn_scheme, bool \<times> 'x) io) \<Rightarrow> bool" where
  "deadlined T start turn \<longleftrightarrow> (\<forall>x w x' w'. turn x w = (Ok (True, x'), w') \<longrightarrow>
     clock w 0 - start < T \<and> later (w\<lparr>clock := (\<lambda>i. clock w (Suc i))\<rparr>) w')"

lemma io_while_ends:
  assumes "deadlined T start turn" "\<And>x. steps later (turn x)" "mono (clock w)" "T \<le> clock w N - start"
  shows "ends (io_while turn x) w"
  using assms(3,4)
proof (induction N arbitrary: x w)
  case 0
  obtain r w' where r: "turn x w = (r, w')" by force
  have "\<not> (\<exists>x'. r = Ok (True, x'))" using 0 r assms(1) by (fastforce simp: deadlined_def)
  with stepsD [OF assms(2) r] r show ?case
    by (cases r) (auto simp: ends_def io_while_run)
next
  case (Suc N)
  obtain r w' where r: "turn x w = (r, w')" by force
  note l = stepsD [OF assms(2) r]
  show ?case
  proof (cases "\<exists>x'. r = Ok (True, x')")
    case True
    then obtain x' where x': "turn x w = (Ok (True, x'), w')" using r by auto
    then have "later (w\<lparr>clock := (\<lambda>i. clock w (Suc i))\<rparr>) w'" using assms(1) unfolding deadlined_def by blast
    then obtain k where k: "clock w' = (\<lambda>i. clock w (Suc (i + k)))" by (auto simp: later_def)
    have "clock w (Suc N) \<le> clock w' N" unfolding k by (rule monoD [OF Suc.prems(1)]) simp
    moreover have "mono (clock w')" using Suc.prems(1) by (simp add: k mono_def)
    ultimately have "ends (io_while turn x') w'" using Suc.prems(2) by (intro Suc.IH) auto
    then show ?thesis using lt.R_trans [OF l] by (auto simp: ends_def io_while_run(1) [of turn, OF x'])
  next
    case False
    with l r show ?thesis by (cases r) (auto simp: ends_def io_while_run)
  qed
qed

lemma io_while_ticking:
  assumes "deadlined T start turn" "\<And>x. steps later (turn x)" "ticking w"
  shows "ends (io_while turn x) w"
proof -
  obtain N where "T + start \<le> clock w N" using assms(3) by (auto simp: ticking_def)
  then show ?thesis using assms by (intro io_while_ends [of T start turn w N]) (auto simp: ticking_def)
qed

lemma later_handshake_sample: "steps later (handshake_sample P net sk T start hs)"
  unfolding handshake_sample_def Let_def by (intro later_rules)

lemma later_echo_sample: "steps later (echo_sample P draw key T start es)"
  unfolding echo_sample_def by (intro later_rules)

lemma deadlined_clock:
  assumes "\<And>x. turn x = seq instant_now (\<lambda>now. if \<not> (now - start < T \<and> c x) then ret (False, x) else go x)" "\<And>x. steps later (go x)"
  shows "deadlined T start turn"
  unfolding deadlined_def
proof (intro allI impI)
  fix x w x' w' assume "turn x w = (Ok (True, x'), w')"
  then have "clock w 0 - start < T" "go x (w\<lparr>clock := (\<lambda>i. clock w (Suc i))\<rparr>) = (Ok (True, x'), w')"
    by (auto simp: assms(1) seq_def instant_now_def ret_def split: if_splits)
  with stepsD [OF assms(2)] show "clock w 0 - start < T \<and> later (w\<lparr>clock := (\<lambda>i. clock w (Suc i))\<rparr>) w'" by blast
qed

lemma deadlined_handshake: "deadlined T start (handshake_sample P net sk T start)"
  by (rule deadlined_clock [where c = "\<lambda>hs. hss hs < HANDSHAKE_PORT_CAP"], rule handshake_sample_def)
     (unfold Let_def, intro later_rules)

lemma deadlined_echo: "deadlined T start (echo_sample P draw key T start)"
  by (rule deadlined_clock [where c = "\<lambda>_. True"], simp add: echo_sample_def) (intro later_rules)

lemma perf_echo_ends: "ticking w \<Longrightarrow> ends (perf_echo P draw d sk T) w"
  unfolding perf_echo_def
  by (intro ends_seqo ends_once later_rules io_while_ticking [OF deadlined_echo] later_echo_sample)

lemma client_echo_perf_ends: "ticking w \<Longrightarrow> ends (client_echo_perf P net draw sk T) w"
  unfolding client_echo_perf_def case_prod_unfold
  by (intro ends_seqo ends_once later_rules io_while_ticking [OF deadlined_handshake] later_handshake_sample perf_echo_ends)

section \<open>What is reported\<close>

lemma io_while_inv:
  assumes "io_while turn x w = Some (Ok y, w')" "I x"
    "\<forall>x w b x' w'. I x \<longrightarrow> turn x w = (Ok (b, x'), w') \<longrightarrow> I x'"
  shows "I y"
proof -
  have "\<forall>y. fst r = Ok y \<longrightarrow> I x \<longrightarrow> (\<forall>x w b x' w'. I x \<longrightarrow> turn x w = (Ok (b, x'), w') \<longrightarrow> I x') \<longrightarrow> I y"
    if "io_while turn x w = Some r" for r
  proof (rule io_while.raw_induct [where P = "\<lambda>turn x w r. \<forall>y. fst r = Ok y \<longrightarrow> I x \<longrightarrow>
      (\<forall>x w b x' w'. I x \<longrightarrow> turn x w = (Ok (b, x'), w') \<longrightarrow> I x') \<longrightarrow> I y" and xa = "((turn, x), w)" and y = r,
      unfolded prod.case, OF _ that], intro allI impI)
    fix rec :: "('a \<Rightarrow> ('b, bool \<times> 'a) io) \<Rightarrow> 'a \<Rightarrow> 'b \<Rightarrow> ('a res \<times> 'b) option" and turn x w r y
    assume ih: "\<And>turn x w r. rec turn x w = Some r \<Longrightarrow> \<forall>y. fst r = Ok y \<longrightarrow> I x \<longrightarrow>
        (\<forall>x w b x' w'. I x \<longrightarrow> turn x w = (Ok (b, x'), w') \<longrightarrow> I x') \<longrightarrow> I y"
      and r: "(case turn x w of (r, w') \<Rightarrow> (case r of Ok (go, x') \<Rightarrow> if go then rec turn x' w' else Some (Ok x', w')
        | Err e \<Rightarrow> Some (Err e, w') | Panic p \<Rightarrow> Some (Panic p, w') | Pending \<Rightarrow> Some (Pending, w'))) = Some r"
      and y: "fst r = Ok y" and i: "I x" and step: "\<forall>x w b x' w'. I x \<longrightarrow> turn x w = (Ok (b, x'), w') \<longrightarrow> I x'"
    obtain go x' w' where t: "turn x w = (Ok (go, x'), w')" "if go then rec turn x' w' = Some r else r = (Ok x', w')"
      using r y by (auto split: prod.splits res.splits if_splits)
    have "I x'" using step i t(1) by blast
    with t(2) y ih [of turn x' w' r] step show "I y" by (cases go) auto
  qed
  from this [OF assms(1)] assms(2,3) show ?thesis by simp
qed

lemma handshake_sample_counts:
  assumes "handshake_sample P net sk T start hs w = (Ok (b, hs'), w')"
  shows "hss hs' = hss hs \<and> hs_latencies hs' = hs_latencies hs \<or>
    hss hs < HANDSHAKE_PORT_CAP \<and> hss hs' = hss hs + 1 \<and> (\<exists>l. hs_latencies hs' = hs_latencies hs @ [l])"
  using assms unfolding handshake_sample_def Let_def
  by (elim seq_OkE) (auto elim!: seq_OkE simp: ret_def split: if_splits sum.splits)

definition handshakes_ok :: "handshake_samples \<Rightarrow> bool" where
  "handshakes_ok hs \<longleftrightarrow> hss hs \<le> HANDSHAKE_PORT_CAP \<and> length (hs_latencies hs) = unat (hss hs)"

lemma handshake_sample_ok:
  assumes "handshakes_ok hs" "handshake_sample P net sk T start hs w = (Ok (b, hs'), w')"
  shows "handshakes_ok hs'"
proof -
  have "unat (hss hs + 1) = unat (hss hs) + 1" "hss hs + 1 \<le> HANDSHAKE_PORT_CAP" if "hss hs < HANDSHAKE_PORT_CAP"
    using that by (auto simp: HANDSHAKE_PORT_CAP_def inc_le unat_word_ariths word_less_nat_alt)
  with handshake_sample_counts [OF assms(2)] assms(1) show ?thesis by (auto simp: handshakes_ok_def)
qed

lemma seqo_OkE:
  assumes "seqo m f w = Some (Ok b, w')"
  obtains a w1 where "m w = Some (Ok a, w1)" "f a w1 = Some (Ok b, w')"
  using assms by (auto simp: seqo_def split: option.splits prod.splits res.splits)

lemma once_OkD: "once m w = Some (Ok a, w') \<Longrightarrow> m w = (Ok a, w')"
  by (simp add: once_def)

definition echoes_ok :: "echo_samples \<Rightarrow> bool" where
  "echoes_ok es \<longleftrightarrow> record_count es = length (es_latencies es) \<and> mismatches es \<le> record_count es \<and>
     length (record_process_time es) = MAX_RECORD \<and> length (record_rtt es) = MAX_RECORD"

lemma add_sample_ok: "echoes_ok es \<Longrightarrow> echoes_ok (add_sample P p h t es)"
  by (simp add: echoes_ok_def add_sample_def record_sample_def Let_def)

lemma echo_sample_ok: "echoes_ok es \<Longrightarrow> echo_sample P draw key T start es w = (Ok (b, es'), w') \<Longrightarrow> echoes_ok es'"
  unfolding echo_sample_def
  by (elim seq_OkE) (auto elim!: seq_OkE simp: ret_def add_sample_ok split: if_splits)

text \<open>The order of three percentiles, the last of them one of the samples.\<close>

definition percentiles_of :: "u128 list \<Rightarrow> u128 \<times> u128 \<times> u128 \<Rightarrow> bool" where
  "percentiles_of xs p = (case p of (p50, p95, p99) \<Rightarrow> p50 \<le> p95 \<and> p95 \<le> p99 \<and> p99 \<in> set xs)"

lemma percentiles_OkD: "percentiles xs = Ok p \<Longrightarrow> percentiles_of xs p"
  by (cases p) (auto simp: percentiles_of_def dest: percentiles_ordered)

lemma perf_echo_ok:
  fixes w :: "'a client_state_scheme"
  assumes "perf_echo P draw d sk T w = Some (Ok (es, p), w')"
  shows "echoes_ok es \<and> percentiles_of (es_latencies es) p"
proof -
  obtain key start and u u' :: "'a client_state_scheme" where i: "io_while (echo_sample P draw key T start) no_echoes u = Some (Ok es, u')"
    and p: "percentiles (es_latencies es) = Ok p"
    using assms unfolding perf_echo_def
    by (elim seqo_OkE) (auto simp: ret_def lift_res_def dest!: once_OkD)
  have "echoes_ok es"
  proof (rule io_while_inv [where I = echoes_ok, OF i])
    show "echoes_ok no_echoes" by (simp add: no_echoes_def echoes_ok_def)
  qed (use echo_sample_ok in blast)
  with percentiles_OkD [OF p] show ?thesis by simp
qed

lemma client_echo_perf_ok:
  fixes w :: "'a client_state_scheme"
  assumes "client_echo_perf P net draw sk T w = Some (Ok rep, w')"
  shows "handshakes_ok (pr_handshakes rep) \<and> percentiles_of (hs_latencies (pr_handshakes rep)) (snd (pr_rate rep)) \<and>
    echoes_ok (pr_echo rep) \<and> percentiles_of (es_latencies (pr_echo rep)) (pr_percentiles rep)"
proof -
  obtain start secs hs rate d es p and u u' v v' :: "'a client_state_scheme" where
    h: "io_while (handshake_sample P net sk T start) no_handshakes u = Some (Ok hs, u')"
    and s: "handshake_stats (hss hs) secs (hs_latencies hs) = Ok rate"
    and e: "perf_echo P draw d sk T v = Some (Ok (es, p), v')"
    and r: "rep = \<lparr>pr_handshakes = hs, pr_rate = rate, pr_echo = es, pr_percentiles = p\<rparr>"
    using assms unfolding client_echo_perf_def
    by (elim seqo_OkE) (auto simp: ret_def lift_res_def dest!: once_OkD)
  have "handshakes_ok hs"
  proof (rule io_while_inv [where I = handshakes_ok, OF h])
    show "handshakes_ok no_handshakes" by (simp add: handshakes_ok_def no_handshakes_def HANDSHAKE_PORT_CAP_def)
  qed (use handshake_sample_ok in blast)
  moreover have "percentiles_of (hs_latencies hs) (snd rate)"
    using s by (auto simp: handshake_stats_def split: if_splits elim!: bind_res_OkE dest: percentiles_OkD)
  ultimately show ?thesis using perf_echo_ok [OF e] r by simp
qed


lemma demo_ticking: "ticking demo_client_conn"
  by (auto simp: ticking_def demo_client_conn_def mono_def)


section \<open>The server's side of a sample\<close>

lemma random_range_run [run_simps]:
  "draw lo hi (rng w) = (n, used) \<Longrightarrow> random_range draw lo hi w = (Ok n, w\<lparr>rng := skip_rng used (rng w)\<rparr>)"
  by (simp add: random_range_def skip_rng_def fun_eq_iff)

lemma instant_now_run [run_simps]: "instant_now w = (Ok (clock w 0), w\<lparr>clock := (\<lambda>i. clock w (Suc i))\<rparr>)"
  by (simp add: instant_now_def)

text \<open>The payload a client draws next, and the nonce it is sealed with.\<close>

definition next_payload :: "nat \<Rightarrow> nat \<Rightarrow> 'a conn_scheme \<Rightarrow> bytes" where
  "next_payload n used v = take_rng n (skip_rng used (rng v))"

definition payload_nonce :: "nat \<Rightarrow> nat \<Rightarrow> 'a conn_scheme \<Rightarrow> bytes" where
  "payload_nonce n used v = take_rng 12 (skip_rng n (skip_rng used (rng v)))"

lemma echo_sample_run:
  fixes v :: "'a client_state_scheme"
  assumes "channel_ok P key" "clock v 0 - start < T" "draw LH HI (rng v) = (n, used)" "sealed_fits (next_payload n used v)"
    "roundtrips (pc_EchoDebugHeader P) h" "sealed_fits (encoding (pc_EchoDebugHeader P) h)" "length r = 12"
    "inp v = sealed_frame P key r (encoding (pc_EchoDebugHeader P) h) @ rest" "writable (32 + n) v"
  shows "\<exists>v'. echo_sample P draw key T start es v =
      (Ok (True, add_sample P (next_payload n used v) h (as_millis (clock v 2 - clock v 1)) es), v') \<and>
    inp v' = rest \<and> wire v' = wire v @ sealed_frame P key (payload_nonce n used v) (next_payload n used v)"
proof -
  let ?p = "next_payload n used v" and ?e = "encoding (pc_EchoDebugHeader P) h"
  let ?v1 = "v\<lparr>clock := (\<lambda>i. clock v (Suc (Suc i))), rng := skip_rng n (skip_rng used (rng v))\<rparr>"
  have "writable (32 + length ?p) ?v1" using assms(9) by (simp add: writable_def next_payload_def)
  then obtain q where w: "write_encrypt_frame_into P ?p key ?v1 = (Ok (), after_frame P key ?p q ?v1)"
    by (rule write_frame_run [OF assms(1,4)])
  have "inp (after_frame P key ?p q ?v1) = sealed_frame P key r ?e @ rest" using assms(8) by simp
  then obtain q' where r: "read_encrypt_data_into P key (after_frame P key ?p q ?v1) =
      (Ok ?e, (after_frame P key ?p q ?v1)\<lparr>inp := rest, pool := q'\<rparr>)"
    by (rule read_frame_run [OF assms(1,7,6)])
  have "next_nonce ?v1 = payload_nonce n used v" by (simp add: next_nonce_def payload_nonce_def take_rng_def)
  then show ?thesis
    using assms(2,3) w r deserialize_encoding [OF assms(5)]
    by (simp add: echo_sample_def run_simps next_payload_def [symmetric] wire_def numeral_2_eq_2)
qed

text \<open>
  C24. A payload of the performance test comes back confirmed: the server's echo loop, given the frame
  the client seals, answers with one frame, and the client, given that frame, records the sample with the
  time the server measured and its own, and no hash mismatch; it has then sent exactly the frame the
  server was given and read exactly the answer.
\<close>

theorem perf_sample_confirmed:
  fixes v :: "'a client_state_scheme" and u :: "'b conn_scheme"
  assumes "h = echo_header P (next_payload n used v) (clock u 1 - clock u 0)" "channel_ok P key" "clock v 0 - start < T" "draw LH HI (rng v) = (n, used)" "writable (32 + n) v"
    "echo_fits P m (next_payload n used v)" "roundtrips (pc_EchoDebugHeader P) h" "writable (32 + m) u"
    "inp u = sealed_frame P key (payload_nonce n used v) (next_payload n used v)"
  shows "\<exists>u' answer v'. echo_turn P key u = (Ok True, u') \<and> inp u' = [] \<and> wire u' = wire u @ answer \<and>
    echo_sample P draw key T start es (v\<lparr>inp := answer\<rparr>) =
      (Ok (True, add_sample P (next_payload n used v) h (as_millis (clock v 2 - clock v 1)) es), v') \<and>
    inp v' = [] \<and> wire v' = wire v @ inp u \<and>
    mismatches (add_sample P (next_payload n used v) h (as_millis (clock v 2 - clock v 1)) es) = mismatches es"
proof -
  let ?p = "next_payload n used v" and ?v = "\<lambda>a. v\<lparr>inp := a\<rparr>"
  let ?a = "sealed_frame P key (next_nonce u) (encoding (pc_EchoDebugHeader P) h)"
  have n12: "length (payload_nonce n used v) = 12" "length (next_nonce u) = 12" by (simp_all add: payload_nonce_def next_nonce_def)
  have iu: "inp u = sealed_frame P key (payload_nonce n used v) ?p @ []" using assms(9) by simp
  obtain u' t where u': "echo_turn P key u = (Ok True, u')" "inp u' = []"
    "wire u' = wire u @ sealed_frame P key (next_nonce u) (encoding (pc_EchoDebugHeader P) (echo_header P ?p t))"
    "\<forall>k. writable (32 + m + k) u \<longrightarrow> writable k u'" "t = clock u 1 - clock u 0"
    by (rule echo_turn_answers [OF assms(2,6) n12(1) iu assms(8)])
  have f: "sealed_fits ?p" "sealed_fits (encoding (pc_EchoDebugHeader P) h)" using assms(6) by (auto simp: echo_fits_def assms(1))
  have same: "next_payload n used (?v ?a) = ?p" "payload_nonce n used (?v ?a) = payload_nonce n used v"
    by (simp_all add: next_payload_def payload_nonce_def)
  obtain v' where "echo_sample P draw key T start es (?v ?a) =
      (Ok (True, add_sample P ?p h (as_millis (clock v 2 - clock v 1)) es), v')"
    "inp v' = []" "wire v' = wire v @ inp u"
    using echo_sample_run [of P key "?v ?a" start T draw n used h "next_nonce u" "[]" es] assms(2-5,7) f n12(2) iu
    unfolding same by (auto simp: writable_def wire_def)
  with u' show ?thesis
    by (intro exI [of _ u'] exI [of _ ?a] exI [of _ v']) (simp add: assms(1) add_sample_def echo_header_def Let_def case_prod_unfold)
qed

definition demo_perf :: prims where
  "demo_perf = demo\<lparr>pc_EchoDebugHeader := \<lparr>to_allocvec = (\<lambda>h. Inr [7]),
     from_bytes = (\<lambda>_. Inr (echo_header demo (take_rng LH (\<lambda>_. 1)) 0))\<rparr>\<rparr>"

definition demo_perf_server :: conn where
  "demo_perf_server = demo_echo_conn\<lparr>inp :=
     sealed_frame demo_perf (replicate 32 1) (take_rng 12 (\<lambda>_. 1)) (take_rng LH (\<lambda>_. 1))\<rparr>"

theorem perf_sample_confirmed_witness:
  "\<exists>u' answer v' es'. echo_turn demo_perf (replicate 32 1) demo_perf_server = (Ok True, u') \<and>
     echo_sample demo_perf (\<lambda>lo hi r. (lo, 4)) (replicate 32 1) 10 0 no_echoes
       (demo_client_conn\<lparr>out_room := 2000000, inp := answer\<rparr>) = (Ok (True, es'), v') \<and> mismatches es' = 0"
proof -
  let ?v = "demo_client_conn\<lparr>out_room := 2000000\<rparr>" and ?p = "take_rng LH (\<lambda>_. 1) :: bytes"
  let ?h = "echo_header demo_perf ?p (clock demo_perf_server 1 - clock demo_perf_server 0)"
  have skip: "skip_rng k (\<lambda>_. 1) = (\<lambda>_. 1)" for k by (simp add: skip_rng_def fun_eq_iff)
  have p: "next_payload LH 4 ?v = ?p" "payload_nonce LH 4 ?v = take_rng 12 (\<lambda>_. 1)"
    by (simp_all add: next_payload_def payload_nonce_def demo_client_conn_def skip)
  have ch: "channel_ok demo_perf (replicate 32 1)" by (simp add: channel_ok_def demo_perf_def demo_laws)
  have len: "length ?p = 1048576" by (simp add: LH_def)
  have "?p \<notin> set echo_quits" using len by (auto simp: echo_quits_def as_bytes_def dest!: arg_cong [where f = length])
  then have fits: "echo_fits demo_perf 1 ?p"
    using len by (simp add: echo_fits_def sealed_fits_def serialize_def encoding_def demo_perf_def)
  have rt: "roundtrips (pc_EchoDebugHeader demo_perf) ?h"
    by (simp add: roundtrips_def demo_perf_def demo_perf_server_def demo_echo_conn_def echo_header_def as_millis_def)
  show ?thesis
    using perf_sample_confirmed [of ?h demo_perf LH 4 ?v demo_perf_server "replicate 32 1" 0 10 "\<lambda>lo hi r. (lo, 4)" 1 no_echoes]
      ch fits rt p
    by (auto simp: demo_perf_server_def demo_echo_conn_def demo_client_conn_def writable_def LH_def no_echoes_def)
qed

end
