(* ===== verification/Cli.thy ===== *)
theory Cli
  imports Register Catalog Perf
begin

text \<open>
  The command-line client (\<^verbatim>\<open>src/bin/client.rs\<close>) and the arguments of both programs
  (\<^verbatim>\<open>src/args.rs\<close>): what each command reads and writes in the user's directory around the protocol
  functions. \<^verbatim>\<open>std::process::exit(1)\<close> after a message and an error returned from \<^verbatim>\<open>main\<close> both end the
  process with status 1 and are both an error value here; what is printed is left out.
\<close>

section \<open>Arguments\<close>

datatype ServerCommands = Serve u16 string | Rotate

datatype ClientCommands =
    Key string u16 bool bool
  | Perf string u16 u64 u64
  | Push path string u16 string "string option"
  | Pull "path option" string u16 string "string option" "string option"
  | Backup string "string option" string u16
  | Status string u16 string
  | Ls
  | ServeFile path string u16
  | Listen "path option" string string u16

text \<open>
  What the process gets from outside: the home directory, serde_json, the outcome of connecting to an
  address, a new uuid, the formatted local time.
\<close>

record cli_env =
  ce_home :: "path option"
  ce_json :: json
  ce_connect :: "string \<Rightarrow> u16 \<Rightarrow> string res"
  ce_uuid :: string
  ce_now :: string

section \<open>Keys on disk\<close>

definition private_key_path :: "path \<Rightarrow> path" where
  "private_key_path user_path = path_join user_path ''private_ed25519.key''"

definition public_key_path :: "path \<Rightarrow> path" where
  "public_key_path user_path = path_join user_path ''public_ed25519.key''"

definition show_vec :: "bytes \<Rightarrow> string" where
  "show_vec b = ''['' @ (case map (\<lambda>x. show_nat (unat x)) b of [] \<Rightarrow> [] | s # ss \<Rightarrow> s @ concat (map (\<lambda>t. '', '' @ t) ss)) @ '']''"

definition decode_key :: "prims \<Rightarrow> string \<Rightarrow> string \<Rightarrow> bytes res" where
  "decode_key P what hex = (case hex_decode P (trim hex) of
     Inl e \<Rightarrow> Err e
   | Inr b \<Rightarrow> if length b = 32 then Ok b else Err (what @ show_vec b))"

definition file_exists :: "path \<Rightarrow> ('a conn_scheme, bool) io" where
  "file_exists p = get_state (\<lambda>w. path_exists (disk w) p)"

definition load_signing_key :: "prims \<Rightarrow> path \<Rightarrow> ('a conn_scheme, bytes) io" where
  "load_signing_key P user_path =
    seq (fs_query (read_to_string (private_key_path user_path))) (\<lambda>hex.
    lift_res (decode_key P ''Invalid private key length: '' hex))"

definition save_keys :: "prims \<Rightarrow> path \<Rightarrow> bytes \<Rightarrow> bytes \<Rightarrow> ('a conn_scheme, unit) io" where
  "save_keys P user_path pri pub =
    seq (fs_do (create_dir_all user_path)) (\<lambda>_.
    seq (fs_do (file_write (private_key_path user_path) (as_bytes (hex_encode P pri)))) (\<lambda>_.
    fs_do (file_write (public_key_path user_path) (as_bytes (hex_encode P pub)))))"

definition decode_pair :: "prims \<Rightarrow> string \<Rightarrow> string \<Rightarrow> ('a conn_scheme, bytes \<times> bytes) io" where
  "decode_pair P pri_hex pub_hex =
    seq (lift_res (decode_key P ''Invalid old private key length: '' pri_hex)) (\<lambda>pri.
    seq (lift_res (decode_key P ''Invalid old public key length: '' pub_hex)) (\<lambda>pub.
    seq (lift_res (of_sum id (ed_verifying_key P pub))) (\<lambda>verifying_key.
    ret (pri, verifying_key))))"

definition new_keypair :: "prims \<Rightarrow> ('a conn_scheme, bytes \<times> bytes) io" where
  "new_keypair P = seq (fill_bytes 32) (\<lambda>seed. lift_res (generate_ed25519_keypair P seed))"

section \<open>The commands\<close>

definition existing_key_pair :: "path \<Rightarrow> ('a conn_scheme, (string \<times> string) option) io" where
  "existing_key_pair user_path =
    seq (file_exists (private_key_path user_path)) (\<lambda>pri_exists.
    seq (file_exists (public_key_path user_path)) (\<lambda>pub_exists.
    if pri_exists \<and> pub_exists then
      seq (fs_query (read_to_string (private_key_path user_path))) (\<lambda>pri_hex.
      seq (fs_query (read_to_string (public_key_path user_path))) (\<lambda>pub_hex.
      ret (Some (pri_hex, pub_hex))))
    else ret None))"

definition rotate_keys :: "prims \<Rightarrow> string res \<Rightarrow> path \<Rightarrow> (string \<times> string) option \<Rightarrow> ('a client_state_scheme, unit) io" where
  "rotate_keys P connect_result user_path existing_keys =
    seq (lift_res (case existing_keys of None \<Rightarrow> Err ''No existing keys, cannot rotate.'' | Some k \<Rightarrow> Ok k)) (\<lambda>(old_pri_hex, old_pub_hex).
    seq (decode_pair P old_pri_hex old_pub_hex) (\<lambda>(signing_key, old_public_key).
    seq (new_keypair P) (\<lambda>(new_pri, new_pub).
    seq (auth_client P connect_result signing_key new_pub (Some old_public_key)) (\<lambda>_.
    save_keys P user_path new_pri new_pub))))"

definition key_command :: "prims \<Rightarrow> cli_env \<Rightarrow> string \<Rightarrow> u16 \<Rightarrow> bool \<Rightarrow> bool \<Rightarrow> ('a client_state_scheme, unit) io" where
  "key_command P E address port rot auth =
    seq (lift_res (get_user_key_dir (ce_home E))) (\<lambda>user_path.
    seq (existing_key_pair user_path) (\<lambda>existing_keys.
    if rot then rotate_keys P (ce_connect E address port) user_path existing_keys
    else
      seq (case existing_keys of
             Some (pri_hex, pub_hex) \<Rightarrow> decode_pair P pri_hex pub_hex
           | None \<Rightarrow>
               seq (new_keypair P) (\<lambda>(prikey, pubkey).
               seq (save_keys P user_path prikey pubkey) (\<lambda>_.
               ret (prikey, pubkey)))) (\<lambda>(signing_key, verifying_key).
      if auth then auth_client P (ce_connect E address port) signing_key verifying_key None
      else ret ())))"

text \<open>A line from the user that must not be blank.\<close>

definition ask :: "string \<Rightarrow> ('a client_state_scheme, string) io" where
  "ask empty_msg = seq read_line (\<lambda>input. if trim input = [] then fail empty_msg else ret (trim input))"

definition wip :: "string \<Rightarrow> ('a, 'b) io" where
  "wip msg = lift_res (Panic (''not yet implemented: '' @ msg))"

text \<open>Which id a push uses: a new one, or one of those the catalog lists under the file's name.\<close>

definition choose_id :: "cli_env \<Rightarrow> Catalog \<Rightarrow> string \<Rightarrow> ('a client_state_scheme, string) io" where
  "choose_id E catalog file_name = (case file_index catalog file_name of
     Some tracked \<Rightarrow>
       (case filter (\<lambda>uuid. file_map catalog uuid = None) tracked of
          uuid # _ \<Rightarrow> fail (''Couldn't find in file map '' @ uuid)
        | [] \<Rightarrow>
            seq read_line (\<lambda>input.
            seq (lift_res (case parse_u64 (trim input) of None \<Rightarrow> Err ''Invalid input, expected a number'' | Some n \<Rightarrow> Ok (unat n))) (\<lambda>n.
            if n = 0 then ret (ce_uuid E)
            else if n \<le> length tracked then ret (tracked ! (n - 1))
            else fail ''Invalid input, number out of range'')))
   | None \<Rightarrow> ret (ce_uuid E))"

text \<open>The signing key, the file's key and the file's name.\<close>

definition push_inputs :: "prims \<Rightarrow> cli_env \<Rightarrow> path \<Rightarrow> string option \<Rightarrow> ('a client_state_scheme, bytes \<times> string \<times> string) io" where
  "push_inputs P E file_path file_key =
    seq (lift_res (get_user_key_dir (ce_home E))) (\<lambda>user_path.
    seq (file_exists (private_key_path user_path)) (\<lambda>pri_exists.
    seq (file_exists (public_key_path user_path)) (\<lambda>pub_exists.
    if \<not> pri_exists \<and> \<not> pub_exists then fail ''No keys found, please run `rdrive key <args?>`.''
    else
    seq (load_signing_key P user_path) (\<lambda>signing_key.
    seq (file_exists file_path) (\<lambda>exists.
    if \<not> exists then fail ''File not found''
    else
    seq (case file_key of Some key \<Rightarrow> ret key | None \<Rightarrow> ask ''File key cannot be empty'') (\<lambda>file_key.
    seq (lift_res (case path_file_name file_path of None \<Rightarrow> Err ''Invalid file name'' | Some n \<Rightarrow> Ok n)) (\<lambda>file_name.
    ret (signing_key, file_key, file_name))))))))"

definition push_command :: "prims \<Rightarrow> cli_env \<Rightarrow> path \<Rightarrow> string \<Rightarrow> u16 \<Rightarrow> string \<Rightarrow> string option \<Rightarrow> ('a client_state_scheme, unit) io" where
  "push_command P E file_path address port protocol file_key =
    seq (push_inputs P E file_path file_key) (\<lambda>(signing_key, file_key, file_name).
    seq (lift_res (get_catalog_path (ce_home E))) (\<lambda>catalog_path.
    seq (Catalog_read_or_create (ce_json E) catalog_path) (\<lambda>catalog.
    seq (choose_id E catalog file_name) (\<lambda>file_id.
    seq (if protocol = ''v1'' then upload_client P (ce_connect E address port) file_path file_key file_id signing_key
         else if protocol = ''v2'' then wip ''UDP protocol is WIP''
         else fail (''Unknown protocol: '' @ protocol)) (\<lambda>_.
    update_on_push (ce_json E) (ce_now E) catalog_path file_name file_id catalog)))))"

definition pull_command :: "prims \<Rightarrow> cli_env \<Rightarrow> path option \<Rightarrow> string \<Rightarrow> u16 \<Rightarrow> string \<Rightarrow> string option \<Rightarrow> string option \<Rightarrow> ('a client_state_scheme, unit) io" where
  "pull_command P E dir address port protocol file_id file_key =
    seq (lift_res (get_user_key_dir (ce_home E))) (\<lambda>user_path.
    seq (file_exists (private_key_path user_path)) (\<lambda>pri_exists.
    seq (file_exists (public_key_path user_path)) (\<lambda>pub_exists.
    if \<not> pri_exists \<and> pub_exists then fail ''Public key exists but private key is missing, cannot pull.''
    else
    seq (load_signing_key P user_path) (\<lambda>signing_key.
    seq (case (file_id, file_key) of
           (Some fid, Some key) \<Rightarrow> ret (fid, key)
         | _ \<Rightarrow> seq (ask ''File ID cannot be empty'') (\<lambda>fid. seq (ask ''File key cannot be empty'') (\<lambda>key. ret (fid, key)))) (\<lambda>(file_id, file_key).
    if protocol = ''v1'' then
      seq (download_client P (ce_connect E address port) file_id file_key dir signing_key) (\<lambda>_.
      seq (lift_res (get_catalog_path (ce_home E))) (\<lambda>catalog_path.
      seq (file_exists catalog_path) (\<lambda>exists.
      if exists then
        seq (Catalog_read_or_create (ce_json E) catalog_path) (\<lambda>catalog.
        update_on_pull (ce_json E) (ce_now E) catalog_path file_id catalog)
      else ret ())))
    else if protocol = ''v2'' then wip ''UDP protocol is WIP''
    else fail (''Unknown protocol: '' @ protocol))))))"

text \<open>The listing is the recorded history, in whatever order the hash map has.\<close>

definition ls_command :: "cli_env \<Rightarrow> ('a client_state_scheme, string \<rightharpoonup> FileHistory) io" where
  "ls_command E =
    seq (lift_res (get_user_key_dir (ce_home E))) (\<lambda>_.
    seq (lift_res (get_catalog_path (ce_home E))) (\<lambda>catalog_path.
    seq (wrap_err (\<lambda>e. ''Failed to read catalog, make sure to push at least one file before listing: '' @ e)
           (Catalog_read_or_create (ce_json E) catalog_path)) (\<lambda>catalog.
    ret (file_map catalog))))"

definition status_command :: "prims \<Rightarrow> cli_env \<Rightarrow> string \<Rightarrow> u16 \<Rightarrow> string \<Rightarrow> ('a client_state_scheme, StatusHeader) io" where
  "status_command P E address port protocol =
    seq (lift_res (get_user_key_dir (ce_home E))) (\<lambda>user_path.
    seq (file_exists (private_key_path user_path)) (\<lambda>pri_exists.
    seq (file_exists (public_key_path user_path)) (\<lambda>pub_exists.
    if \<not> pri_exists \<and> pub_exists then fail ''Public key exists but private key is missing, cannot status.''
    else
    seq (load_signing_key P user_path) (\<lambda>signing_key.
    if protocol = ''v1'' then get_server_status P (ce_connect E address port) signing_key
    else if protocol = ''v2'' then wip ''UDP protocol is WIP''
    else fail (''Unknown protocol: '' @ protocol)))))"

text \<open>\<^verbatim>\<open>Duration::from_mins\<close>, in nanoseconds.\<close>

definition duration_from_mins :: "u64 \<Rightarrow> nat res" where
  "duration_from_mins mins =
    (if mins > (- 1) div 60 then Panic ''overflow in Duration::from_mins'' else Ok (unat mins * 60 * 1000000000))"

text \<open>\<open>net\<close> has the connections to an address, \<open>draw\<close> the random lengths. The number of workers is not used.\<close>

definition perf_command ::
    "prims \<Rightarrow> cli_env \<Rightarrow> (string \<Rightarrow> u16 \<Rightarrow> nat \<Rightarrow> dialed) \<Rightarrow> (nat \<Rightarrow> nat \<Rightarrow> (nat \<Rightarrow> byte) \<Rightarrow> nat \<times> nat) \<Rightarrow>
     string \<Rightarrow> u16 \<Rightarrow> u64 \<Rightarrow> u64 \<Rightarrow> 'a client_state_scheme \<Rightarrow> (unit res \<times> 'a client_state_scheme) option" where
  "perf_command P E net draw address port n freq =
    seqo (once (lift_res (get_user_key_dir (ce_home E)))) (\<lambda>user_path.
    seqo (once (file_exists (private_key_path user_path))) (\<lambda>pri_exists.
    seqo (once (file_exists (public_key_path user_path))) (\<lambda>pub_exists.
    if \<not> pri_exists \<and> \<not> pub_exists then once (fail ''No keys found, please run `rdrive key <args?>`.'')
    else
    seqo (once (load_signing_key P user_path)) (\<lambda>signing_key.
    seqo (once (lift_res (duration_from_mins freq))) (\<lambda>sample_duration.
    seqo (client_echo_perf P (net address port) draw signing_key sample_duration) (\<lambda>_.
    once (ret ())))))))"

text \<open>\<^verbatim>\<open>main\<close> after the arguments are parsed.\<close>

definition client_main ::
    "prims \<Rightarrow> cli_env \<Rightarrow> (string \<Rightarrow> u16 \<Rightarrow> nat \<Rightarrow> dialed) \<Rightarrow> (nat \<Rightarrow> nat \<Rightarrow> (nat \<Rightarrow> byte) \<Rightarrow> nat \<times> nat) \<Rightarrow>
     ClientCommands option \<Rightarrow> 'a client_state_scheme \<Rightarrow> (unit res \<times> 'a client_state_scheme) option" where
  "client_main P E net draw command =
    seqo (once (upd_state (\<lambda>w. w\<lparr>pool := replicate (1024 * 1024 * 32) 0\<rparr>))) (\<lambda>_.
    seqo (once (lift_res (get_user_key_dir (ce_home E)))) (\<lambda>_.
    case command of
      Some (Key address port auth rot) \<Rightarrow> once (key_command P E address port rot auth)
    | Some (Perf address port n sample) \<Rightarrow> perf_command P E net draw address port n sample
    | Some (Push file_path address port protocol file_key) \<Rightarrow> once (push_command P E file_path address port protocol file_key)
    | Some (Pull dir address port protocol file_id file_key) \<Rightarrow> once (pull_command P E dir address port protocol file_id file_key)
    | Some (Backup file_id file_key address port) \<Rightarrow> once (wip ''WIP backup feature'')
    | Some (ServeFile f address port) \<Rightarrow> once (wip ''Non-trivial to implement this feature'')
    | Some (Listen dir file_id address port) \<Rightarrow> once (wip ''Non-trivial to implement this feature'')
    | Some Ls \<Rightarrow> once (seq (ls_command E) (\<lambda>_. ret ()))
    | Some (ClientCommands.Status address port protocol) \<Rightarrow> once (seq (status_command P E address port protocol) (\<lambda>_. ret ()))
    | None \<Rightarrow> once (ret ())))"

section \<open>The program ends\<close>

lemma later_load: "steps later (load_signing_key P p)" "steps later (file_exists p)"
  unfolding load_signing_key_def file_exists_def
  by (intro later_rules later_fs_query)+

lemma perf_command_ends: "ticking w \<Longrightarrow> ends (perf_command P E net draw address port n freq) w"
  unfolding perf_command_def
  by (intro ends_seqo ends_if ends_once later_rules later_load client_echo_perf_ends)

text \<open>Every command comes to an end: all but the performance test are total, and that one ends with the clock.\<close>

lemma client_main_ends:
  fixes w :: "'a client_state_scheme"
  assumes "ticking w"
  obtains r w' where "client_main P E net draw command w = Some (r, w')"
proof -
  let ?w = "w\<lparr>pool := replicate (1024 * 1024 * 32) 0\<rparr>"
  have "ticking ?w" using assms by (simp add: ticking_def)
  then have p: "\<exists>r w'. perf_command P E net draw address port n freq ?w = Some (r, w')" for address port n freq
    using perf_command_ends unfolding ends_def by blast
  have o: "\<exists>r w'. once m ?w = Some (r, w')" for m :: "('a client_state_scheme, unit) io"
    by (simp add: once_def)
  have "\<exists>r w'. client_main P E net draw command w = Some (r, w')"
    using p o unfolding client_main_def
    by (cases "get_user_key_dir (ce_home E)") (auto simp: seqo_def once_def [of "upd_state _"] once_def [of "lift_res _"]
        upd_state_def lift_res_def split: option.split ClientCommands.split)
  then show thesis using that by blast
qed

section \<open>The protocol functions and the client's files\<close>

text \<open>Uploading, registering and rotating a key leave the client's files alone.\<close>

lemma upload_client_reads: "steps (\<lambda>(w :: 'a client_state_scheme) w'. disk w' = disk w) (upload_client P cr p fk fid sk)"
  unfolding upload_client_def bail_error_def read_warning_def stream_shutdown_def
  by (intro rd.steps_rules rd.steps_io rd.steps_fs_query rd.steps_upd client_handshake_reads) simp

lemma auth_client_reads: "steps (\<lambda>(w :: 'a client_state_scheme) w'. disk w' = disk w) (auth_client P cr sk pk old)"
  unfolding auth_client_def bail_error_def read_warning_def Let_def
  by (intro rd.steps_rules rd.steps_io client_handshake_reads)

section \<open>The catalog after a push\<close>

text \<open>The catalog a disk holds.\<close>

definition catalog_on :: "json \<Rightarrow> path \<Rightarrow> fs \<Rightarrow> Catalog option" where
  "catalog_on J p f = (if path_exists f p
     then (case read_to_string p f of Ok s \<Rightarrow> (case from_str J s of Inr c \<Rightarrow> Some c | Inl e \<Rightarrow> None) | _ \<Rightarrow> None)
     else Some Catalog_default)"

lemma not_prefix_butlast: "p \<noteq> [] \<Longrightarrow> \<not> prefix p (butlast p)"
  by (metis length_butlast length_greater_0_conv diff_less less_one not_less prefix_length_le)

lemma read_or_create_run:
  fixes w :: "'a conn_scheme"
  assumes "Catalog_read_or_create J p w = (Ok c, w')"
  shows "catalog_on J p (disk w) = Some c"
proof -
  obtain f where f: "p \<noteq> []" "create_dir_all (butlast p) (disk w) = Ok f"
    "(if path_exists f p then Catalog_read J p else ret Catalog_default) (w\<lparr>disk := f\<rparr>) = (Ok c, w')"
    using assms by (auto simp: Catalog_read_or_create_def seq_def fs_do_def get_state_def ret_def fail_def split: if_splits res.splits)
  have g: "fs_get f p = fs_get (disk w) p" using create_dir_all_get [OF f(2)] not_prefix_butlast [OF f(1)] by simp
  then have "path_exists f p = path_exists (disk w) p" "read_to_string p f = read_to_string p (disk w)"
    by (simp_all add: path_exists_def read_to_string_def file_read_def)
  with f(3) show ?thesis
    by (auto simp: catalog_on_def Catalog_read_def seq_def fs_query_def lift_res_def ret_def of_sum_def split: if_splits res.splits sum.splits)
qed

lemma catalog_on_written:
  assumes "fs_get f p = Some (FileNode (as_bytes s))" "from_str J s = Inr c" "utf8_valid (as_bytes s)"
  shows "catalog_on J p f = Some c"
  using assms by (simp add: catalog_on_def path_exists_def read_to_string_saved)

definition tracked_ids :: "Catalog \<Rightarrow> string \<Rightarrow> string list" where
  "tracked_ids c name = (case file_index c name of Some ids \<Rightarrow> ids | None \<Rightarrow> [])"

lemma choose_id_tracked:
  assumes "choose_id E c name w = (Ok fid, w')"
  shows "fid \<in> insert (ce_uuid E) (set (tracked_ids c name))"
  using assms
  by (auto simp: choose_id_def tracked_ids_def ret_def fail_def split: option.splits list.splits if_splits elim!: seq_OkE)

lemma choose_pushable:
  "file_map c (ce_uuid E) = None \<Longrightarrow> fid \<in> insert (ce_uuid E) (set (tracked_ids c name)) \<Longrightarrow> pushable c name fid"
  by (auto simp: pushable_def tracked_ids_def split: option.splits)

lemma push_inputs_reads: "steps (\<lambda>(w :: 'a client_state_scheme) w'. disk w' = disk w) (push_inputs P E file_path fk)"
  unfolding push_inputs_def file_exists_def load_signing_key_def ask_def
  by (intro rd.steps_rules rd.steps_fs_query run_rel_option [OF rd.run_rel_axioms] client_reads)

lemma push_inputs_name: "push_inputs P E file_path fk w = (Ok (sk, key, name), w') \<Longrightarrow> path_file_name file_path = Some name"
  unfolding push_inputs_def
  by (auto elim!: seq_OkE simp: ret_def fail_def lift_res_def split: if_splits option.splits)

lemma choose_id_reads: "steps (\<lambda>(w :: 'a client_state_scheme) w'. disk w' = disk w) (choose_id E c name)"
  unfolding choose_id_def
  by (cases "file_index c name"; cases "filter (\<lambda>uuid. file_map c uuid = None) (tracked_ids c name)")
     (auto simp: tracked_ids_def split: list.split intro!: rd.steps_rules client_reads)

lemma push_parts:
  fixes w :: "'a client_state_scheme"
  assumes "push_command P E file_path address port protocol fk w = (Ok (), w')"
  obtains sk key name p c fid r u u1 u2 u3 where "path_file_name file_path = Some name" "get_catalog_path (ce_home E) = Ok p"
    "catalog_on (ce_json E) p (disk w) = Some c" "choose_id E c name u1 = (Ok fid, u2)"
    "upload_client P (ce_connect E address port) file_path key fid sk u2 = (Ok r, u3)" "protocol = ''v1''"
    "update_on_push (ce_json E) (ce_now E) p name fid c u3 = (Ok (), w')"
proof -
  let ?J = "ce_json E"
  obtain sk key name u where u: "push_inputs P E file_path fk w = (Ok (sk, key, name), u)"
    and r: "seq (lift_res (get_catalog_path (ce_home E))) (\<lambda>catalog_path.
      seq (Catalog_read_or_create ?J catalog_path) (\<lambda>catalog.
      seq (choose_id E catalog name) (\<lambda>file_id.
      seq (if protocol = ''v1'' then upload_client P (ce_connect E address port) file_path key file_id sk
           else if protocol = ''v2'' then wip ''UDP protocol is WIP'' else fail (''Unknown protocol: '' @ protocol)) (\<lambda>_.
      update_on_push ?J (ce_now E) catalog_path name file_id catalog)))) u = (Ok (), w')"
    using assms unfolding push_command_def by (rule seq_OkE) (auto split: prod.splits)
  obtain p c fid x u1 u2 u3 where "get_catalog_path (ce_home E) = Ok p" "Catalog_read_or_create ?J p u = (Ok c, u1)"
    "choose_id E c name u1 = (Ok fid, u2)"
    "(if protocol = ''v1'' then upload_client P (ce_connect E address port) file_path key fid sk
      else if protocol = ''v2'' then wip ''UDP protocol is WIP'' else fail (''Unknown protocol: '' @ protocol)) u2 = (Ok x, u3)"
    "update_on_push ?J (ce_now E) p name fid c u3 = (Ok (), w')"
    using r by (elim lift_seqE seq_OkE) blast
  moreover have "disk u = disk w" by (rule stepsD [OF push_inputs_reads u])
  moreover note push_inputs_name [OF u]
  ultimately show thesis
    by (intro that [of name p c u1 fid u2 key sk x u3])
       (auto dest: read_or_create_run simp: wip_def lift_res_def fail_def split: if_splits)
qed


section \<open>Keys that were saved can be loaded\<close>

lemma hex_text:
  assumes "hex_ok P"
  shows "trim (hex_encode P b) = hex_encode P b" "utf8_valid (as_bytes (hex_encode P b))"
proof -
  have s: "set (hex_encode P b) \<subseteq> set hex_digits" using assms by (simp add: hex_ok_def)
  have w: "\<not> is_ws c" "(of_char c :: nat) < 128" if "c \<in> set hex_digits" for c
    using that by (auto simp: hex_digits_def is_ws_def)
  have id: "dropWhile is_ws xs = xs" if "set xs \<subseteq> set hex_digits" for xs
    using that w by (cases xs) auto
  show "trim (hex_encode P b) = hex_encode P b" using s by (simp add: trim_def id)
  show "utf8_valid (as_bytes (hex_encode P b))" using s w by (intro utf8_ascii) auto
qed

lemma decode_key_hex: "hex_ok P \<Longrightarrow> length b = 32 \<Longrightarrow> decode_key P what (hex_encode P b) = Ok b"
  by (simp add: decode_key_def hex_text hex_roundtrip)

lemma read_hex: "hex_ok P \<Longrightarrow> fs_get f p = Some (FileNode (as_bytes (hex_encode P b))) \<Longrightarrow> read_to_string p f = Ok (hex_encode P b)"
  by (simp add: read_to_string_saved hex_text)

lemma load_signing_key_saved:
  assumes "hex_ok P" "length sk = 32" "fs_get (disk w) (private_key_path user_path) = Some (FileNode (as_bytes (hex_encode P sk)))"
  shows "load_signing_key P user_path w = (Ok sk, w)"
  using assms by (simp add: load_signing_key_def seq_def fs_query_def read_hex lift_res_def decode_key_hex)

section \<open>A concrete push\<close>

definition demo_key_hex :: bytes where
  "demo_key_hex = as_bytes (hex_encode demo_two (pad 32 [6]))"

definition demo_home_fs :: fs where
  "demo_home_fs = [([''f''], FileNode demo_content),
     ([''h'', ''.rdrive'', ''user'', ''private_ed25519.key''], FileNode demo_key_hex)]"

text \<open>A serde_json that writes the one catalog a first push makes.\<close>

definition demo_env :: cli_env where
  "demo_env = \<lparr>ce_home = Some [''h''],
     ce_json = \<lparr>to_string_pretty = (\<lambda>_. Inr ''{}''), from_str = (\<lambda>_. Inr (record_push ''now'' ''f'' (replicate 32 CHR ''a'') Catalog_default))\<rparr>,
     ce_connect = (\<lambda>_ _. Ok ''127.0.0.1:3000''), ce_uuid = replicate 32 CHR ''a'', ce_now = ''now''\<rparr>"

lemma demo_user_dir:
  "get_user_key_dir (Some [''h'']) = Ok [''h'', ''.rdrive'', ''user'']"
  "get_catalog_path (Some [''h'']) = Ok [''h'', ''.rdrive'', ''user'', ''catalog.map'']"
  by (simp_all add: get_catalog_path_def get_user_key_dir_def home_sub_def path_join_def components_def)

lemma demo_key_paths:
  "private_key_path [''h'', ''.rdrive'', ''user''] = [''h'', ''.rdrive'', ''user'', ''private_ed25519.key'']"
  "public_key_path [''h'', ''.rdrive'', ''user''] = [''h'', ''.rdrive'', ''user'', ''public_ed25519.key'']"
  by (simp_all add: private_key_path_def public_key_path_def path_join_def components_def)

lemma demo_push_inputs:
  assumes "disk w = demo_home_fs"
  shows "push_inputs demo_two demo_env [''f''] (Some ''k'') w = (Ok (pad 32 [6], ''k'', ''f''), w)"
proof -
  have d: "fs_get demo_home_fs [''f''] = Some (FileNode demo_content)"
    "fs_get demo_home_fs [''h'', ''.rdrive'', ''user'', ''private_ed25519.key''] = Some (FileNode demo_key_hex)"
    by (simp_all add: demo_home_fs_def fs_get_def)
  have "load_signing_key demo_two [''h'', ''.rdrive'', ''user''] w = (Ok (pad 32 [6]), w)"
    using d assms by (intro load_signing_key_saved) (simp_all add: demo_two_laws demo_key_paths demo_key_hex_def)
  with d assms show ?thesis
    by (simp add: push_inputs_def seq_def demo_env_def demo_user_dir demo_key_paths file_exists_def get_state_def ret_def lift_res_def
        path_exists_def path_file_name_def)
qed

lemma demo_catalog_created:
  obtains f where "\<forall>w :: client_state. disk w = demo_home_fs \<longrightarrow>
      Catalog_read_or_create (ce_json demo_env) [''h'', ''.rdrive'', ''user'', ''catalog.map''] w = (Ok Catalog_default, w\<lparr>disk := f\<rparr>)" "fs_get f [''f''] = Some (FileNode demo_content)"
    "fs_get f [''h'', ''.rdrive'', ''user'', ''catalog.map''] = None" "fs_get f [''h'', ''.rdrive'', ''user''] = Some DirNode"
proof -
  let ?u = "[''h'', ''.rdrive'', ''user'']"
  have pre: "prefix q ?u \<longleftrightarrow> q = [] \<or> q = [''h''] \<or> q = [''h'', ''.rdrive''] \<or> q = ?u" for q
    by (auto simp: prefix_Cons)
  have "\<not> list_ex (is_file demo_home_fs) (prefixes ?u)"
    by (simp add: demo_home_fs_def is_file_def fs_get_def)
  then obtain f where f: "create_dir_all ?u demo_home_fs = Ok f" using create_dir_all_free by blast
  note g = create_dir_all_get [OF f]
  have h: "fs_get f [''f''] = Some (FileNode demo_content)" "fs_get f (?u @ [''catalog.map'']) = None" "fs_get f ?u = Some DirNode"
    unfolding g pre by (simp_all add: demo_home_fs_def fs_get_def)
  then have "Catalog_read_or_create (ce_json demo_env) (?u @ [''catalog.map'']) w = (Ok Catalog_default, w\<lparr>disk := f\<rparr>)"
    if "disk w = demo_home_fs" for w :: client_state
    using f that by (simp add: Catalog_read_or_create_def seq_def ret_def fs_do_def get_state_def path_exists_def)
  with h show thesis by (intro that [of f]) simp_all
qed

lemma demo_push_run:
  "\<exists>Y w'. push_command demo_two demo_env [''f''] ''127.0.0.1'' 3000 ''v1'' (Some ''k'') ((demo_two_client demo_home_fs)\<lparr>inp := Y\<rparr>) = (Ok (), w')"
proof -
  let ?p = "[''h'', ''.rdrive'', ''user'', ''catalog.map'']" and ?id = "replicate 32 CHR ''a'' :: string"
  obtain f where f: "\<forall>w :: client_state. disk w = demo_home_fs \<longrightarrow> Catalog_read_or_create (ce_json demo_env) ?p w = (Ok Catalog_default, w\<lparr>disk := f\<rparr>)"
    "fs_get f [''f''] = Some (FileNode demo_content)" "fs_get f ?p = None" "fs_get f [''h'', ''.rdrive'', ''user''] = Some DirNode"
    by (rule demo_catalog_created)
  obtain Y v' where up: "upload_client demo_two (Ok ''127.0.0.1:3000'') [''f''] ''k'' ?id (pad 32 [6]) ((demo_two_client f)\<lparr>inp := Y\<rparr>) = (Ok ?id, v')"
    "disk v' = f"
    by (rule upload_exchange [OF demo_two_upload [OF f(2), of "pad 32 [6]"]]) (use that in \<open>simp add: demo_upload_fields demo_two_fields\<close>)
  let ?w = "(demo_two_client demo_home_fs)\<lparr>inp := Y\<rparr>"
  have w: "?w\<lparr>disk := f\<rparr> = (demo_two_client f)\<lparr>inp := Y\<rparr>" "disk ?w = demo_home_fs" by (simp_all add: demo_two_client_def)
  have ch: "choose_id demo_env Catalog_default ''f'' u = (Ok ?id, u)" for u :: client_state
    by (simp add: choose_id_def Catalog_default_def demo_env_def ret_def)
  have "file_write ?p (as_bytes ''{}'') f = Ok (fs_set ?p (FileNode (as_bytes ''{}'')) f)"
    using f(3,4) by (simp add: file_write_def path_is_dir_def)
  then have pu: "update_on_push (ce_json demo_env) (ce_now demo_env) ?p ''f'' ?id Catalog_default v' =
      (Ok (), v'\<lparr>disk := fs_set ?p (FileNode (as_bytes ''{}'')) f\<rparr>)"
    using up(2) by (simp add: update_on_push_def Catalog_write_def demo_env_def seq_def lift_res_def fs_do_def)
  have cr: "ce_connect demo_env ''127.0.0.1'' 3000 = Ok ''127.0.0.1:3000''" "get_catalog_path (ce_home demo_env) = Ok ?p"
    by (simp_all add: demo_env_def demo_user_dir)
  show ?thesis
    using f(1) w up(1) ch pu demo_push_inputs [OF w(2)]
    by (intro exI [of _ Y] exI [of _ "v'\<lparr>disk := fs_set ?p (FileNode (as_bytes ''{}'')) f\<rparr>"])
       (simp add: push_command_def seq_def cr lift_res_def)
qed


section \<open>Rotating the client's key\<close>

lemma reads_then:
  assumes "steps (\<lambda>(w :: 'a client_state_scheme) w'. disk w' = disk w) m" "seq m f w = (r, w')"
  obtains (stop) "\<forall>x. r \<noteq> Ok x" "disk w' = disk w" | (go) a w1 where "m w = (Ok a, w1)" "disk w1 = disk w" "f a w1 = (r, w')"
proof -
  obtain x w1 where m: "m w = (x, w1)" by force
  have d: "disk w1 = disk w" by (rule stepsD [OF assms(1) m])
  from assms(2) m d show thesis by (cases x) (auto simp: seq_def intro: stop go)
qed

lemma key_reads:
  "steps (\<lambda>(w :: 'a client_state_scheme) w'. disk w' = disk w) (existing_key_pair up)"
  "steps (\<lambda>(w :: 'a client_state_scheme) w'. disk w' = disk w) (decode_pair P a b)"
  "steps (\<lambda>(w :: 'a client_state_scheme) w'. disk w' = disk w) (new_keypair P)"
  "steps (\<lambda>(w :: 'a client_state_scheme) w'. disk w' = disk w) (lift_res x)"
  unfolding existing_key_pair_def decode_pair_def new_keypair_def file_exists_def
  by (intro rd.steps_rules rd.steps_io rd.steps_fs_query)+

lemma new_keypair_fresh: "new_keypair P w = (Ok (a, b), w') \<Longrightarrow> b = ed_public P a \<and> length a = 32"
  by (auto simp: new_keypair_def seq_def fill_bytes_run lift_res_def generate_ed25519_keypair_def Let_def split: sum.splits)

lemma key_files: "private_key_path up = up @ [''private_ed25519.key'']" "public_key_path up = up @ [''public_ed25519.key'']"
  by (simp_all add: private_key_path_def public_key_path_def path_join_def components_def)

lemma save_keys_load:
  assumes "save_keys P up pri pub w = (Ok (), w')" "hex_ok P" "length pri = 32"
  shows "load_signing_key P up w' = (Ok pri, w')"
proof -
  obtain f1 f2 f3 where f: "file_write (private_key_path up) (as_bytes (hex_encode P pri)) f1 = Ok f2"
    "file_write (public_key_path up) (as_bytes (hex_encode P pub)) f2 = Ok f3" "disk w' = f3"
    using assms(1) by (auto simp: save_keys_def seq_def fs_do_def split: res.splits)
  have "fs_get (disk w') (private_key_path up) = Some (FileNode (as_bytes (hex_encode P pri)))"
    using file_write_get [OF f(1)] file_write_get [OF f(2)] f(3) by (simp add: key_files)
  then show ?thesis by (rule load_signing_key_saved [OF assms(2,3)])
qed

lemma rotate_keys_synced:
  fixes w :: "'a client_state_scheme"
  assumes "rotate_keys P cr up ex w = (r, w')"
  obtains "r \<noteq> Ok ()" "disk w' = disk w"
    | sk old pri and u u' :: "'a client_state_scheme" where "auth_client P cr sk (ed_public P pri) (Some old) u = (Ok (), u')"
      "length pri = 32" "disk u' = disk w" "save_keys P up pri (ed_public P pri) u' = (r, w')"
proof -
  from assms show thesis unfolding rotate_keys_def
  proof (cases rule: reads_then [OF key_reads(4), consumes 1, case_names stop go])
    case stop
    with that(1) show thesis by blast
  next
    case (go k w1)
    then have "seq (decode_pair P (fst k) (snd k)) (\<lambda>(signing_key, old_public_key).
        seq (new_keypair P) (\<lambda>(new_pri, new_pub).
        seq (auth_client P cr signing_key new_pub (Some old_public_key)) (\<lambda>_. save_keys P up new_pri new_pub))) w1 = (r, w')"
      by (simp add: case_prod_unfold)
    then show thesis
    proof (cases rule: reads_then [OF key_reads(2), consumes 1, case_names stop go])
      case stop
      with go(2) that(1) show thesis by simp
    next
      case (go q w2)
      then have "seq (new_keypair P) (\<lambda>(new_pri, new_pub).
          seq (auth_client P cr (fst q) new_pub (Some (snd q))) (\<lambda>_. save_keys P up new_pri new_pub)) w2 = (r, w')" "disk w2 = disk w"
        using \<open>disk w1 = disk w\<close> by (simp_all add: case_prod_unfold)
      from this(1) show thesis
      proof (cases rule: reads_then [OF key_reads(3), consumes 1, case_names stop go])
        case stop
        with \<open>disk w2 = disk w\<close> that(1) show thesis by simp
      next
        case (go n w3)
        have n: "snd n = ed_public P (fst n)" "length (fst n) = 32" using new_keypair_fresh [of P w2 "fst n" "snd n"] go(1) by simp_all
        have "seq (auth_client P cr (fst q) (ed_public P (fst n)) (Some (snd q))) (\<lambda>_. save_keys P up (fst n) (ed_public P (fst n))) w3 = (r, w')"
          using go(3) n(1) by (simp add: case_prod_unfold)
        then show thesis
          by (cases rule: reads_then [OF auth_client_reads, consumes 1, case_names stop go])
             (use that n(2) go(2) \<open>disk w2 = disk w\<close> in auto)
      qed
    qed
  qed
qed


text \<open>A client whose server accepts the rotation.\<close>

definition demo_rot :: prims where
  "demo_rot = demo_two\<lparr>pc_Command := table_codec [Auth 2]\<rparr>"

definition demo_rot_fs :: fs where
  "demo_rot_fs = [([''h''], DirNode), ([''h'', ''.rdrive''], DirNode), ([''h'', ''.rdrive'', ''user''], DirNode),
     ([''h'', ''.rdrive'', ''user'', ''private_ed25519.key''], FileNode demo_key_hex),
     ([''h'', ''.rdrive'', ''user'', ''public_ed25519.key''], FileNode demo_key_hex)]"

lemma demo_rot_laws: "ed_ok demo_rot" "sha_ok demo_rot" "hex_ok demo_rot" "aead_ok demo_rot" "dh_ok demo_rot"
  by (rule demo_laws; simp add: demo_rot_def demo_two_def demo_hs_def)+

lemma demo_rot_codecs:
  "pc_ClientHello demo_rot = table_codec [demo_ch]" "pc_ServerHello demo_rot = table_codec [demo_sh]" "ed_public demo_rot = pad 32"
  "pc_Command demo_rot = table_codec [Auth 2]" "hex_encode demo_rot = hex_encode demo_two" "hex_encode demo_hs = hex_encode demo_two"
  "ed_verifying_key demo_rot = (\<lambda>b. if length b = 32 then Inr b else Inl ''bad key length'')"
  "client_hello_of demo_rot (\<lambda>_. 1) = demo_ch" "server_hello_of demo_rot [5] (pad 32 [5]) demo_ch (\<lambda>_. 2) = demo_sh"
  using demo_two_hellos demo_two_codecs
  by (simp_all add: demo_rot_def client_hello_of_def server_hello_of_def, simp_all add: demo_two_def demo_hs_def)

lemma demo_rot_parties: "parties demo_rot demo_srv_cfg ''127.0.0.1:3000'' sk (demo_two_client f) (demo_two_server g)"
  by (simp add: parties_def demo_rot_laws demo_rot_codecs demo_two_client_def demo_client_conn_def demo_two_server_def demo_sv_def
      demo_srv_cfg_def carried_def table_codec_single raw_fits_def writable_def)

text \<open>What the server sends in the course of the rotation.\<close>

definition demo_rot_answers :: bytes where
  "demo_rot_answers = (let v = demo_two_client demo_rot_fs; w = demo_two_server []; key = shared_key demo_rot v w in
     server_opening demo_rot demo_srv_cfg v w @ sealed_frame demo_rot key (replicate 12 0) (replicate 64 0) @ sealed_frame demo_rot key (replicate 12 0) [1])"

lemma demo_rot_auth:
  "\<exists>v'. auth_client demo_rot (Ok ''127.0.0.1:3000'') (pad 32 [6]) (pad 32 pk) (Some (pad 32 [6])) ((demo_two_client demo_rot_fs)\<lparr>inp := demo_rot_answers\<rparr>) = (Ok (), v')"
proof -
  let ?v = "(demo_two_client demo_rot_fs)\<lparr>inp := demo_rot_answers\<rparr>" and ?w = "demo_two_server []" and ?sk = "pad 32 [6] :: bytes"
  let ?key = "shared_key demo_rot ?v ?w" and ?n = "replicate 12 0 :: bytes" and ?c = "replicate 64 0 :: bytes"
  let ?rest = "sealed_frame demo_rot ?key ?n ?c @ sealed_frame demo_rot ?key ?n [1]"
  have i: "inp ?v = server_opening demo_rot demo_srv_cfg ?v ?w @ ?rest"
    by (simp add: demo_rot_answers_def Let_def server_opening_def)
  have p: "parties demo_rot demo_srv_cfg ''127.0.0.1:3000'' ?sk ?v ?w" using demo_rot_parties by simp
  note hs = client_opens [OF p i]
  have s: "length (ed_sign demo_rot ?sk m) = 64" for m using demo_rot_laws(1) by (simp add: ed_ok_def)
  have wr: "writable (65 + (128 + 64)) (client_after_handshake demo_rot ?sk c ?rest ?v)" for c
    by (simp add: writable_def client_after_handshake_def Let_def demo_two_client_def demo_client_conn_def demo_rot_codecs table_codec_single)
  let ?packet = "?c @ ed_sign demo_rot ?sk ?c @ ?sk @ pad 32 pk"
  have l: "length ?packet = 128 + 64" by (simp add: s)
  show ?thesis
    by (rule exE [OF auth_client_run [OF parties_channel [OF p] hs, where old = "Some ?sk" and pk = "pad 32 pk" and nonce = ?c and ?n1.0 = ?n and ?n2.0 = ?n]])
       (use wr l in \<open>auto simp: demo_rot_codecs table_codec_single sealed_fits_def auth_packet_def auth_request_def s\<close>)
qed

lemma demo_rot_save:
  assumes "disk v = demo_rot_fs"
  shows "\<exists>v'. save_keys P [''h'', ''.rdrive'', ''user''] pri pub v = (Ok (), v')"
proof -
  let ?u = "[''h'', ''.rdrive'', ''user'']"
  have "\<not> list_ex (is_file demo_rot_fs) (prefixes ?u)" by (simp add: demo_rot_fs_def is_file_def fs_get_def)
  then obtain f where f: "create_dir_all ?u demo_rot_fs = Ok f" using create_dir_all_free by blast
  have g: "fs_get f ?u = Some DirNode" "fs_get f (private_key_path ?u) = Some (FileNode demo_key_hex)" "fs_get f (public_key_path ?u) = Some (FileNode demo_key_hex)"
    using create_dir_all_get [OF f] by (simp_all add: demo_rot_fs_def fs_get_def demo_key_paths)
  then show ?thesis
    using assms f by (simp add: save_keys_def seq_def fs_do_def file_write_def path_is_dir_def demo_key_paths)
qed


end
