(* ===== verification/Startup.thy ===== *)
theory Startup
  imports Cli
begin

text \<open>
  Starting the server: \<^verbatim>\<open>src/bin/server.rs\<close>, \<^verbatim>\<open>src/service.rs\<close> and the lazily read keys and limits of
  \<^verbatim>\<open>src/lib.rs\<close>. \<^verbatim>\<open>std::process::exit(1)\<close> is an error value, as in the client.
\<close>

section \<open>The server's key pair\<close>

text \<open>
  \<^verbatim>\<open>SERVER_PUB_KEY_BYTES\<close> and \<^verbatim>\<open>SERVER_PRI_KEY_BYTES\<close>, read from disk when a connection first needs them.
  The conversion error shows the decoded bytes.
\<close>

definition server_key_bytes :: "prims \<Rightarrow> path option \<Rightarrow> string \<Rightarrow> string \<Rightarrow> ('a conn_scheme, bytes) io" where
  "server_key_bytes P home what name =
    seq (wrap_err (\<lambda>e. ''Failed to get server key directory: '' @ e) (lift_res (get_server_key_dir home))) (\<lambda>dir.
    seq (wrap_err (\<lambda>e. ''Failed to read server '' @ what @ '' key: '' @ e) (fs_query (read_to_string (path_join dir name)))) (\<lambda>key_hex.
    seq (lift_res (of_sum (\<lambda>e. ''Failed to decode server '' @ what @ '' key hex: '' @ e) (hex_decode P (trim key_hex)))) (\<lambda>b.
    if length b = 32 then ret b else fail (''Failed to convert server '' @ what @ '' key to 32 bytes: '' @ show_vec b))))"

definition SERVER_PUB_KEY_BYTES :: "prims \<Rightarrow> path option \<Rightarrow> ('a conn_scheme, bytes) io" where
  "SERVER_PUB_KEY_BYTES P home = server_key_bytes P home ''public'' ''public_ed25519.key''"

definition SERVER_PRI_KEY_BYTES :: "prims \<Rightarrow> path option \<Rightarrow> ('a conn_scheme, bytes) io" where
  "SERVER_PRI_KEY_BYTES P home = server_key_bytes P home ''private'' ''private_ed25519.key''"

text \<open>A pair is made unless both files are there; the fingerprint printed is that of the public key file.\<close>

definition ensure_server_keys :: "prims \<Rightarrow> path \<Rightarrow> ('a conn_scheme, string) io" where
  "ensure_server_keys P key_dir =
    seq (file_exists (private_key_path key_dir)) (\<lambda>pri_exists.
    seq (file_exists (public_key_path key_dir)) (\<lambda>pub_exists.
    seq (if pri_exists \<and> pub_exists then ret ()
         else
           seq (new_keypair P) (\<lambda>(new_pri, new_pub).
           seq (fs_do (create_dir_all key_dir)) (\<lambda>_.
           seq (fs_do (file_write (private_key_path key_dir) (as_bytes (trim (hex_encode P new_pri))))) (\<lambda>_.
           fs_do (file_write (public_key_path key_dir) (as_bytes (trim (hex_encode P new_pub)))))))) (\<lambda>_.
    seq (fs_query (read_to_string (public_key_path key_dir))) (\<lambda>pub_hex.
    ret (hex_encode P (sha256 P (as_bytes pub_hex)))))))"

section \<open>The service\<close>

definition parse_u16 :: "string \<Rightarrow> u16 option" where
  "parse_u16 s = (case parse_u64 s of None \<Rightarrow> None | Some n \<Rightarrow> if unat n < 2 ^ 16 then Some (of_nat (unat n)) else None)"

text \<open>The port and the storage directory \<^verbatim>\<open>start_tcp_server\<close> is called with.\<close>

definition serve_tcp :: "path option \<Rightarrow> env \<Rightarrow> u16 option \<Rightarrow> ('a conn_scheme, u16 \<times> path) io" where
  "serve_tcp home e port =
    (let port = (case port of Some p \<Rightarrow> p | None \<Rightarrow> env_or parse_u16 3000 e ''PORT'') in
     seq (lift_res (get_storage_dir home)) (\<lambda>storage_path.
     seq (fs_do (create_dir_all storage_path)) (\<lambda>_.
     seq (lift_res (get_authorized_client_dir home)) (\<lambda>authorised_client.
     seq (fs_do (create_dir_all authorised_client)) (\<lambda>_.
     ret (port, storage_path))))))"

definition server_main :: "prims \<Rightarrow> path option \<Rightarrow> env \<Rightarrow> ServerCommands option \<Rightarrow> ('a conn_scheme, (u16 \<times> path) option) io" where
  "server_main P home e command = (case command of
     Some (Serve port protocol) \<Rightarrow>
       if protocol = ''v1'' then
         seq (lift_res (get_server_key_dir home)) (\<lambda>key_dir.
         seq (ensure_server_keys P key_dir) (\<lambda>_.
         seq (serve_tcp home e (Some port)) (\<lambda>s. ret (Some s))))
       else if protocol = ''v2'' then seq (serve_tcp home e (Some port)) (\<lambda>s. ret (Some s))
       else fail (''Unknown protocol: '' @ protocol)
   | Some Rotate \<Rightarrow> fail ''WIP: Key rotation is not implemented yet''
   | None \<Rightarrow> ret None)"

text \<open>
  The shared limiter; \<open>parse_f64\<close> is \<^verbatim>\<open>f64::from_str\<close> on the two values of the environment.
\<close>

definition RATE_LIMITER :: "(string \<Rightarrow> rat option) \<Rightarrow> env \<Rightarrow> RateLimiter" where
  "RATE_LIMITER parse_f64 e = RateLimiter_init (env_or parse_f64 20 e ''RATE_LIMIT_MAX_TOKENS'') (env_or parse_f64 10 e ''RATE_LIMIT_REFILL_RATE'')"

section \<open>Changing the environment file\<close>

text \<open>\<^verbatim>\<open>str::lines\<close>: every line feed ends a line, a carriage return before it is dropped, a final empty piece is no line.\<close>

definition chomp_cr :: "string \<Rightarrow> string" where
  "chomp_cr l = (if l \<noteq> [] \<and> last l = CHR 0x0D then butlast l else l)"

fun lines_from :: "string \<Rightarrow> string \<Rightarrow> string list" where
  "lines_from acc [] = (if acc = [] then [] else [acc])"
| "lines_from acc (c # cs) = (if c = CHR 0x0A then chomp_cr acc # lines_from [] cs else lines_from (acc @ [c]) cs)"

definition env_line_field :: "string \<Rightarrow> string option" where
  "env_line_field l = (if CHR ''='' \<in> set l then Some (trim (takeWhile (\<lambda>c. c \<noteq> CHR ''='') l)) else None)"

definition join_lines :: "string list \<Rightarrow> string" where
  "join_lines ls = (case ls of [] \<Rightarrow> [] | l # ls \<Rightarrow> l @ concat (map (\<lambda>m. CHR 0x0A # m) ls))"

definition updated_env :: "string \<Rightarrow> string \<Rightarrow> string \<Rightarrow> bool \<times> string" where
  "updated_env field value content =
    (let ls = lines_from [] content;
         hit = (\<lambda>l. env_line_field l = Some field);
         updated = list_ex hit ls;
         new_line = field @ ''='' @ value;
         ls' = map (\<lambda>l. if hit l then new_line else l) ls;
         ls' = (if updated then ls' else ls' @ [new_line]);
         content = join_lines ls';
         content = (if content \<noteq> [] \<and> last content = CHR 0x0A then content else content @ [CHR 0x0A])
     in (updated, content))"

text \<open>\<^verbatim>\<open>Path::set_extension\<close>: the stem ends before the last dot that is not the name's first character.\<close>

definition file_stem :: "string \<Rightarrow> string" where
  "file_stem n = (let s = butlast (rev (dropWhile (\<lambda>c. c \<noteq> CHR ''.'') (rev n))) in if s = [] then n else s)"

text \<open>
  \<open>rand\<close> is the random number. The parent of a path of one component is the empty path, which cannot be opened.
\<close>

definition atomic_write :: "nat \<Rightarrow> path \<Rightarrow> bytes \<Rightarrow> ('a conn_scheme, unit) io" where
  "atomic_write rand target data =
    (let tmp = butlast target @ [file_stem (last target) @ ''.tmp.'' @ show_nat rand] in
     seq (wrap_err (\<lambda>_. ''failed to create temporary file'') (fs_do (file_write tmp []))) (\<lambda>_.
     seq (append_disk tmp data) (\<lambda>_.
     seq (wrap_err (\<lambda>_. ''failed to atomic rename'') (fs_do (fs_rename tmp target))) (\<lambda>_.
     if butlast tmp = [] then fail ''No such file or directory (os error 2)''
     else seq (get_state (\<lambda>w. path_exists (disk w) (butlast tmp))) (\<lambda>ok.
       if ok then ret () else fail ''No such file or directory (os error 2)'')))))"

definition update_env :: "nat \<Rightarrow> string \<Rightarrow> string \<Rightarrow> ('a conn_scheme, bool) io" where
  "update_env rand field value =
    seq (wrap_err (\<lambda>e. ''Failed to read file content: '' @ e) (fs_query (read_to_string [''.env'']))) (\<lambda>content.
    case updated_env field value content of (updated, content) \<Rightarrow>
      seq (wrap_err (\<lambda>_. ''Failed to write updated .env file atomically'') (atomic_write rand [''.env''] (as_bytes content))) (\<lambda>_.
      ret updated))"

section \<open>The keys a first start makes\<close>

lemma hex_no_trim: "hex_ok P \<Longrightarrow> trim (hex_encode P b) = hex_encode P b"
  by (rule hex_text)

lemma server_key_loaded:
  assumes "hex_ok P" "get_server_key_dir home = Ok dir" "length b = 32"
    "fs_get (disk w) (path_join dir name) = Some (FileNode (as_bytes (hex_encode P b)))"
  shows "server_key_bytes P home what name w = (Ok b, w)"
  using assms by (simp add: server_key_bytes_def seq_def wrap_err_def lift_res_def fs_query_def read_hex hex_no_trim hex_roundtrip ret_def)

lemma ensure_server_keys_made:
  fixes w :: "'a conn_scheme"
  assumes "ensure_server_keys P dir w = (Ok fp, w')" "hex_ok P"
    "\<not> (path_exists (disk w) (private_key_path dir) \<and> path_exists (disk w) (public_key_path dir))"
  obtains sk where "length sk = 32" "fs_get (disk w') (private_key_path dir) = Some (FileNode (as_bytes (hex_encode P sk)))"
    "fs_get (disk w') (public_key_path dir) = Some (FileNode (as_bytes (hex_encode P (ed_public P sk))))"
proof -
  let ?make = "seq (new_keypair P) (\<lambda>(new_pri, new_pub).
    seq (fs_do (create_dir_all dir)) (\<lambda>_.
    seq (fs_do (file_write (private_key_path dir) (as_bytes (hex_encode P new_pri)))) (\<lambda>_.
    fs_do (file_write (public_key_path dir) (as_bytes (hex_encode P new_pub))))))"
  have "seq ?make (\<lambda>_. seq (fs_query (read_to_string (public_key_path dir))) (\<lambda>pub_hex. ret (hex_encode P (sha256 P (as_bytes pub_hex))))) w = (Ok fp, w')"
    using assms(1,3) by (simp add: ensure_server_keys_def file_exists_def get_state_def hex_no_trim [OF assms(2)] seq_def [of "get_state _"] seq_def [of "\<lambda>s. (Ok _, s)"] cong: if_cong)
  then obtain x w1 where m: "?make w = (Ok x, w1)" and r: "seq (fs_query (read_to_string (public_key_path dir))) (\<lambda>pub_hex. ret (hex_encode P (sha256 P (as_bytes pub_hex)))) w1 = (Ok fp, w')"
    by (rule seq_OkE)
  have w': "w' = w1" using r by (auto elim!: seq_OkE simp: fs_query_def ret_def)
  obtain k w0 where k: "new_keypair P w = (Ok k, w0)" and t: "(\<lambda>(new_pri, new_pub).
    seq (fs_do (create_dir_all dir)) (\<lambda>_.
    seq (fs_do (file_write (private_key_path dir) (as_bytes (hex_encode P new_pri)))) (\<lambda>_.
    fs_do (file_write (public_key_path dir) (as_bytes (hex_encode P new_pub)))))) k w0 = (Ok x, w1)"
    using m by (rule seq_OkE)
  obtain sk where sk: "k = (sk, ed_public P sk)" "length sk = 32"
    using k by (auto simp: new_keypair_def seq_def fill_bytes_run lift_res_def generate_ed25519_keypair_def Let_def split: sum.splits)
  obtain f1 f2 where f: "file_write (private_key_path dir) (as_bytes (hex_encode P sk)) f1 = Ok f2"
    "file_write (public_key_path dir) (as_bytes (hex_encode P (ed_public P sk))) f2 = Ok (disk w1)"
    using t unfolding sk(1) by (auto simp: seq_def fs_do_def split: res.splits)
  show thesis
    by (rule that [OF sk(2)]) (use file_write_get [OF f(1)] file_write_get [OF f(2)] w' in \<open>simp_all add: key_files\<close>)
qed

lemma serve_tcp_keeps:
  fixes w :: "'a conn_scheme"
  assumes "serve_tcp home e port w = (Ok s, w')" "fs_get (disk w) q = Some n"
  shows "fs_get (disk w') q = Some n"
proof -
  obtain a b f1 f2 where f: "create_dir_all a (disk w) = Ok f1" "create_dir_all b f1 = Ok f2" "disk w' = f2"
    using assms(1) by (auto simp: serve_tcp_def Let_def seq_def fs_do_def lift_res_def ret_def split: res.splits)
  then show ?thesis using assms(2) create_dir_all_get [OF f(1), of q] create_dir_all_get [OF f(2), of q] by simp
qed

text \<open>
  C34. The first start gives the server a key pair that fits: when the key files are not both there and
  the start succeeds, the private and the public key later read from disk are 32 bytes each, and the
  public key is the one of the private key, as the handshake needs.
\<close>

theorem first_start_keys:
  fixes w :: "'a conn_scheme"
  assumes "server_main P home e (Some (Serve port ''v1'')) w = (Ok s, w')" "hex_ok P" "ed_ok P"
    "get_server_key_dir home = Ok dir" "\<not> (path_exists (disk w) (private_key_path dir) \<and> path_exists (disk w) (public_key_path dir))"
  shows "\<exists>sk. SERVER_PRI_KEY_BYTES P home w' = (Ok sk, w') \<and> SERVER_PUB_KEY_BYTES P home w' = (Ok (ed_public P sk), w') \<and> length sk = 32"
proof -
  obtain fp w1 s' where k: "ensure_server_keys P dir w = (Ok fp, w1)" "serve_tcp home e (Some port) w1 = (Ok s', w')"
    using assms(1,4) by (auto simp: server_main_def lift_res_def ret_def elim!: seq_OkE)
  obtain sk where sk: "length sk = 32" "fs_get (disk w1) (private_key_path dir) = Some (FileNode (as_bytes (hex_encode P sk)))"
    "fs_get (disk w1) (public_key_path dir) = Some (FileNode (as_bytes (hex_encode P (ed_public P sk))))"
    by (rule ensure_server_keys_made [OF k(1) assms(2,5)])
  have "length (ed_public P sk) = 32" using assms(3) by (simp add: ed_ok_def)
  then show ?thesis
    using sk serve_tcp_keeps [OF k(2) sk(2)] serve_tcp_keeps [OF k(2) sk(3)] server_key_loaded [OF assms(2,4)]
    unfolding SERVER_PRI_KEY_BYTES_def SERVER_PUB_KEY_BYTES_def private_key_path_def public_key_path_def by blast
qed

text \<open>A first start on an empty disk.\<close>

lemma demo_server_dirs:
  "get_server_key_dir (Some [''h'']) = Ok [''h'', ''.rdrive'', ''server'']" "get_storage_dir (Some [''h'']) = Ok [''h'', ''.rdrive'', ''storage'']"
  "get_authorized_client_dir (Some [''h'']) = Ok [''h'', ''.rdrive'', ''authorized_keys'']"
  by (simp_all add: get_server_key_dir_def get_storage_dir_def get_authorized_client_dir_def home_sub_def path_join_def components_def)

lemma demo_first_start:
  "\<exists>s w'. server_main demo (Some [''h'']) (\<lambda>_. None) (Some (Serve 3000 ''v1'')) (demo_sv []) = (Ok s, w')"
proof -
  have "hex_ok demo" "ed_ok demo" by (rule demo_laws; simp)+
  have k: "new_keypair demo u = (Ok (take_rng 32 (rng u), pad 32 (take_rng 32 (rng u))), u\<lparr>rng := skip_rng 32 (rng u)\<rparr>)" for u :: server_state
    using \<open>ed_ok demo\<close> by (simp add: new_keypair_def seq_def fill_bytes_run lift_res_def generate_ed25519_keypair_def ed_ok_def Let_def)
  have r: "read_to_string [''h'', ''.rdrive'', ''server'', ''public_ed25519.key''] f = Ok (hex_encode demo b)"
    if "fs_get f [''h'', ''.rdrive'', ''server'', ''public_ed25519.key''] = Some (FileNode (as_bytes (hex_encode demo b)))" for f b
    by (rule read_hex [OF \<open>hex_ok demo\<close> that])
  show ?thesis
    by (simp add: server_main_def demo_server_dirs seq_def lift_res_def ensure_server_keys_def file_exists_def get_state_def key_files path_exists_def
        demo_sv_def fs_get_def k fs_do_def create_dir_all_def is_file_def mkdir_missing_def fs_set_def file_write_def path_is_dir_def
        hex_no_trim [OF \<open>hex_ok demo\<close>] fs_query_def r ret_def serve_tcp_def Let_def del: demo_fields)
qed

theorem first_start_keys_witness:
  "\<exists>s w' sk. server_main demo (Some [''h'']) (\<lambda>_. None) (Some (Serve 3000 ''v1'')) (demo_sv []) = (Ok s, w') \<and>
    SERVER_PRI_KEY_BYTES demo (Some [''h'']) w' = (Ok sk, w') \<and> SERVER_PUB_KEY_BYTES demo (Some [''h'']) w' = (Ok (ed_public demo sk), w')"
proof -
  have l: "hex_ok demo" "ed_ok demo" by (rule demo_laws; simp)+
  obtain s w' where r: "server_main demo (Some [''h'']) (\<lambda>_. None) (Some (Serve 3000 ''v1'')) (demo_sv []) = (Ok s, w')"
    using demo_first_start by blast
  have "\<not> (path_exists (disk (demo_sv [])) (private_key_path [''h'', ''.rdrive'', ''server'']) \<and>
      path_exists (disk (demo_sv [])) (public_key_path [''h'', ''.rdrive'', ''server'']))"
    by (simp add: path_exists_def demo_sv_def fs_get_def)
  from first_start_keys [OF r l demo_server_dirs(1) this] r show ?thesis by blast
qed

section \<open>A successful change of the environment file is reported as a failure\<close>

text \<open>
  The rename has happened, but the parent directory of the relative path \<^verbatim>\<open>.env\<close> is the empty path, so
  that opening it to sync it fails.
\<close>

lemma update_env_reports_failure:
  assumes "read_to_string [''.env''] (disk w) = Ok content"
    "fs_get (disk w) [''.env.tmp.'' @ show_nat rand] = None" "\<not> has_children (disk w) [''.env'']"
  shows "\<exists>w'. update_env rand field val w = (Err ''Failed to write updated .env file atomically'', w') \<and>
    fs_get (disk w') [''.env''] = Some (FileNode (as_bytes (snd (updated_env field val content))))"
proof -
  let ?t = "[''.env.tmp.'' @ show_nat rand]" and ?d = "as_bytes (snd (updated_env field val content))"
  obtain d0 where e: "fs_get (disk w) [''.env''] = Some (FileNode d0)"
    using assms(1) by (auto simp: read_to_string_def file_read_def split: option.splits node.splits if_splits)
  have s: "file_stem ''.env'' = ''.env''" by (simp add: file_stem_def)
  let ?f = "file_append ?t ?d (fs_set ?t (FileNode []) (disk w))"
  have ft: "fs_get ?f ?t = Some (FileNode ?d)" "fs_get ?f [''.env''] = Some (FileNode d0)" using e by (simp_all add: file_append_def)
  then have rn: "fs_rename ?t [''.env''] ?f = Ok (move_tree ?t [''.env''] ?f)"
    by (simp add: fs_rename_def strict_prefix_def)
  have "\<not> has_children (fs_set q n g) [''.env'']" if "\<not> has_children g [''.env'']" "\<not> strict_prefix [''.env''] q" for q n g
    using that unfolding has_children_def fs_set_def by (induction g) auto
  then have nc: "\<not> has_children ?f [''.env'']"
    using assms(3) by (auto simp: file_append_def strict_prefix_def split: option.split node.split)
  have mv: "fs_get (move_tree ?t [''.env''] ?f) [''.env''] = Some (FileNode ?d)"
    using ft(1) move_tree_get(1) [of ?f "[''.env'']" ?t "[]"] nc by simp
  have "file_write ?t [] (disk w) = Ok (fs_set ?t (FileNode []) (disk w))"
    using assms(2) by (simp add: file_write_def path_is_dir_def)
  then have "update_env rand field val w = (Err ''Failed to write updated .env file atomically'', w\<lparr>disk := move_tree ?t [''.env''] ?f\<rparr>)"
    using assms(1) rn s by (simp add: update_env_def atomic_write_def seq_def wrap_err_def fs_query_def fs_do_def append_disk_def upd_state_def Let_def
        case_prod_unfold fail_def)
  with mv show ?thesis by simp
qed

end
