(* ===== verification/Objects.thy ===== *)
theory Objects
  imports Server
begin

text \<open>
  The server as a store of objects: what the handlers do to the disk, seen through the objects it
  holds. A slot is the place of an object, given by the client's key, the file key and the file id; the
  abstract store is a partial map from slots to metadata and contents.
\<close>

section \<open>The abstract store\<close>

type_synonym slot = "path \<times> string"

type_synonym object_map = "slot \<rightharpoonup> MetadataFile \<times> bytes"

datatype store_event = Stored slot MetadataFile bytes | Discarded slot | Served

fun apply_event :: "store_event \<Rightarrow> object_map \<Rightarrow> object_map" where
  "apply_event (Stored k m d) s = s(k \<mapsto> (m, d))"
| "apply_event (Discarded k) s = s(k := None)"
| "apply_event Served s = s"

text \<open>An implementation whose steps have the effect of the abstract operations.\<close>

locale refinement =
  fixes s0 :: 's and step :: "'l \<Rightarrow> 's \<Rightarrow> 's \<Rightarrow> bool" and abs :: "'s \<Rightarrow> 'a" and effect :: "'l \<Rightarrow> 'a \<Rightarrow> 'a"
  assumes simulates: "step l s s' \<Longrightarrow> abs s' = effect l (abs s)"

sublocale refinement \<subseteq> hist: history_invariant s0 step "\<lambda>ls s. abs s = fold effect ls (abs s0)"
  by unfold_locales (simp_all add: simulates)

context refinement
begin

lemma run_abs: "lrun s0 step ls s \<Longrightarrow> abs s = fold effect ls (abs s0)"
  by (rule hist.run_hinv)

end

section \<open>The objects of a disk\<close>

definition slot_of :: "prims \<Rightarrow> config \<Rightarrow> bytes \<Rightarrow> string \<Rightarrow> string \<Rightarrow> slot" where
  "slot_of P cfg ck fk fid = (user_dir P (cfg_storage cfg) ck fk, hex_encode P (sha256 P (as_bytes fid)))"

text \<open>An object is there when both of its files are and the metadata can be read.\<close>

definition objects :: "prims \<Rightarrow> fs \<Rightarrow> object_map" where
  "objects P f k = (case (fs_get f (fst k @ [snd k @ ''.file'']), fs_get f (fst k @ [snd k @ ''.meta''])) of
     (Some (FileNode d), Some (FileNode b)) \<Rightarrow>
       (case from_bytes (pc_MetadataFile P) b of Inr m \<Rightarrow> Some (m, d) | Inl e \<Rightarrow> None)
   | _ \<Rightarrow> None)"

lemma stores_objects:
  assumes "sha_ok P" "hex_ok P" "stores P cfg ck fk fid m d f" "roundtrips (pc_MetadataFile P) m"
  shows "objects P f (slot_of P cfg ck fk fid) = Some (m, d)"
  using assms(3,4) deserialize_encoding [OF assms(4)]
  by (auto simp: objects_def slot_of_def stores_def object_path_plain [OF assms(2,1)] deserialize_def of_sum_def split: sum.splits)

text \<open>A request that changes nothing but the two files of its object, and directories that were missing.\<close>

lemma object_left_objects:
  assumes "sha_ok P" "hex_ok P" "object_left P cfg ck h f a b f'" "k \<noteq> slot_of P cfg ck (uh_file_key h) (uh_file_id h)"
  shows "objects P f' k = objects P f k"
proof -
  let ?dir = "user_dir P (cfg_storage cfg) ck (uh_file_key h)" and ?n = "hex_encode P (sha256 P (as_bytes (uh_file_id h)))"
  have g: "fs_get f' q = (if q = ?dir @ [?n @ ''.file''] then a else if q = ?dir @ [?n @ ''.meta''] then b
      else if prefix q ?dir \<and> q \<noteq> [] \<and> fs_get f q = None then Some DirNode else fs_get f q)" for q
    using assms(3) by (simp add: object_left_def upload_disk_def object_path_plain [OF assms(2,1)])
  have "fst k @ [snd k @ e] \<noteq> ?dir @ [?n @ ''.file'']" "fst k @ [snd k @ e] \<noteq> ?dir @ [?n @ ''.meta'']" if "e = ''.file'' \<or> e = ''.meta''" for e
    using that assms(4) by (cases k; auto simp: slot_of_def)+
  then have "fs_get f' (fst k @ [snd k @ e]) = fs_get f (fst k @ [snd k @ e]) \<or>
      (fs_get f (fst k @ [snd k @ e]) = None \<and> fs_get f' (fst k @ [snd k @ e]) = Some DirNode)" if "e = ''.file'' \<or> e = ''.meta''" for e
    using that g by auto
  from this [of "''.file''"] this [of "''.meta''"] show ?thesis
    by (auto simp: objects_def split: option.splits node.splits)
qed

section \<open>What the handlers do\<close>

text \<open>
  One request served to its end: an upload whose contents have the announced hash, an upload
  whose contents do not, or a download, which may end in any way.
\<close>

inductive store_step :: "prims \<Rightarrow> config \<Rightarrow> store_event \<Rightarrow> fs \<Rightarrow> fs \<Rightarrow> bool" for P cfg where
  stored: "upload_arrives P cfg key ck h d rest w \<Longrightarrow> uh_file_hash h = content_hash P d \<Longrightarrow>
    roundtrips (pc_MetadataFile P) (metadata_of P h) \<Longrightarrow> roundtrips (pc_UploadResponse P) (upload_response P h (clock w 0 - ts)) \<Longrightarrow>
    sealed_fits (1 # encoding (pc_UploadResponse P) (upload_response P h (clock w 0 - ts))) \<Longrightarrow>
    writable (66 + length (encoding (pc_UploadResponse P) (upload_response P h (clock w 0 - ts)))) w \<Longrightarrow>
    handle_upload P cfg h ts key ck (w :: server_state) = (r, w') \<Longrightarrow>
    store_step P cfg (Stored (slot_of P cfg ck (uh_file_key h) (uh_file_id h)) (metadata_of P h) d) (disk w) (disk w')"
| discarded: "upload_arrives P cfg key ck h d rest w \<Longrightarrow> str_prefix 8 (uh_file_hash h) = Ok x \<Longrightarrow> uh_file_hash h \<noteq> content_hash P d \<Longrightarrow>
    roundtrips (pc_ErrorHeader P) \<lparr>err_code = 406, err_message = ''File hash mismatch''\<rparr> \<Longrightarrow>
    sealed_fits (error_payload P 406 ''File hash mismatch'') \<Longrightarrow> writable (65 + length (error_payload P 406 ''File hash mismatch'')) w \<Longrightarrow>
    handle_upload P cfg h ts key ck (w :: server_state) = (r, w') \<Longrightarrow>
    store_step P cfg (Discarded (slot_of P cfg ck (uh_file_key h) (uh_file_id h))) (disk w) (disk w')"
| served: "handle_download P cfg req ts key ck (w :: server_state) = (r, w') \<Longrightarrow> store_step P cfg Served (disk w) (disk w')"

lemma arrives_laws: "upload_arrives P cfg key ck h d rest w \<Longrightarrow> sha_ok P \<and> hex_ok P"
  by (simp add: upload_arrives_def storable_def)

lemma store_step_simulates:
  assumes "store_step P cfg e f f'"
  shows "objects P f' = apply_event e (objects P f)"
  using assms
proof cases
  case (stored key ck h d rest w ts r w')
  have P: "sha_ok P" "hex_ok P" using arrives_laws [OF stored(4)] by simp_all
  have l: "object_left P cfg ck h (disk w) (Some (FileNode d)) (Some (FileNode (encoding (pc_MetadataFile P) (metadata_of P h)))) (disk w')"
    using handle_upload_stores [OF stored(4-9)] stored(10) by auto
  show ?thesis
    using stores_objects [OF P object_left_stores [OF P l] stored(6)] object_left_objects [OF P l] stored(1-3)
    by (auto simp: fun_eq_iff)
next
  case (discarded key ck h d rest w x ts r w')
  have P: "sha_ok P" "hex_ok P" using arrives_laws [OF discarded(4)] by simp_all
  have l: "object_left P cfg ck h (disk w) None (fs_get (disk w) (object_path P (cfg_storage cfg) ck (uh_file_key h) (uh_file_id h) ''.meta'')) (disk w')"
    using handle_upload_mismatch [OF discarded(4-9), of ts] discarded(10) by auto
  then have "objects P (disk w') (slot_of P cfg ck (uh_file_key h) (uh_file_id h)) = None"
    by (simp add: objects_def slot_of_def object_left_def upload_disk_def object_path_plain [OF P(2,1)])
  then show ?thesis using object_left_objects [OF P l] discarded(1-3) by (auto simp: fun_eq_iff)
next
  case (served req ts key ck w r w')
  then show ?thesis using stepsD [OF handle_download_reads served(4)] by simp
qed

interpretation os: refinement f0 "store_step P cfg" "objects P" apply_event for f0 P cfg
  by unfold_locales (rule store_step_simulates)

text \<open>
  C2. The handlers implement an object store: after any sequence of requests, by any clients, each an
  upload that arrives whole, an upload whose contents do not have the announced hash, or a download
  that ends in whatever way, the objects on the disk are those of the abstract store in which the uploads have put
  their object into its slot, the mismatches have removed the object of their slot, and the
  downloads have done nothing.
\<close>

theorem handlers_refine_store:
  assumes "lrun f0 (store_step P cfg) es f"
  shows "objects P f = fold apply_event es (objects P f0)"
  using assms by (rule os.run_abs)

text \<open>A one-byte upload, then a download.\<close>

lemma demo_stored:
  "\<exists>f. store_step demo_up demo_cfg (Stored (slot_of demo_up demo_cfg [9] ''k'' ''id'')
     (metadata_of demo_up (demo_header (content_hash demo [7]))) [7]) [] f"
proof -
  let ?h = "demo_header (content_hash demo [7])" and ?w = "demo_sv (sealed demo_up demo_key (replicate 12 0) [7])"
  obtain r w' where r: "handle_upload demo_up demo_cfg ?h 0 demo_key [9] ?w = (r, w')" by force
  have a: "upload_arrives demo_up demo_cfg demo_key [9] ?h [7] [] ?w"
    by (rule demo_up_arrives) (simp_all add: demo_header_def)
  have c: "clock ?w 0 - 0 = 0" "disk ?w = []" "uh_file_key ?h = ''k''" "uh_file_id ?h = ''id''" by (simp_all add: demo_sv_def demo_header_def)
  have "store_step demo_up demo_cfg (Stored (slot_of demo_up demo_cfg [9] (uh_file_key ?h) (uh_file_id ?h)) (metadata_of demo_up ?h) [7]) (disk ?w) (disk w')"
    by (rule store_step.stored [OF a _ _ _ _ _ r])
       (simp_all add: demo_up_codecs table_codec_single c sealed_fits_def writable_def, simp_all add: demo_header_def demo_sv_def content_hash_def demo_up_def table_codec_single)
  then show ?thesis unfolding c by blast
qed

theorem handlers_refine_store_witness:
  "\<exists>f. lrun [] (store_step demo_up demo_cfg) [Stored (slot_of demo_up demo_cfg [9] ''k'' ''id'')
      (metadata_of demo_up (demo_header (content_hash demo [7]))) [7], Served] f \<and>
    objects demo_up f (slot_of demo_up demo_cfg [9] ''k'' ''id'') = Some (metadata_of demo_up (demo_header (content_hash demo [7])), [7])"
proof -
  let ?e = "Stored (slot_of demo_up demo_cfg [9] ''k'' ''id'') (metadata_of demo_up (demo_header (content_hash demo [7]))) [7]"
  let ?req = "\<lparr>dh_file_id = ''id'', dh_file_key = ''k''\<rparr>"
  obtain f1 where f1: "store_step demo_up demo_cfg ?e [] f1" using demo_stored by blast
  obtain r w' where "handle_download demo_up demo_cfg ?req 0 demo_key [9] ((demo_sv [])\<lparr>disk := f1\<rparr>) = (r, w')" by force
  from store_step.served [OF this] have f2: "store_step demo_up demo_cfg Served f1 (disk w')" by simp
  have "lrun [] (store_step demo_up demo_cfg) [] []" by (rule lrun_start)
  then have "lrun [] (store_step demo_up demo_cfg) ([] @ [?e]) f1" using f1 by (rule lrun_step [where step = "store_step demo_up demo_cfg"])
  then have "lrun [] (store_step demo_up demo_cfg) (([] @ [?e]) @ [Served]) (disk w')" using f2 by (rule lrun_step [where step = "store_step demo_up demo_cfg"])
  then have "lrun [] (store_step demo_up demo_cfg) [?e, Served] (disk w')" by simp
  from handlers_refine_store [OF this] this show ?thesis by auto
qed

end
