(* ===== verification/Layer.thy ===== *)
theory Layer
  imports Bulk "HOL-Library.Multiset"
begin

text \<open>
  \<^verbatim>\<open>src/layer.rs\<close>: cutting a file into layers of 64 MiB identified by offset and hash, putting it back
  together, and finding the layers that changed between two versions. An open file is what is left
  to read of it together with the sizes in which the operating system hands it out, so that short
  reads are part of the model; reads that fail are not.
\<close>

section \<open>Layers\<close>

definition LAYER_SIZE :: nat where
  "LAYER_SIZE = 1024 * 1024 * 64"

record LayerMeta =
  lm_hash :: string
  lm_mem_offset :: u64

record Layer =
  ly_data :: bytes
  ly_layer_meta :: LayerMeta

lemma take_split: "k \<le> n \<Longrightarrow> take k xs @ take (n - length (take k xs)) (drop k xs) = take n xs"
  using take_add [of k "n - k" xs] by (cases "k \<le> length xs") simp_all

lemma drop_split: "k \<le> n \<Longrightarrow> drop (n - length (take k xs)) (drop k xs) = drop n xs"
  by (cases "k \<le> length xs") simp_all

text \<open>A reader: the rest of the file, and how much each coming read returns at most.\<close>

record file_reader =
  fr_rest :: bytes
  fr_sched :: "nat \<Rightarrow> nat"

text \<open>\<^verbatim>\<open>read\<close> into a buffer of \<open>n\<close> bytes: at least one byte unless the file has ended.\<close>

definition reader_read :: "nat \<Rightarrow> file_reader \<Rightarrow> bytes \<times> file_reader" where
  "reader_read n r = (let k = min n (max 1 (fr_sched r 0)) in
     (take k (fr_rest r), r\<lparr>fr_rest := drop k (fr_rest r), fr_sched := (\<lambda>i. fr_sched r (Suc i))\<rparr>))"

text \<open>\<^verbatim>\<open>take(n).read_to_end\<close>: reads until \<open>n\<close> bytes or the end of the file.\<close>

function read_to_end :: "nat \<Rightarrow> file_reader \<Rightarrow> bytes \<Rightarrow> bytes \<times> file_reader" where
  "read_to_end n r acc = (if n = 0 then (acc, r)
     else (case reader_read n r of (d, r') \<Rightarrow>
       if d = [] then (acc, r') else read_to_end (n - length d) r' (acc @ d)))"
  by pat_completeness auto

termination
  by (relation "measure (\<lambda>(n, r, acc). n)") (auto simp: reader_read_def Let_def)

declare read_to_end.simps [simp del]

lemma read_to_end_spec: "\<exists>s. read_to_end n r acc = (acc @ take n (fr_rest r), \<lparr>fr_rest = drop n (fr_rest r), fr_sched = s\<rparr>)"
proof (induction n r acc rule: read_to_end.induct)
  case (1 n r acc)
  let ?k = "min n (max 1 (fr_sched r 0))"
  have rd: "reader_read n r = (take ?k (fr_rest r), \<lparr>fr_rest = drop ?k (fr_rest r), fr_sched = (\<lambda>i. fr_sched r (Suc i))\<rparr>)"
    by (cases r) (simp add: reader_read_def Let_def)
  show ?case
  proof (cases "n = 0 \<or> fr_rest r = []")
    case True
    then show ?thesis
      by (subst read_to_end.simps) (cases r, auto simp: reader_read_def Let_def)
  next
    case False
    then have ne: "take ?k (fr_rest r) \<noteq> []" by auto
    from "1" [OF _ rd [symmetric] ne] False obtain s where
      "read_to_end (n - length (take ?k (fr_rest r))) \<lparr>fr_rest = drop ?k (fr_rest r), fr_sched = (\<lambda>i. fr_sched r (Suc i))\<rparr>
         (acc @ take ?k (fr_rest r)) =
       ((acc @ take ?k (fr_rest r)) @ take (n - length (take ?k (fr_rest r))) (drop ?k (fr_rest r)),
        \<lparr>fr_rest = drop (n - length (take ?k (fr_rest r))) (drop ?k (fr_rest r)), fr_sched = s\<rparr>)"
      by auto
    moreover have "take ?k (fr_rest r) @ take (n - length (take ?k (fr_rest r))) (drop ?k (fr_rest r)) = take n (fr_rest r)"
      "drop (n - length (take ?k (fr_rest r))) (drop ?k (fr_rest r)) = drop n (fr_rest r)"
      by (rule take_split drop_split, simp)+
    ultimately show ?thesis
      using False ne by (subst read_to_end.simps) (auto simp: rd)
  qed
qed

section \<open>Cutting\<close>

text \<open>Metadata only. The loop ends when a read finds the end of the file.\<close>

lemma read_to_end_rest:
  "(d, r') = read_to_end n r [] \<Longrightarrow> d = take n (fr_rest r) \<and> fr_rest r' = drop n (fr_rest r)"
  using read_to_end_spec [of n r "[]"] by auto

lemma reader_read_length: "(d, r') = reader_read n r \<Longrightarrow> d \<noteq> [] \<Longrightarrow> 0 < length d \<and> length d \<le> n"
  by (simp add: reader_read_def Let_def)

function file_layers :: "prims \<Rightarrow> file_reader \<Rightarrow> u64 \<Rightarrow> LayerMeta list" where
  "file_layers P buf_reader mem_offset =
    (case read_to_end LAYER_SIZE buf_reader [] of (buffer, buf_reader') \<Rightarrow>
       if length buffer = 0 then []
       else \<lparr>lm_hash = content_hash P buffer, lm_mem_offset = mem_offset\<rparr> #
         file_layers P buf_reader' (mem_offset + of_nat (length buffer)))"
  by pat_completeness auto

termination
  by (relation "measure (\<lambda>(P, r, m). length (fr_rest r))") (auto dest!: read_to_end_rest simp: LAYER_SIZE_def)

declare file_layers.simps [simp del]

definition read_file_layer :: "prims \<Rightarrow> file_reader \<Rightarrow> LayerMeta list" where
  "read_file_layer P buf_reader = file_layers P buf_reader 0"

text \<open>One layer, after \<^verbatim>\<open>seek\<close>; \<open>contents\<close> is the whole file.\<close>

definition read_data_layer :: "prims \<Rightarrow> bytes \<Rightarrow> (nat \<Rightarrow> nat) \<Rightarrow> u64 \<Rightarrow> Layer option" where
  "read_data_layer P contents sched mem_offset =
    (case read_to_end LAYER_SIZE \<lparr>fr_rest = drop (unat mem_offset) contents, fr_sched = sched\<rparr> [] of (buffer, _) \<Rightarrow>
       if length buffer = 0 then None
       else Some \<lparr>ly_data = buffer, ly_layer_meta = \<lparr>lm_hash = content_hash P buffer, lm_mem_offset = mem_offset\<rparr>\<rparr>)"

text \<open>
  The inner loop of \<^verbatim>\<open>to_layers\<close>: fill the buffer read by read, hashing every piece; \<open>acc\<close> is
  \<^verbatim>\<open>buffer[..bytes_read]\<close>.
\<close>

function fill_layer :: "prims \<Rightarrow> file_reader \<Rightarrow> bytes \<Rightarrow> bytes \<Rightarrow> bytes \<times> bytes \<times> file_reader" where
  "fill_layer P buf_reader hasher acc =
    (if length acc < LAYER_SIZE then
       (case reader_read (LAYER_SIZE - length acc) buf_reader of (d, buf_reader') \<Rightarrow>
          if d = [] then (hasher, acc, buf_reader')
          else fill_layer P buf_reader' (hasher_update P hasher d) (acc @ d))
     else (hasher, acc, buf_reader))"
  by pat_completeness auto

termination
  by (relation "measure (\<lambda>(P, r, h, acc). LAYER_SIZE - length acc)", simp) (drule (1) reader_read_length, unfold in_measure prod.case length_append, linarith)

declare fill_layer.simps [simp del]

lemma fill_layer_spec:
  assumes "length acc \<le> LAYER_SIZE"
  shows "\<exists>cs s. fill_layer P r h acc = (foldl (hasher_update P) h cs, acc @ concat cs, \<lparr>fr_rest = drop (LAYER_SIZE - length acc) (fr_rest r), fr_sched = s\<rparr>)
    \<and> concat cs = take (LAYER_SIZE - length acc) (fr_rest r)"
  using assms
proof (induction P r h acc rule: fill_layer.induct)
  case (1 P r h acc)
  let ?n = "LAYER_SIZE - length acc"
  let ?k = "min ?n (max 1 (fr_sched r 0))"
  let ?d = "take ?k (fr_rest r)" and ?r = "\<lparr>fr_rest = drop ?k (fr_rest r), fr_sched = (\<lambda>i. fr_sched r (Suc i))\<rparr>"
  have rd: "reader_read ?n r = (?d, ?r)"
    by (cases r) (simp add: reader_read_def Let_def)
  show ?case
  proof (cases "length acc < LAYER_SIZE \<and> fr_rest r \<noteq> []")
    case False
    with "1.prems" show ?thesis
      by (subst fill_layer.simps) (cases r, auto simp: reader_read_def Let_def intro: exI [of _ "[]"])
  next
    case True
    then have ne: "?d \<noteq> []" by auto
    have len: "length (acc @ ?d) \<le> LAYER_SIZE" using True by auto
    from "1.IH" [OF _ rd [symmetric] ne len] True obtain cs s where ih:
      "fill_layer P ?r (hasher_update P h ?d) (acc @ ?d) = (foldl (hasher_update P) (hasher_update P h ?d) cs, (acc @ ?d) @ concat cs,
        \<lparr>fr_rest = drop (LAYER_SIZE - length (acc @ ?d)) (fr_rest ?r), fr_sched = s\<rparr>)"
      "concat cs = take (LAYER_SIZE - length (acc @ ?d)) (fr_rest ?r)"
      by auto
    have e: "?d @ concat cs = take ?n (fr_rest r)" "drop (LAYER_SIZE - length (acc @ ?d)) (drop ?k (fr_rest r)) = drop ?n (fr_rest r)"
      unfolding ih(2) using take_split [of ?k ?n "fr_rest r"] drop_split [of ?k ?n "fr_rest r"]
      by (simp_all add: diff_diff_left)
    have "fill_layer P r h acc = fill_layer P ?r (hasher_update P h ?d) (acc @ ?d)"
      unfolding fill_layer.simps [of P r h acc] rd prod.case by (simp only: conjunct1 [OF True] ne if_True if_False)
    with ih e show ?thesis by (intro exI [of _ "?d # cs"] exI [of _ s]) simp
  qed
qed

lemma fill_layer_rest:
  "(h', d, r') = fill_layer P r h [] \<Longrightarrow> d = take LAYER_SIZE (fr_rest r) \<and> fr_rest r' = drop LAYER_SIZE (fr_rest r)"
  using fill_layer_spec [of "[]" P r h] by auto

function to_layers_from :: "prims \<Rightarrow> file_reader \<Rightarrow> u64 \<Rightarrow> Layer list" where
  "to_layers_from P buf_reader mem_offset =
    (case fill_layer P buf_reader (hasher_new P) [] of (hasher, buffer, buf_reader') \<Rightarrow>
       if length buffer = 0 then []
       else \<lparr>ly_data = buffer, ly_layer_meta = \<lparr>lm_hash = hex_encode P (hasher_finalize P hasher), lm_mem_offset = mem_offset\<rparr>\<rparr> #
         to_layers_from P buf_reader' (mem_offset + of_nat (length buffer)))"
  by pat_completeness auto

termination
  by (relation "measure (\<lambda>(P, r, m). length (fr_rest r))") (auto dest!: fill_layer_rest simp: LAYER_SIZE_def)

declare to_layers_from.simps [simp del]

definition to_layers :: "prims \<Rightarrow> file_reader \<Rightarrow> Layer list" where
  "to_layers P buf_reader = to_layers_from P buf_reader 0"

section \<open>Putting together and comparing\<close>

text \<open>The slice is sorted in place, so the sorted layers are part of the result.\<close>

definition layer_offset :: "Layer \<Rightarrow> u64" where
  "layer_offset l = lm_mem_offset (ly_layer_meta l)"

lemma layer_offset_simp [simp]: "layer_offset \<lparr>ly_data = c, ly_layer_meta = \<lparr>lm_hash = h, lm_mem_offset = m\<rparr>\<rparr> = m"
  by (simp add: layer_offset_def)

definition from_layers :: "Layer list \<Rightarrow> path \<Rightarrow> fs \<Rightarrow> (Layer list \<times> fs) res" where
  "from_layers layers write_path f =
    bind_res (file_write write_path [] f) (\<lambda>f.
    let layers = sort_key layer_offset layers in
    Ok (layers, fold (\<lambda>l f. file_append write_path (ly_data l) f) layers f))"

fun compare_layers :: "Layer list \<Rightarrow> Layer list \<Rightarrow> Layer list" where
  "compare_layers [] des = []"
| "compare_layers (src_layer # src) des =
    (let is_changed = list_ex (\<lambda>des_layer. layer_offset des_layer = layer_offset src_layer \<and>
         lm_hash (ly_layer_meta des_layer) = lm_hash (ly_layer_meta src_layer)) des
     in if \<not> is_changed then src_layer # compare_layers src des else compare_layers src des)"

section \<open>What the layers are\<close>

text \<open>The layers of a list of pieces that follow one another from \<open>off\<close> on.\<close>

fun cut_at :: "prims \<Rightarrow> u64 \<Rightarrow> bytes list \<Rightarrow> Layer list" where
  "cut_at P off [] = []"
| "cut_at P off (c # cs) =
    \<lparr>ly_data = c, ly_layer_meta = \<lparr>lm_hash = content_hash P c, lm_mem_offset = off\<rparr>\<rparr> # cut_at P (off + of_nat (length c)) cs"

definition layers_of :: "prims \<Rightarrow> bytes \<Rightarrow> Layer list" where
  "layers_of P d = cut_at P 0 (chunks LAYER_SIZE d)"

lemma chunks_layer: "d \<noteq> [] \<Longrightarrow> chunks LAYER_SIZE d = take LAYER_SIZE d # chunks LAYER_SIZE (drop LAYER_SIZE d)"
  by (rule chunks_step) (simp_all add: LAYER_SIZE_def)

lemma file_layers_cut: "file_layers P r off = map ly_layer_meta (cut_at P off (chunks LAYER_SIZE (fr_rest r)))"
proof (induction P r off rule: file_layers.induct)
  case (1 P r off)
  obtain d r' where x: "read_to_end LAYER_SIZE r [] = (d, r')" by force
  note y = read_to_end_rest [OF x [symmetric]]
  show ?case
  proof (cases "fr_rest r = []")
    case True
    with x y show ?thesis by (subst file_layers.simps) simp
  next
    case False
    with y have "d \<noteq> []" by (simp add: LAYER_SIZE_def)
    with "1" [OF x [symmetric]] x y False show ?thesis
      by (subst file_layers.simps) (simp add: chunks_layer)
  qed
qed

lemma to_layers_cut: "sha_ok P \<Longrightarrow> to_layers_from P r off = cut_at P off (chunks LAYER_SIZE (fr_rest r))"
proof (induction P r off rule: to_layers_from.induct)
  case (1 P r off)
  obtain h d r' where x: "fill_layer P r (hasher_new P) [] = (h, d, r')" by (metis prod_cases3)
  note y = fill_layer_rest [OF x [symmetric]]
  obtain cs where cs: "h = foldl (hasher_update P) (hasher_new P) cs" "concat cs = d"
    using fill_layer_spec [of "[]" P r "hasher_new P"] x by auto
  have hash: "hex_encode P (hasher_finalize P h) = content_hash P d"
    using sha_stream [OF "1.prems", of cs] cs by (simp add: content_hash_def)
  show ?case
  proof (cases "fr_rest r = []")
    case True
    with x y show ?thesis by (subst to_layers_from.simps) simp
  next
    case False
    with y have "d \<noteq> []" by (simp add: LAYER_SIZE_def)
    with "1.IH" [OF x [symmetric] refl _ "1.prems"] x y hash False show ?thesis
      by (subst to_layers_from.simps) (simp add: chunks_layer)
  qed
qed

lemma map_data_cut [simp]: "map ly_data (cut_at P off cs) = cs"
  by (induction cs arbitrary: off) simp_all

lemma concat_layers: "concat (map ly_data (layers_of P d)) = d"
  by (simp add: layers_of_def LAYER_SIZE_def)

lemma to_layers_eq: "sha_ok P \<Longrightarrow> to_layers P r = layers_of P (fr_rest r)"
  by (simp add: to_layers_def to_layers_cut layers_of_def)

text \<open>Pieces that do not reach the end of the address space have increasing offsets.\<close>

lemma cut_offsets:
  assumes "unat off + length (concat cs) < 2 ^ 64" "\<forall>c \<in> set cs. c \<noteq> []"
  shows "sorted_wrt (<) (map layer_offset (cut_at P off cs)) \<and> (\<forall>l \<in> set (cut_at P off cs). off \<le> layer_offset l)"
  using assms
proof (induction cs arbitrary: off)
  case (Cons c cs)
  have u: "unat (off + of_nat (length c)) = unat off + length c"
    using Cons.prems(1) by (simp add: unat_word_ariths unat_of_nat take_bit_eq_mod)
  then have "off < off + of_nat (length c)"
    using Cons.prems(2) by (simp add: word_less_nat_alt)
  moreover have "sorted_wrt (<) (map layer_offset (cut_at P (off + of_nat (length c)) cs)) \<and>
      (\<forall>l \<in> set (cut_at P (off + of_nat (length c)) cs). off + of_nat (length c) \<le> layer_offset l)"
    using Cons.prems u by (intro Cons.IH) auto
  ultimately show ?case by fastforce
qed simp

lemma layers_offsets:
  assumes "length d < 2 ^ 64"
  shows "sorted_wrt (<) (map layer_offset (layers_of P d))"
proof -
  have "\<forall>c \<in> set (chunks LAYER_SIZE d). c \<noteq> []" using chunks_lengths by force
  with cut_offsets [of 0 "chunks LAYER_SIZE d" P] assms show ?thesis
    by (simp add: layers_of_def LAYER_SIZE_def)
qed

section \<open>Properties\<close>

text \<open>
  C30. The two ways of cutting a file agree, and neither depends on how the operating system splits
  the reads: \<^verbatim>\<open>read_file_layer\<close> yields exactly the metadata of the layers \<^verbatim>\<open>to_layers\<close> yields, for any
  two readers of the same contents.
\<close>

theorem layer_metadata_agrees:
  assumes "sha_ok P" "fr_rest r = fr_rest r'"
  shows "read_file_layer P r = map ly_layer_meta (to_layers P r')"
  using assms by (simp add: read_file_layer_def file_layers_cut to_layers_eq layers_of_def)

lemma append_layers:
  assumes "fs_get f p = Some (FileNode x)"
  shows "fs_get (fold (\<lambda>l f. file_append p (ly_data l) f) ls f) p = Some (FileNode (x @ concat (map ly_data ls)))"
  using assms
proof (induction ls arbitrary: f x)
  case (Cons l ls)
  from Cons.IH [OF file_append_get [OF Cons.prems]] show ?case by simp
qed simp

lemma from_layers_restores:
  assumes "length d < 2 ^ 64" "mset ls = mset (layers_of P d)" "file_write p [] f = Ok f0"
  shows "\<exists>f'. from_layers ls p f = Ok (layers_of P d, f') \<and> fs_get f' p = Some (FileNode d)"
proof -
  let ?off = "layer_offset"
  have s: "sorted_wrt (<) (map ?off (layers_of P d))" by (rule layers_offsets [OF assms(1)])
  then have "distinct (map ?off (layers_of P d))" "sorted (map ?off (layers_of P d))"
    by (simp_all add: strict_sorted_iff)
  moreover have "set ls = set (layers_of P d)" using assms(2) by (rule mset_eq_setD)
  ultimately have e: "sort_key ?off ls = layers_of P d"
    using assms(2) by (intro sort_key_inj_key_eq) (simp_all add: distinct_map)
  have "fs_get f0 p = Some (FileNode [])" using assms(3) by (simp add: file_write_get)
  from append_layers [OF this, of "layers_of P d"] show ?thesis
    using assms(3) by (simp add: from_layers_def e Let_def concat_layers)
qed

text \<open>
  C28. Cutting a file and putting the layers together again, in whatever order they come, restores the
  file: the written file has exactly the contents that were cut.
\<close>

theorem layers_roundtrip:
  assumes "sha_ok P" "length (fr_rest r) < 2 ^ 64" "mset ls = mset (to_layers P r)" "file_write p [] f = Ok f0"
  shows "\<exists>f'. from_layers ls p f = Ok (to_layers P r, f') \<and> fs_get f' p = Some (FileNode (fr_rest r))"
  using from_layers_restores [OF assms(2) _ assms(4), of ls P] assms(1,3) by (simp add: to_layers_eq)

lemma cut_member:
  assumes "l \<in> set (cut_at P off (chunks LAYER_SIZE d))"
  obtains k where "k < length d" "layer_offset l = off + of_nat k" "ly_data l = take LAYER_SIZE (drop k d)"
    "lm_hash (ly_layer_meta l) = content_hash P (ly_data l)"
proof -
  have "\<exists>k < length d. layer_offset l = off + of_nat k \<and> ly_data l = take LAYER_SIZE (drop k d) \<and>
      lm_hash (ly_layer_meta l) = content_hash P (ly_data l)"
    using assms
  proof (induction "length d" arbitrary: d off rule: less_induct)
    case less
    have ne: "d \<noteq> []" using less.prems by auto
    have L: "0 < LAYER_SIZE" by (simp add: LAYER_SIZE_def)
    show ?case
    proof (cases "l = \<lparr>ly_data = take LAYER_SIZE d, ly_layer_meta = \<lparr>lm_hash = content_hash P (take LAYER_SIZE d), lm_mem_offset = off\<rparr>\<rparr>")
      case True
      with ne show ?thesis by (intro exI [of _ 0]) simp
    next
      case False
      let ?d = "drop LAYER_SIZE d"
      have "l \<in> set (cut_at P (off + of_nat (length (take LAYER_SIZE d))) (chunks LAYER_SIZE ?d))"
        using less.prems False ne by (simp add: chunks_layer)
      with less.hyps [of ?d] ne L obtain k where k: "k < length ?d" "layer_offset l = off + of_nat (length (take LAYER_SIZE d)) + of_nat k"
        "ly_data l = take LAYER_SIZE (drop k ?d)" "lm_hash (ly_layer_meta l) = content_hash P (ly_data l)"
        by force
      then have "length (take LAYER_SIZE d) = LAYER_SIZE" by simp
      with k show ?thesis by (intro exI [of _ "LAYER_SIZE + k"]) (simp add: add.commute)
    qed
  qed
  with that show thesis by blast
qed


section \<open>Changed layers\<close>

lemma compare_layers_filter:
  "compare_layers src des = filter (\<lambda>s. \<forall>d \<in> set des. ly_layer_meta d \<noteq> ly_layer_meta s) src"
proof -
  have "(ly_layer_meta d = ly_layer_meta s) = (layer_offset d = layer_offset s \<and>
      lm_hash (ly_layer_meta d) = lm_hash (ly_layer_meta s))" for d s :: Layer
    by (cases "ly_layer_meta d"; cases "ly_layer_meta s") (auto simp: layer_offset_def)
  then show ?thesis by (induction src) (auto simp: list_ex_iff Let_def)
qed

text \<open>The layers of the old version that the new version still has.\<close>

definition kept_layers :: "Layer list \<Rightarrow> Layer list \<Rightarrow> Layer list" where
  "kept_layers src des = filter (\<lambda>d. \<exists>s \<in> set src. ly_layer_meta s = ly_layer_meta d) des"

lemma delta_layers:
  assumes "distinct src" "distinct des"
    "\<forall>a \<in> set src. \<forall>b \<in> set des. lm_hash (ly_layer_meta a) = lm_hash (ly_layer_meta b) \<longrightarrow> ly_data a = ly_data b"
  shows "mset (compare_layers src des @ kept_layers src des) = mset src"
proof -
  have eq: "b = a" if "a \<in> set src" "b \<in> set des" "ly_layer_meta b = ly_layer_meta a" for a b
    using assms(3) that by (cases a; cases b) fastforce
  have "set (compare_layers src des @ kept_layers src des) = set src"
    by (auto simp: compare_layers_filter kept_layers_def dest: eq) (metis eq)
  moreover have "distinct (compare_layers src des @ kept_layers src des)"
    using assms(1,2) by (auto simp: compare_layers_filter kept_layers_def)
  ultimately show ?thesis using assms(1) set_eq_iff_mset_eq_distinct by blast
qed

text \<open>
  C29. Sending only the changed layers is enough: the layers \<^verbatim>\<open>compare_layers\<close> selects from the new
  version, together with the layers of the old version that the new one still has, put together
  give the new version, whenever no two different layers of the two versions have the same hash.
\<close>

theorem delta_restores:
  assumes "sha_ok P" "length (fr_rest new) < 2 ^ 64" "length (fr_rest old) < 2 ^ 64"
    "\<forall>a \<in> set (to_layers P new). \<forall>b \<in> set (to_layers P old).
       lm_hash (ly_layer_meta a) = lm_hash (ly_layer_meta b) \<longrightarrow> ly_data a = ly_data b"
    "file_write p [] f = Ok f0"
  shows "\<exists>f'. from_layers (compare_layers (to_layers P new) (to_layers P old) @ kept_layers (to_layers P new) (to_layers P old)) p f =
      Ok (to_layers P new, f') \<and> fs_get f' p = Some (FileNode (fr_rest new))"
proof -
  have d: "distinct (layers_of P x)" if "length x < 2 ^ 64" for x
    using layers_offsets [OF that, of P] by (metis distinct_map strict_sorted_iff)
  have "mset (compare_layers (layers_of P (fr_rest new)) (layers_of P (fr_rest old)) @
      kept_layers (layers_of P (fr_rest new)) (layers_of P (fr_rest old))) = mset (layers_of P (fr_rest new))"
    using assms(1,4) by (intro delta_layers d assms(2,3)) (simp add: to_layers_eq)
  from from_layers_restores [OF assms(2) this assms(5)] show ?thesis
    using assms(1) by (simp add: to_layers_eq)
qed

section \<open>Concrete instances\<close>

definition demo_reader :: "bytes \<Rightarrow> file_reader" where
  "demo_reader d = \<lparr>fr_rest = d, fr_sched = (\<lambda>_. 1)\<rparr>"

lemma demo_to_layers:
  assumes "d \<noteq> []" "length d \<le> 1000"
  shows "to_layers demo (demo_reader d) = [\<lparr>ly_data = d, ly_layer_meta = \<lparr>lm_hash = content_hash demo d, lm_mem_offset = 0\<rparr>\<rparr>]"
proof -
  have "chunks LAYER_SIZE d = [d]" using assms by (intro chunks_small) (simp_all add: LAYER_SIZE_def)
  with demo_laws show ?thesis by (simp add: to_layers_eq layers_of_def demo_reader_def)
qed

theorem layer_metadata_agrees_witness:
  "read_file_layer demo \<lparr>fr_rest = [1, 2], fr_sched = (\<lambda>_. 2)\<rparr> = map ly_layer_meta (to_layers demo (demo_reader [1, 2]))"
  by (rule layer_metadata_agrees) (simp_all add: demo_laws demo_reader_def)

theorem layers_roundtrip_witness:
  "\<exists>f'. from_layers (rev (to_layers demo (demo_reader [1, 2]))) [''out''] [] = Ok (to_layers demo (demo_reader [1, 2]), f') \<and>
    fs_get f' [''out''] = Some (FileNode [1, 2])"
  using layers_roundtrip [of demo "demo_reader [1, 2]" "rev (to_layers demo (demo_reader [1, 2]))" "[''out'']" "[]"]
  by (simp add: demo_laws demo_reader_def file_write_def path_is_dir_def fs_get_def)


theorem delta_restores_witness:
  "\<exists>f'. from_layers (compare_layers (to_layers demo (demo_reader [3])) (to_layers demo (demo_reader [1, 2])) @
      kept_layers (to_layers demo (demo_reader [3])) (to_layers demo (demo_reader [1, 2]))) [''out''] [] =
      Ok (to_layers demo (demo_reader [3]), f') \<and> fs_get f' [''out''] = Some (FileNode [3])"
proof -
  have "content_hash demo [3] \<noteq> content_hash demo [1, 2]"
  proof
    assume "content_hash demo [3] = content_hash demo [1, 2]"
    then have "sha256 demo [3] = sha256 demo [1, 2]"
      unfolding content_hash_def by (rule hex_inj [rotated]) (rule demo_laws; simp)
    then have "hd (sha256 demo [3]) = hd (sha256 demo [1, 2])" by simp
    then show False by (simp add: pad_def)
  qed
  then have "\<forall>a \<in> set (to_layers demo (demo_reader [3])). \<forall>b \<in> set (to_layers demo (demo_reader [1, 2])).
      lm_hash (ly_layer_meta a) = lm_hash (ly_layer_meta b) \<longrightarrow> ly_data a = ly_data b"
    by (simp add: demo_to_layers)
  moreover have "file_write [''out''] [] [] = Ok (fs_set [''out''] (FileNode []) [])"
    by (simp add: file_write_def path_is_dir_def fs_get_def)
  moreover have "fr_rest (demo_reader d) = d" for d by (simp add: demo_reader_def)
  ultimately show ?thesis
    using delta_restores [of demo "demo_reader [3]" "demo_reader [1, 2]" "[''out'']" "[]"] demo_laws by simp
qed

end
