(* ===== verification/Accept.thy ===== *)
theory Accept
  imports Prelude
begin

text \<open>
  The accept loop of \<^verbatim>\<open>start_tcp_server\<close> (\<^verbatim>\<open>src/protocol_v1.rs\<close>) and the counter
  \<^verbatim>\<open>ACTIVE_CONNECTIONS\<close>. The loop is one task and the handlers it spawns are others, so each
  atomic operation on the counter is a step of its own and they interleave in any order. A
  handler whose task panics ends without the decrement that follows the \<^verbatim>\<open>match\<close>.
\<close>

section \<open>The loop and the handlers\<close>

record acc =
  acc_active :: u64
  acc_seen :: "u64 option" \<comment> \<open>what \<^verbatim>\<open>fetch_add\<close> returned, until the loop has acted on it\<close>
  acc_running :: nat
  acc_panicked :: nat

text \<open>
  What happens: \<^verbatim>\<open>accept\<close> returns a connection or an error, the loop spawns a handler or rejects, and a handler
  finishes. \<open>AFinish r\<close> has the outcome of \<^verbatim>\<open>handle_connection\<close> under the timeout of the connection's lifetime:
  \<open>Pending\<close> is the timeout.
\<close>

datatype accept_event = AConnect | AError string | ASpawn | AReject | AFinish "unit res"

definition acc_start :: acc where
  "acc_start = \<lparr>acc_active = 0, acc_seen = None, acc_running = 0, acc_panicked = 0\<rparr>"

inductive accept_step :: "u64 \<Rightarrow> accept_event \<Rightarrow> acc \<Rightarrow> acc \<Rightarrow> bool" for mx :: u64 where
  ac_connect: "acc_seen s = None \<Longrightarrow>
     accept_step mx AConnect s (s\<lparr>acc_seen := Some (acc_active s), acc_active := acc_active s + 1\<rparr>)"
| ac_reject: "acc_seen s = Some n \<Longrightarrow> n \<ge> mx \<Longrightarrow>
     accept_step mx AReject s (s\<lparr>acc_seen := None, acc_active := acc_active s - 1\<rparr>)"
| ac_spawn: "acc_seen s = Some n \<Longrightarrow> \<not> n \<ge> mx \<Longrightarrow>
     accept_step mx ASpawn s (s\<lparr>acc_seen := None, acc_running := Suc (acc_running s)\<rparr>)"
| ac_error: "acc_seen s = None \<Longrightarrow> accept_step mx (AError e) s s"
| ac_end: "acc_running s = Suc k \<Longrightarrow> \<forall>m. r \<noteq> Panic m \<Longrightarrow>
     accept_step mx (AFinish r) s (s\<lparr>acc_running := k, acc_active := acc_active s - 1\<rparr>)"
| ac_panic: "acc_running s = Suc k \<Longrightarrow>
     accept_step mx (AFinish (Panic m)) s (s\<lparr>acc_running := k, acc_panicked := Suc (acc_panicked s)\<rparr>)"

text \<open>
  The start: with the port bound, the first start sets \<^verbatim>\<open>START_TIME\<close> and a later one leaves it, and the loop begins.
\<close>

definition start_tcp_server :: "unit res \<Rightarrow> int \<Rightarrow> int option \<Rightarrow> (int option \<times> acc) res" where
  "start_tcp_server bound now start_time =
    bind_res bound (\<lambda>_. Ok (Some (case start_time of Some t \<Rightarrow> t | None \<Rightarrow> now), acc_start))"

section \<open>The counter\<close>

text \<open>
  The counter is the number of handlers, running or lost to a panic, plus the connection the loop
  is deciding on, and never wraps; what the loop has seen is no less than the slots taken since.
\<close>

definition acc_taken :: "acc \<Rightarrow> nat" where
  "acc_taken s = acc_running s + acc_panicked s"

definition acc_inv :: "u64 \<Rightarrow> acc \<Rightarrow> bool" where
  "acc_inv mx s \<longleftrightarrow> acc_taken s \<le> unat mx \<and>
     unat (acc_active s) = acc_taken s + (if acc_seen s = None then 0 else 1) \<and>
     (\<forall>n. acc_seen s = Some n \<longrightarrow> acc_taken s \<le> unat n)"

lemma unat_dec: "unat w = Suc n \<Longrightarrow> unat (w - 1 :: u64) = n"
  by (metis Suc_diff_1 diff_Suc_1 unat_gt_0 unat_minus_one word_neq_0_conv zero_less_Suc)

lemma unat_inc: "unat w = n \<Longrightarrow> Suc n < 2 ^ 64 \<Longrightarrow> unat (w + 1 :: u64) = Suc n"
  by (simp add: unat_word_ariths)

lemma acc_inv_step:
  assumes "accept_step mx e s s'" "acc_inv mx s" "unat mx < 2 ^ 64 - 1"
  shows "acc_inv mx s'"
  using assms(1)
proof (cases rule: accept_step.cases)
  case ac_connect
  from ac_connect assms(2,3) show ?thesis
    by (auto simp: acc_inv_def acc_taken_def intro: unat_inc)
next
  case (ac_spawn n)
  then have "unat n < unat mx" by (simp add: word_le_nat_alt)
  with ac_spawn assms(2) show ?thesis
    by (auto simp: acc_inv_def acc_taken_def)
qed (use assms(2) in \<open>auto simp: acc_inv_def acc_taken_def unat_dec\<close>)

interpretation ac: step_invariant acc_start "accept_step mx" "\<lambda>s. unat mx < 2 ^ 64 - 1 \<longrightarrow> acc_inv mx s" for mx
proof
  show "unat mx < 2 ^ 64 - 1 \<longrightarrow> acc_inv mx acc_start"
    by (simp add: acc_inv_def acc_taken_def acc_start_def)
qed (blast intro: acc_inv_step)


lemma accept_demo_run:
  "lrun acc_start (accept_step 1) [AConnect, ASpawn, AConnect]
     \<lparr>acc_active = 2, acc_seen = Some 1, acc_running = 1, acc_panicked = 0\<rparr>"
proof -
  let ?a = "\<lparr>acc_active = 1, acc_seen = Some 0, acc_running = 0, acc_panicked = 0\<rparr>"
  let ?b = "\<lparr>acc_active = 1, acc_seen = None, acc_running = 1, acc_panicked = 0\<rparr>"
  let ?c = "\<lparr>acc_active = 2, acc_seen = Some 1, acc_running = 1, acc_panicked = 0\<rparr>"
  have "accept_step 1 AConnect acc_start ?a"
    using ac_connect [of acc_start 1] by (simp add: acc_start_def)
  moreover have "accept_step 1 ASpawn ?a ?b" using ac_spawn [of ?a 0 1] by simp
  moreover have "accept_step 1 AConnect ?b ?c" using ac_connect [of ?b 1] by simp
  ultimately have "lrun acc_start (accept_step 1) ((([] @ [AConnect]) @ [ASpawn]) @ [AConnect]) ?c"
    by (blast intro: lrun_step lrun_start)
  then show ?thesis by simp
qed




end
