(* ===== verification/Log.thy ===== *)
theory Log
  imports Store
begin

text \<open>
  Log levels (\<^verbatim>\<open>src/log.rs\<close>): the order of the levels, the level read from the environment, and which
  messages are printed. The time stamp and the colours are left out.
\<close>

datatype Level = Trace | Debug | Info | Warn | Error

fun level_rank :: "Level \<Rightarrow> nat" where
  "level_rank Trace = 0"
| "level_rank Debug = 1"
| "level_rank Info = 2"
| "level_rank Warn = 3"
| "level_rank Error = 4"

lemma level_rank_inj: "level_rank a = level_rank b \<Longrightarrow> a = b"
  by (cases a; cases b) simp_all

instantiation Level :: linorder
begin

definition less_eq_Level :: "Level \<Rightarrow> Level \<Rightarrow> bool" where
  "less_eq_Level a b \<longleftrightarrow> level_rank a \<le> level_rank b"

definition less_Level :: "Level \<Rightarrow> Level \<Rightarrow> bool" where
  "less_Level a b \<longleftrightarrow> level_rank a < level_rank b"

instance
  by standard (auto simp: less_eq_Level_def less_Level_def intro: level_rank_inj)

end

definition Level_from_env :: "env \<Rightarrow> Level" where
  "Level_from_env e = env_or (\<lambda>s. let l = to_lowercase s in
     if l = ''trace'' then Some Trace else if l = ''debug'' then Some Debug else if l = ''info'' then Some Info
     else if l = ''warn'' then Some Warn else if l = ''error'' then Some Error else None) Info e ''LOG_LEVEL''"

definition should_log :: "env \<Rightarrow> Level \<Rightarrow> bool" where
  "should_log e level \<longleftrightarrow> Level_from_env e \<le> level"

definition level_str :: "Level \<Rightarrow> string" where
  "level_str level = (case level of Trace \<Rightarrow> ''TRACE'' | Debug \<Rightarrow> ''DEBUG'' | Info \<Rightarrow> ''INFO'' | Warn \<Rightarrow> ''WARN'' | Error \<Rightarrow> ''ERROR'')"

text \<open>The line printed, if any; \<open>now\<close> is the formatted time.\<close>

definition log_line :: "env \<Rightarrow> string \<Rightarrow> Level \<Rightarrow> string \<Rightarrow> string option" where
  "log_line e now level msg = (if \<not> should_log e level then None
     else Some (''['' @ now @ ''][''  @ level_str level @ ''] '' @ msg))"

text \<open>Errors are always printed, and raising a message's level never hides it.\<close>

lemma log_line_error: "log_line e now Error msg \<noteq> None"
  by (cases "Level_from_env e") (simp_all add: log_line_def should_log_def less_eq_Level_def)

lemma log_line_mono: "a \<le> b \<Longrightarrow> log_line e now a msg \<noteq> None \<Longrightarrow> log_line e now b msg' \<noteq> None"
  by (auto simp: log_line_def should_log_def split: if_splits)

end
