(* ===== verification/Dummy.thy ===== *)
theory Dummy
  imports Store Bulk
begin

text \<open>
  The generator of test files (\<^verbatim>\<open>src/bin/dummy.rs\<close>): a file of the requested size is mapped into memory and
  one thread per 128 MiB fills its own slice, which is made from a raw pointer. The threads' random
  numbers are the argument \<open>rnd\<close>: byte \<open>j\<close> of thread \<open>i\<close>. What \<^verbatim>\<open>fs2\<close> and \<^verbatim>\<open>memmap2\<close> answer to a file length is an
  argument too. The multiplication of the size wraps as in a release build.
\<close>

section \<open>The slices\<close>

definition CHUNK_SIZE :: nat where
  "CHUNK_SIZE = 128 * 1024 * 1024"

definition num_chunks :: "nat \<Rightarrow> nat" where
  "num_chunks len = (len + CHUNK_SIZE - 1) div CHUNK_SIZE"

definition slice_start :: "nat \<Rightarrow> nat" where
  "slice_start i = i * CHUNK_SIZE"

definition slice_len :: "nat \<Rightarrow> nat \<Rightarrow> nat" where
  "slice_len len i = min (slice_start i + CHUNK_SIZE) len - slice_start i"

section \<open>The threads\<close>

text \<open>
  The memory and how far each thread has come. A step of thread \<open>i\<close> writes the next byte of its slice;
  the threads interleave in any order.
\<close>

type_synonym fill_state = "bytes \<times> (nat \<Rightarrow> nat)"

inductive fill_step :: "nat \<Rightarrow> (nat \<Rightarrow> nat \<Rightarrow> byte) \<Rightarrow> nat \<Rightarrow> fill_state \<Rightarrow> fill_state \<Rightarrow> bool" for len rnd where
  fill_byte: "i < num_chunks len \<Longrightarrow> pos i < slice_len len i \<Longrightarrow>
    fill_step len rnd i (mem, pos) (mem[slice_start i + pos i := rnd i (pos i)], pos(i := Suc (pos i)))"

text \<open>The scope ends when every thread has filled its slice.\<close>

definition all_joined :: "nat \<Rightarrow> (nat \<Rightarrow> nat) \<Rightarrow> bool" where
  "all_joined len pos \<longleftrightarrow> (\<forall>i < num_chunks len. pos i = slice_len len i)"

text \<open>One thread after the other.\<close>

definition fill_slice :: "(nat \<Rightarrow> nat \<Rightarrow> byte) \<Rightarrow> nat \<Rightarrow> nat \<Rightarrow> bytes \<Rightarrow> bytes" where
  "fill_slice rnd len i mem = foldl (\<lambda>m j. m[slice_start i + j := rnd i j]) mem [0..<slice_len len i]"

definition run_threads :: "(nat \<Rightarrow> nat \<Rightarrow> byte) \<Rightarrow> nat \<Rightarrow> bytes \<Rightarrow> bytes" where
  "run_threads rnd len mem = foldl (\<lambda>m i. fill_slice rnd len i m) mem [0..<num_chunks len]"

section \<open>The program\<close>

record map_calls =
  allocate :: "nat \<Rightarrow> unit res"
  map_mut :: "nat \<Rightarrow> unit res"
  flush_map :: "unit res"

text \<open>
  The hash of the file, or nothing after the usage message. The map is shared, so that the file has the
  threads' bytes before the flush. Timing and printing are left out.
\<close>

definition dummy_main :: "prims \<Rightarrow> map_calls \<Rightarrow> (nat \<Rightarrow> nat \<Rightarrow> byte) \<Rightarrow> string list \<Rightarrow> ('a conn_scheme, string option) io" where
  "dummy_main P M rnd args =
    (if length args < 3 then ret None
     else
       seq (lift_res (case parse_u64 (args ! 1) of None \<Rightarrow> Err ''invalid digit found in string'' | Some n \<Rightarrow> Ok n)) (\<lambda>size_mb.
       let size_bytes = unat (size_mb * 1024 * 1024); p = path_join [] (args ! 2) in
       seq (fs_do (file_write p [])) (\<lambda>_.
       seq (fs_do (file_write p (replicate size_bytes 0))) (\<lambda>_.
       seq (lift_res (allocate M size_bytes)) (\<lambda>_.
       seq (lift_res (map_mut M size_bytes)) (\<lambda>_.
       let mem = run_threads rnd size_bytes (replicate size_bytes 0) in
       seq (fs_do (file_write p mem)) (\<lambda>_.
       seq (lift_res (flush_map M)) (\<lambda>_.
       ret (Some (hex_encode P (hasher_finalize P (hasher_update P (hasher_new P) mem))))))))))))"

section \<open>The slices cover the file without overlap\<close>

lemma chunk_pos: "0 < CHUNK_SIZE"
  by (simp add: CHUNK_SIZE_def)

lemma chunk_index:
  assumes "k < len"
  shows "k div CHUNK_SIZE < num_chunks len"
proof -
  have "len + CHUNK_SIZE - 1 = (len - 1) + CHUNK_SIZE" using assms by simp
  then have "num_chunks len = ((len - 1) + CHUNK_SIZE) div CHUNK_SIZE" unfolding num_chunks_def by (rule arg_cong)
  also have "\<dots> = Suc ((len - 1) div CHUNK_SIZE)" using chunk_pos by (subst div_add_self2) simp_all
  finally have n: "num_chunks len = Suc ((len - 1) div CHUNK_SIZE)" .
  have "k div CHUNK_SIZE \<le> (len - 1) div CHUNK_SIZE" using assms by (intro div_le_mono) simp
  with n show ?thesis by simp
qed

lemma in_slice:
  assumes "j < slice_len len i"
  shows "slice_start i + j < len" "(slice_start i + j) div CHUNK_SIZE = i" "(slice_start i + j) mod CHUNK_SIZE = j"
proof -
  have "j < CHUNK_SIZE" "slice_start i + j < len" using assms by (auto simp: slice_len_def)
  then show "slice_start i + j < len" "(slice_start i + j) div CHUNK_SIZE = i" "(slice_start i + j) mod CHUNK_SIZE = j"
    by (simp_all add: slice_start_def)
qed

lemma slice_of: "k < len \<Longrightarrow> k mod CHUNK_SIZE < slice_len len (k div CHUNK_SIZE) \<and> slice_start (k div CHUNK_SIZE) + k mod CHUNK_SIZE = k"
proof -
  assume "k < len"
  have "slice_start (k div CHUNK_SIZE) + k mod CHUNK_SIZE = k" by (simp add: slice_start_def)
  moreover have "k mod CHUNK_SIZE < CHUNK_SIZE" using chunk_pos by simp
  ultimately show ?thesis using \<open>k < len\<close> by (auto simp: slice_len_def)
qed

section \<open>Every schedule leaves the same file\<close>

definition filled :: "(nat \<Rightarrow> nat \<Rightarrow> byte) \<Rightarrow> nat \<Rightarrow> bytes" where
  "filled rnd len = map (\<lambda>k. rnd (k div CHUNK_SIZE) (k mod CHUNK_SIZE)) [0..<len]"

definition fill_inv :: "nat \<Rightarrow> (nat \<Rightarrow> nat \<Rightarrow> byte) \<Rightarrow> fill_state \<Rightarrow> bool" where
  "fill_inv len rnd s \<longleftrightarrow> length (fst s) = len \<and> (\<forall>i. \<forall>j < snd s i. j < slice_len len i \<and> fst s ! (slice_start i + j) = rnd i j)"

lemma fill_inv_step:
  assumes "fill_step len rnd i s s'" "fill_inv len rnd s"
  shows "fill_inv len rnd s'"
  using assms(1)
proof cases
  case (fill_byte pos mem)
  let ?k = "slice_start i + pos i"
  have l: "length mem = len" and f: "\<And>a j. j < pos a \<Longrightarrow> j < slice_len len a \<and> mem ! (slice_start a + j) = rnd a j"
    using assms(2) fill_byte(1) by (auto simp: fill_inv_def)
  have ne: "slice_start a + j \<noteq> ?k" if "j < slice_len len a" "(a, j) \<noteq> (i, pos i)" for a j
    using in_slice(2,3) [OF that(1)] in_slice(2,3) [OF fill_byte(4)] that(2) by auto
  have "j < slice_len len a \<and> mem[?k := rnd i (pos i)] ! (slice_start a + j) = rnd a j" if "j < (pos(i := Suc (pos i))) a" for a j
  proof (cases "(a, j) = (i, pos i)")
    case True
    then show ?thesis using fill_byte(4) in_slice(1) [OF fill_byte(4)] l by simp
  next
    case False
    with that have "j < pos a" by (auto simp: less_Suc_eq split: if_splits)
    with f ne [of j a] False show ?thesis by auto
  qed
  with l fill_byte(2) show ?thesis by (simp add: fill_inv_def)
qed

interpretation fi: step_invariant "(replicate len 0, \<lambda>_. 0)" "fill_step len rnd" "fill_inv len rnd" for len rnd
proof
  show "fill_inv len rnd (replicate len 0, \<lambda>_. 0)" by (simp add: fill_inv_def)
qed (rule fill_inv_step)

lemma joined_filled:
  assumes "fill_inv len rnd (mem, pos)" "all_joined len pos"
  shows "mem = filled rnd len"
proof (rule nth_equalityI)
  show "length mem = length (filled rnd len)" using assms(1) by (simp add: fill_inv_def filled_def)
  fix k assume "k < length mem"
  then have k: "k < len" using assms(1) by (simp add: fill_inv_def)
  have "pos (k div CHUNK_SIZE) = slice_len len (k div CHUNK_SIZE)" using assms(2) chunk_index [OF k] by (simp add: all_joined_def)
  with slice_of [OF k] have s: "k mod CHUNK_SIZE < pos (k div CHUNK_SIZE)" "slice_start (k div CHUNK_SIZE) + k mod CHUNK_SIZE = k" by simp_all
  have "\<forall>i. \<forall>j < pos i. mem ! (slice_start i + j) = rnd i j" using assms(1) by (simp add: fill_inv_def)
  with s(1) have "mem ! (slice_start (k div CHUNK_SIZE) + k mod CHUNK_SIZE) = rnd (k div CHUNK_SIZE) (k mod CHUNK_SIZE)" by blast
  then have "mem ! k = rnd (k div CHUNK_SIZE) (k mod CHUNK_SIZE)" unfolding s(2) .
  with k show "mem ! k = filled rnd len ! k" by (simp add: filled_def)
qed

text \<open>One thread after the other is such a schedule.\<close>

lemma fill_slice_run:
  assumes "lrun s0 (fill_step len rnd) ls (mem, pos)" "i < num_chunks len" "pos i = 0" "n \<le> slice_len len i"
  shows "\<exists>ls'. lrun s0 (fill_step len rnd) ls' (foldl (\<lambda>m j. m[slice_start i + j := rnd i j]) mem [0..<n], pos(i := n))"
  using assms(4)
proof (induction n)
  case 0
  then show ?case using assms(1,3) by (metis foldl_Nil fun_upd_triv upt_0)
next
  case (Suc n)
  then obtain ls' where l: "lrun s0 (fill_step len rnd) ls' (foldl (\<lambda>m j. m[slice_start i + j := rnd i j]) mem [0..<n], pos(i := n))"
    by (meson Suc_leD)
  have "fill_step len rnd i (foldl (\<lambda>m j. m[slice_start i + j := rnd i j]) mem [0..<n], pos(i := n))
      ((foldl (\<lambda>m j. m[slice_start i + j := rnd i j]) mem [0..<n])[slice_start i + (pos(i := n)) i := rnd i ((pos(i := n)) i)],
       (pos(i := n))(i := Suc ((pos(i := n)) i)))"
    using assms(2) Suc.prems by (intro fill_byte) simp_all
  from lrun_step [where step = "fill_step len rnd", OF l this] show ?case
    by (intro exI [of _ "ls' @ [i]"]) (simp del: fun_upd_apply add: fun_upd_same)
qed

lemma run_threads_run:
  "\<exists>ls. lrun (mem, \<lambda>_. 0) (fill_step len rnd) ls (run_threads rnd len mem, \<lambda>i. if i < num_chunks len then slice_len len i else 0)"
proof -
  let ?m = "\<lambda>n. foldl (\<lambda>m i. fill_slice rnd len i m) mem [0..<n]" and ?p = "\<lambda>n i. if i < n then slice_len len i else (0 :: nat)"
  have "\<exists>ls. lrun (mem, \<lambda>_. 0) (fill_step len rnd) ls (?m n, ?p n)" if "n \<le> num_chunks len" for n
    using that
  proof (induction n)
    case 0
    have "lrun (mem, \<lambda>_. 0) (fill_step len rnd) [] (mem, \<lambda>_. 0)" by (rule lrun_start)
    then show ?case by auto
  next
    case (Suc n)
    then obtain ls where "lrun (mem, \<lambda>_. 0) (fill_step len rnd) ls (?m n, ?p n)" by auto
    from fill_slice_run [OF this, of n "slice_len len n"] Suc.prems
    obtain ls' where "lrun (mem, \<lambda>_. 0) (fill_step len rnd) ls' (fill_slice rnd len n (?m n), (?p n)(n := slice_len len n))"
      by (auto simp: fill_slice_def)
    moreover have "(?p n)(n := slice_len len n) = ?p (Suc n)" by (auto simp: fun_eq_iff)
    ultimately show ?case by auto
  qed
  from this [of "num_chunks len"] show ?thesis by (simp add: run_threads_def)
qed

lemma run_threads_filled: "run_threads rnd len (replicate len 0) = filled rnd len"
proof -
  obtain ls where "lrun (replicate len 0, \<lambda>_. 0) (fill_step len rnd) ls
      (run_threads rnd len (replicate len 0), \<lambda>i. if i < num_chunks len then slice_len len i else 0)"
    using run_threads_run by blast
  from fi.hist.run_hinv [OF this] show ?thesis by (rule joined_filled) (simp add: all_joined_def)
qed

text \<open>
  C38. The unsafe slices of the generator are safe: however the threads interleave, no write leaves the
  mapped file and no two threads write the same byte, so that once all have ended the file is the one a
  sequential run makes, every byte of it set by the thread of its slice.
\<close>

theorem fill_race_free:
  assumes "lrun (replicate len 0, \<lambda>_. 0) (fill_step len rnd) ls (mem, pos)" "all_joined len pos"
  shows "mem = run_threads rnd len (replicate len 0) \<and> length mem = len \<and>
    (\<forall>k < len. mem ! k = rnd (k div CHUNK_SIZE) (k mod CHUNK_SIZE)) \<and>
    (\<forall>i i' j j'. j < slice_len len i \<longrightarrow> j' < slice_len len i' \<longrightarrow>
      slice_start i + j < len \<and> (slice_start i + j = slice_start i' + j' \<longrightarrow> i = i' \<and> j = j'))"
proof -
  have "mem = filled rnd len" by (rule joined_filled [OF fi.hist.run_hinv [OF assms(1)] assms(2)])
  moreover have "slice_start i + j < len \<and> (slice_start i + j = slice_start i' + j' \<longrightarrow> i = i' \<and> j = j')"
    if "j < slice_len len i" "j' < slice_len len i'" for i i' j j'
    using in_slice [OF that(1)] in_slice [OF that(2)] by metis
  ultimately show ?thesis by (simp add: run_threads_filled) (simp add: filled_def)
qed

theorem fill_race_free_witness:
  "\<exists>ls mem pos. lrun (replicate 2 0, \<lambda>_. 0) (fill_step 2 (\<lambda>i j. of_nat (7 + j))) ls (mem, pos) \<and> all_joined 2 pos \<and> mem = [7, 8]"
proof -
  let ?r = "\<lambda>i j. of_nat (7 + j) :: byte"
  obtain ls where l: "lrun (replicate 2 0, \<lambda>_. 0) (fill_step 2 ?r) ls
      (run_threads ?r 2 (replicate 2 0), \<lambda>i. if i < num_chunks 2 then slice_len 2 i else 0)"
    using run_threads_run by blast
  have j: "all_joined 2 (\<lambda>i. if i < num_chunks 2 then slice_len 2 i else 0)" by (simp add: all_joined_def)
  let ?m = "run_threads ?r 2 (replicate 2 0)"
  have "length ?m = 2" "?m ! 0 = 7" "?m ! 1 = 8" using fill_race_free [OF l j] by (simp_all add: CHUNK_SIZE_def)
  then have "?m = [7, 8]" by (intro nth_equalityI) (auto simp: less_2_cases_iff)
  with l j show ?thesis by blast
qed

text \<open>The generator leaves that file and returns its hash.\<close>

lemma dummy_main_file:
  assumes "sha_ok P" "dummy_main P M rnd args w = (Ok (Some h), w')"
  shows "\<exists>n. parse_u64 (args ! 1) = Some n \<and> h = content_hash P (filled rnd (unat (n * 1024 * 1024))) \<and>
    fs_get (disk w') (path_join [] (args ! 2)) = Some (FileNode (filled rnd (unat (n * 1024 * 1024))))"
proof -
  have "hex_encode P (hasher_finalize P (hasher_update P (hasher_new P) m)) = content_hash P m" for m
    using hash_chunks_concat [OF assms(1), of "[m]"] by (simp add: hash_chunks_def)
  with assms(2) show ?thesis
    by (auto simp: dummy_main_def Let_def seq_def lift_res_def ret_def fs_do_def run_threads_filled file_write_get
        split: if_splits option.splits res.splits)
qed

end
