(* ===== verification/Spec2Isabelle.thy ===== *)
theory Spec2Isabelle
  imports Startup Objects Layer Accept Log Dummy
begin

text \<open>
  A verification development for rdrive, an object store that is served over an encrypted TCP channel
  to clients that are known by their Ed25519 keys.

  \<^bold>\<open>The program.\<close> A client connects, the two sides shake hands (each proves its key, both derive a session
  key), the client sends one command in a sealed frame, and the server checks its rate limit and
  runs the command's handler: upload, download, registration or rotation of a key, status, echo. Objects lie in
  the storage directory, under a directory for the client's key and one for the file's key, as a
  contents file and a metadata file. The command-line client keeps its keys, the keys of the servers it
  trusts and a catalog of what it has pushed in the user's directory.

  \<^bold>\<open>How it is modelled.\<close> A computation that may fail, panic or wait for ever is a function from a
  state to a result and a state (\<^verbatim>\<open>io\<close>, with \<^verbatim>\<open>Ok\<close>, \<^verbatim>\<open>Err\<close>, \<^verbatim>\<open>Panic\<close> and \<^verbatim>\<open>Pending\<close>); every early return, \<^verbatim>\<open>?\<close>
  and panic of the source is a branch. The state of a connection is a record: what is still to be
  read and how the input ends, what has been written, buffered and can be taken by the peer, the memory pool,
  the random source, the clock, the time waited, and the disk; the server and the client extend it. Integers keep their
  width, floating-point numbers are rationals under an arbitrary rounding. AES-GCM, SHA-2, Ed25519, X25519, hex,
  postcard and serde_json are parameters (the record \<^verbatim>\<open>prims\<close> and the record \<^verbatim>\<open>json\<close>), and what is relied on is a named
  hypothesis (\<^verbatim>\<open>aead_ok\<close>, \<^verbatim>\<open>sha_ok\<close>, \<^verbatim>\<open>ed_ok\<close>, \<^verbatim>\<open>dh_ok\<close>, \<^verbatim>\<open>hex_ok\<close>, \<^verbatim>\<open>roundtrips\<close>); \<^verbatim>\<open>demo\<close> and its variants
  are instances that satisfy them, on which the witnesses run.

  \<^bold>\<open>The theories.\<close>
  \<^item> \<^verbatim>\<open>Prelude\<close>: the result and state monad, buffers, big-endian lengths, strings, chunks, labelled runs and the locales for
    relations kept by computations and for invariants of runs.
  \<^item> \<^verbatim>\<open>Header\<close> (\<^verbatim>\<open>header.rs\<close>), \<^verbatim>\<open>Prims\<close> and \<^verbatim>\<open>Crypto\<close> (\<^verbatim>\<open>crypto.rs\<close>): messages, the crates' laws, sealing and opening.
  \<^item> \<^verbatim>\<open>Fs\<close>, \<^verbatim>\<open>Conn\<close>: the file system, the socket, timeouts. \<^verbatim>\<open>Wire\<close>: the frames of \<^verbatim>\<open>protocol_v1.rs\<close>. \<^verbatim>\<open>Bulk\<close>: the transfer
    loops. \<^verbatim>\<open>Rel\<close>: which parts of the state the shared operations can change.
  \<^item> \<^verbatim>\<open>Handshake\<close>: both sides. They agree on a session key; the server learns a key only with a fresh
    signature; the client goes on only with a key it has on record or that the user confirmed.
  \<^item> \<^verbatim>\<open>RateLimit\<close> (\<^verbatim>\<open>ratelimit.rs\<close>): bounds of the buckets and of what is granted, and when cleaning up is harmless.
  \<^item> \<^verbatim>\<open>Store\<close>, \<^verbatim>\<open>Catalog\<close> (\<^verbatim>\<open>lib.rs\<close>): directories, configuration, hashing, metadata, counters; the client's catalog.
  \<^item> \<^verbatim>\<open>Locks\<close>: the table of file locks as interleaved steps of tasks. \<^verbatim>\<open>Accept\<close>: the count of connections.
  \<^item> \<^verbatim>\<open>Serve\<close>, \<^verbatim>\<open>Upload\<close>, \<^verbatim>\<open>Download\<close>, \<^verbatim>\<open>AuthKeys\<close>, \<^verbatim>\<open>Echo\<close>, \<^verbatim>\<open>Server\<close>: the handlers and the dispatch of
    \<^verbatim>\<open>protocol_v1.rs\<close>. For each handler: what a complete run stores, sends and counts, what each kind of failure
    leaves behind, and which paths it can change at all.
  \<^item> \<^verbatim>\<open>Objects\<close>: the disk as a map from slots to objects, and that the handlers implement putting, discarding
    and reading objects.
  \<^item> \<^verbatim>\<open>Client\<close>: the client functions of \<^verbatim>\<open>protocol_v1.rs\<close>. \<^verbatim>\<open>Session\<close>: a client and the server on the two ends of a
    connection, from the client's call to the stored object and back. \<^verbatim>\<open>Register\<close>: the same for the registration of a key.
  \<^item> \<^verbatim>\<open>Cli\<close> (\<^verbatim>\<open>bin/client.rs\<close>, \<^verbatim>\<open>args.rs\<close>), \<^verbatim>\<open>Startup\<close> (\<^verbatim>\<open>bin/server.rs\<close>, \<^verbatim>\<open>service.rs\<close>), \<^verbatim>\<open>Log\<close> (\<^verbatim>\<open>log.rs\<close>): the two programs
    around the protocol.
  \<^item> \<^verbatim>\<open>Layer\<close> (\<^verbatim>\<open>layer.rs\<close>): cutting files into layers, deltas, restoring. \<^verbatim>\<open>Perf\<close>: the performance client, that it
    ends and what it reports. \<^verbatim>\<open>Dummy\<close> (\<^verbatim>\<open>bin/dummy.rs\<close>): the threads of the test file generator do not race.

  \<^bold>\<open>Bounds.\<close> No definition uses fuel. The sampling loops of the performance client end by the clock alone and are partial
  functions, which are proved to return once the clock has passed their time. The receive loop ends because every iteration that goes on receives
  the chunk it asked for; the echo loop because an iteration that goes on has consumed a frame. The
  end-to-end theorems are about files of a whole number of 64 KiB chunks: for any other size the
  sender panics on its last chunk, which is proved too. What arrives later than what has arrived is expressed by how the input ends:
  closed, or stalled for ever.

  \<^bold>\<open>Not modelled.\<close> \<^verbatim>\<open>protocol_v2.rs\<close> is commented out. Parsing the command line is clap's work; printing, colours,
  progress bars and the unused signal handler have no effect on the state, nor have the unit tests inside the source files.
  What is printed by the performance client is the value of its model. Strings typed by the user are taken as ASCII where they
  are trimmed or lowered.
\<close>

end
